theory Spec2Isabelle
  imports Main "HOL-Library.Word"
begin

section \<open>The JNI bridge of sqlite3-jni.c: data model\<close>

text \<open>
  The development embeds the object bridge of \<^verbatim>\<open>ext/jni/src/c/sqlite3-jni.c\<close>.
  Pointers are addresses (natural numbers, \<open>0\<close> is \<^verbatim>\<open>NULL\<close>); the records a
  pointer may refer to live in explicit stores, so that aliasing between list links is
  visible.  A Java reference is the identity of the object it refers to (\<open>0\<close> is
  \<^verbatim>\<open>null\<close>), which makes \<^verbatim>\<open>IsSameObject\<close> equality; the creation and deletion of
  global references, every call into managed code and every call into the native
  engine are recorded, in order, in an event log.  The build modelled is the one with
  \<^verbatim>\<open>SQLITE_ENABLE_PREUPDATE_HOOK\<close>, without \<^verbatim>\<open>SQLITE_DEBUG\<close> (assertions are
  compiled out) and without FTS5.  Mutexes are not modelled (operations run one at a
  time); the counters that the mutex macros increment are.
\<close>

type_synonym ptr = nat
type_synonym jobject = nat
type_synonym jmethodID = nat
type_synonym sqlite3 = nat
type_synonym JNIEnv = nat

text \<open>
  The method table of the managed runtime: \<open>jm obj name sig\<close> is what
  \<^verbatim>\<open>GetMethodID(GetObjectClass(obj), name, sig)\<close> returns, \<open>0\<close> when the class
  of \<open>obj\<close> has no such method (the runtime then has a \<^verbatim>\<open>NoSuchMethodError\<close>
  pending).
\<close>

type_synonym jmethods = "jobject \<Rightarrow> string \<Rightarrow> string \<Rightarrow> jmethodID"

text \<open>
  What \<^verbatim>\<open>CallIntMethod\<close> hands back to C: the returned \<^verbatim>\<open>jint\<close> and, when the
  managed method threw, the text of the pending exception.  The JNI specification does
  not say which value is returned for a call that threw, so it is part of the outcome.
\<close>

record jcall =
  call_rv :: int
  call_threw :: "string option"

text \<open>Result codes and text encodings of the engine's public header \<^verbatim>\<open>sqlite3.h\<close>.\<close>

definition SQLITE_OK :: int where "SQLITE_OK = 0"
definition SQLITE_ERROR :: int where "SQLITE_ERROR = 1"
definition SQLITE_NOMEM :: int where "SQLITE_NOMEM = 7"
definition SQLITE_MISUSE :: int where "SQLITE_MISUSE = 21"
definition SQLITE_FORMAT :: int where "SQLITE_FORMAT = 24"
definition SQLITE_UTF8 :: int where "SQLITE_UTF8 = 1"
definition SQLITE_UTF16LE :: int where "SQLITE_UTF16LE = 2"
definition SQLITE_UTF16BE :: int where "SQLITE_UTF16BE = 3"
definition SQLITE_UTF16 :: int where "SQLITE_UTF16 = 4"

text \<open>The members of \<^verbatim>\<open>S3JniDb.hooks\<close>; a pointer to one of them is its name.\<close>

datatype hookSlot =
  busyHandler | collation | collationNeeded | commit | progress
  | rollback | trace | update | auth | preUpdate

record S3JniHook =
  jObj :: jobject
  midCallback :: jmethodID

record S3JniDb =
  pDb :: sqlite3
  jDb :: jobject
  zMainDbName :: "string option"
  hooks :: "hookSlot \<Rightarrow> S3JniHook"
  pNext :: ptr
  pPrev :: ptr

record S3JniEnv =
  env :: JNIEnv
  pdbOpening :: ptr
  row_pPrev :: ptr
  row_pNext :: ptr

record S3JniAutoExtension =
  ax_jObj :: jobject
  midFunc :: jmethodID

datatype UDFType = UDF_SCALAR | UDF_AGGREGATE | UDF_WINDOW | UDF_UNKNOWN_TYPE

record S3JniUdf =
  udf_jObj :: jobject
  zFuncName :: "string option"
  udf_type :: UDFType
  jmidxFunc :: jmethodID
  jmidxStep :: jmethodID
  jmidxFinal :: jmethodID
  jmidxValue :: jmethodID
  jmidxInverse :: jmethodID

record S3JniMetrics =
  envCacheHits :: "32 word"
  envCacheMisses :: "32 word"
  envCacheAllocs :: "32 word"
  nMutexEnv :: "32 word"
  nMutexEnv2 :: "32 word"
  nMutexPerDb :: "32 word"
  nMutexAutoExt :: "32 word"
  nDestroy :: "32 word"
  nPdbAlloc :: "32 word"
  nPdbRecycled :: "32 word"

text \<open>Calls that leave the bridge, as the log records them.\<close>

datatype event =
  NewGlobalRef jobject
  | DeleteGlobalRef jobject
  | Call_xDestroy jobject
  | CallIntMethod jobject jmethodID "jobject list"
  | Native_db_error sqlite3 int "string option"
  | Native_busy_handler sqlite3 ptr
  | Native_busy_timeout sqlite3 int
  | Native_commit_hook sqlite3 ptr
  | Native_rollback_hook sqlite3 ptr
  | Native_update_hook sqlite3 ptr
  | Native_preupdate_hook sqlite3 ptr
  | Native_progress_handler sqlite3 int ptr
  | Native_trace_v2 sqlite3 int ptr
  | Native_set_authorizer sqlite3 ptr
  | Native_collation_needed sqlite3 ptr
  | Native_auto_extension
  | Native_create_function sqlite3 string int int UDFType
  | Native_close sqlite3

text \<open>
  The entries of \<^verbatim>\<open>S3NphRefs\<close> that the functions embedded here pass on: the keys
  of the class cache \<^verbatim>\<open>S3JniGlobal.nph\<close> for the connection wrapper and for the
  output pointer that receives it.  An entry of the cache is an \<^verbatim>\<open>S3JniNphClass\<close>;
  \<open>nph_pRef\<close> says whether its \<^verbatim>\<open>pRef\<close> member is set.
\<close>

datatype S3NphRef = Nph_sqlite3 | Nph_OutputPointer_sqlite3

record S3JniNphClass =
  nph_pRef :: bool
  klazz :: jobject
  midCtor :: jmethodID
  fidValue :: nat

text \<open>
  \<^verbatim>\<open>S3JniGlobal\<close> together with the memory its pointers refer to, the two fields of
  managed objects that the bridge reads and writes (\<^verbatim>\<open>NativePointerHolder.nativePointer\<close>
  and \<^verbatim>\<open>OutputPointer.sqlite3.value\<close>), the function-local static \<^verbatim>\<open>once\<close> of
  \<^verbatim>\<open>sqlite3_auto_extension\<close>'s binding, the exception pending in the calling
  thread (\<^verbatim>\<open>ExceptionCheck\<close> reads it, \<^verbatim>\<open>ExceptionClear\<close> resets it), and the
  event log.
\<close>

record S3JniGlobalType =
  envCache_aHead :: ptr
  envCache_aFree :: ptr
  envRows :: "ptr \<Rightarrow> S3JniEnv"
  perDb_aUsed :: ptr
  perDb_aFree :: ptr
  dbRows :: "ptr \<Rightarrow> S3JniDb"
  autoExt_pExt :: "S3JniAutoExtension list"
  autoExt_nAlloc :: nat
  autoExt_nExt :: nat
  once :: int
  metrics :: S3JniMetrics
  nph :: "S3NphRef \<Rightarrow> S3JniNphClass"
  nativePointer :: "jobject \<Rightarrow> nat"
  outputValue :: "jobject \<Rightarrow> jobject"
  pending :: "string option"
  events :: "event list"

definition emit :: "event \<Rightarrow> S3JniGlobalType \<Rightarrow> S3JniGlobalType" where
  "emit e s = s\<lparr>events := events s @ [e]\<rparr>"

section \<open>Reference and error helpers\<close>

text \<open>
  \<^verbatim>\<open>GetMethodID\<close> on the class of an object: a missing method leaves an exception
  pending.  \<^verbatim>\<open>IFTHREW\<close> is \<open>pending s \<noteq> None\<close>.
\<close>

definition GetMethodID ::
  "jmethods \<Rightarrow> jobject \<Rightarrow> string \<Rightarrow> string \<Rightarrow> S3JniGlobalType \<Rightarrow> jmethodID \<times> S3JniGlobalType" where
  "GetMethodID jm obj name sig s =
     (if jm obj name sig = 0 then (0, s\<lparr>pending := Some ''java.lang.NoSuchMethodError''\<rparr>)
      else (jm obj name sig, s))"

definition ExceptionClear :: "S3JniGlobalType \<Rightarrow> S3JniGlobalType" where
  "ExceptionClear s = s\<lparr>pending := None\<rparr>"

text \<open>\<^verbatim>\<open>REF_G\<close> and \<^verbatim>\<open>UNREF_G\<close>: both do nothing for a null reference.\<close>

definition new_global_ref :: "jobject \<Rightarrow> S3JniGlobalType \<Rightarrow> jobject \<times> S3JniGlobalType" where
  "new_global_ref v s = (if v \<noteq> 0 then (v, emit (NewGlobalRef v) s) else (0, s))"

definition delete_global_ref :: "jobject \<Rightarrow> S3JniGlobalType \<Rightarrow> S3JniGlobalType" where
  "delete_global_ref v s = (if v \<noteq> 0 then emit (DeleteGlobalRef v) s else s)"

definition s3jni_db_error ::
  "sqlite3 \<Rightarrow> int \<Rightarrow> string option \<Rightarrow> S3JniGlobalType \<Rightarrow> int \<times> S3JniGlobalType" where
  "s3jni_db_error db err_code zMsg s =
     (if db \<noteq> 0 then (err_code, emit (Native_db_error db err_code zMsg) s)
      else (err_code, s))"

text \<open>
  \<^verbatim>\<open>s3jni_call_xDestroy\<close>.  The managed \<^verbatim>\<open>xDestroy()\<close> is taken to return
  normally; were it to throw, the exception would be reported and cleared at once.
\<close>

definition s3jni_call_xDestroy ::
  "jmethods \<Rightarrow> jobject \<Rightarrow> S3JniGlobalType \<Rightarrow> S3JniGlobalType" where
  "s3jni_call_xDestroy jm obj s =
     (if obj \<noteq> 0 then
        (let (method, s1) = GetMethodID jm obj ''xDestroy'' ''()V'' s in
         if method \<noteq> 0 then
           emit (Call_xDestroy obj)
             (s1\<lparr>metrics := (metrics s1)\<lparr>nDestroy := nDestroy (metrics s1) + 1\<rparr>\<rparr>)
         else ExceptionClear s1)
      else s)"

section \<open>Zeroed records\<close>

definition S3JniHook_zero :: S3JniHook where
  "S3JniHook_zero = \<lparr>jObj = 0, midCallback = 0\<rparr>"

definition S3JniDb_zero :: S3JniDb where
  "S3JniDb_zero = \<lparr>pDb = 0, jDb = 0, zMainDbName = None, hooks = (\<lambda>k. S3JniHook_zero),
                    pNext = 0, pPrev = 0\<rparr>"

definition S3JniEnv_zero :: S3JniEnv where
  "S3JniEnv_zero = \<lparr>env = 0, pdbOpening = 0, row_pPrev = 0, row_pNext = 0\<rparr>"

definition S3JniAutoExtension_zero :: S3JniAutoExtension where
  "S3JniAutoExtension_zero = \<lparr>ax_jObj = 0, midFunc = 0\<rparr>"

definition S3JniNphClass_zero :: S3JniNphClass where
  "S3JniNphClass_zero = \<lparr>nph_pRef = False, klazz = 0, midCtor = 0, fidValue = 0\<rparr>"

definition S3JniMetrics_zero :: S3JniMetrics where
  "S3JniMetrics_zero = \<lparr>envCacheHits = 0, envCacheMisses = 0, envCacheAllocs = 0,
     nMutexEnv = 0, nMutexEnv2 = 0, nMutexPerDb = 0, nMutexAutoExt = 0, nDestroy = 0,
     nPdbAlloc = 0, nPdbRecycled = 0\<rparr>"

section \<open>The per-thread cache and the per-connection registry\<close>

text \<open>
  The ways a call does not return to its caller: \<^verbatim>\<open>FatalError\<close> of the managed
  runtime (it aborts the process) and a dereferenced \<^verbatim>\<open>NULL\<close>.
\<close>

datatype fault = FatalError string | NullDeref

text \<open>
  \<^verbatim>\<open>s3jni_malloc\<close> for a non-empty block: \<open>m\<close> is the address
  \<^verbatim>\<open>sqlite3_malloc\<close> delivers, \<open>0\<close> when it has no memory.
\<close>

definition s3jni_malloc :: "ptr \<Rightarrow> fault + ptr" where
  "s3jni_malloc m = (if m = 0 then Inl (FatalError ''Out of memory.'') else Inr m)"

definition upd_env :: "ptr \<Rightarrow> (S3JniEnv \<Rightarrow> S3JniEnv) \<Rightarrow> S3JniGlobalType \<Rightarrow> S3JniGlobalType" where
  "upd_env p f s = s\<lparr>envRows := (envRows s)(p := f (envRows s p))\<rparr>"

definition upd_db :: "ptr \<Rightarrow> (S3JniDb \<Rightarrow> S3JniDb) \<Rightarrow> S3JniGlobalType \<Rightarrow> S3JniGlobalType" where
  "upd_db p f s = s\<lparr>dbRows := (dbRows s)(p := f (dbRows s p))\<rparr>"

definition upd_metrics :: "(S3JniMetrics \<Rightarrow> S3JniMetrics) \<Rightarrow> S3JniGlobalType \<Rightarrow> S3JniGlobalType" where
  "upd_metrics f s = s\<lparr>metrics := f (metrics s)\<rparr>"

definition upd_nph ::
  "S3NphRef \<Rightarrow> (S3JniNphClass \<Rightarrow> S3JniNphClass) \<Rightarrow> S3JniGlobalType \<Rightarrow> S3JniGlobalType" where
  "upd_nph r f s = s\<lparr>nph := (nph s)(r := f (nph s r))\<rparr>"

subsection \<open>The class cache and the fields of managed objects\<close>

text \<open>
  What the runtime answers when the bridge looks up the classes of its own Java half:
  the class object for \<^verbatim>\<open>FindClass\<close>, the field \<^verbatim>\<open>nativePointer\<close> or \<^verbatim>\<open>value\<close>
  for \<^verbatim>\<open>GetFieldID\<close> and the no-argument constructor for \<^verbatim>\<open>GetMethodID\<close>.  They
  exist and are the same for the lifetime of the runtime; a lookup that failed would
  end the process (\<^verbatim>\<open>EXCEPTION_IS_FATAL\<close>).
\<close>

definition jvm_class :: "S3NphRef \<Rightarrow> jobject" where
  "jvm_class r = (case r of Nph_sqlite3 \<Rightarrow> 1000 | Nph_OutputPointer_sqlite3 \<Rightarrow> 1001)"

definition jvm_field :: "S3NphRef \<Rightarrow> nat" where
  "jvm_field r = (case r of Nph_sqlite3 \<Rightarrow> 1 | Nph_OutputPointer_sqlite3 \<Rightarrow> 2)"

definition jvm_ctor :: "S3NphRef \<Rightarrow> jmethodID" where
  "jvm_ctor r = (case r of Nph_sqlite3 \<Rightarrow> 3 | Nph_OutputPointer_sqlite3 \<Rightarrow> 4)"

text \<open>
  \<^verbatim>\<open>S3JniGlobal_nph_cache\<close>: the first use of an entry fills it, which takes a
  global reference on the class and counts one entry into the mutex.
\<close>

definition S3JniGlobal_nph_cache :: "S3NphRef \<Rightarrow> S3JniGlobalType \<Rightarrow> S3JniGlobalType" where
  "S3JniGlobal_nph_cache r s =
     (if \<not> nph_pRef (nph s r) then
        (let s1 = upd_metrics (\<lambda>c. c\<lparr>nMutexEnv2 := nMutexEnv2 c + 1\<rparr>) s;
             s2 = upd_nph r (\<lambda>n. n\<lparr>nph_pRef := True, klazz := jvm_class r\<rparr>) s1;
             (g, s3) = new_global_ref (klazz (nph s2 r)) s2
         in upd_nph r (\<lambda>n. n\<lparr>klazz := g\<rparr>) s3)
      else s)"

text \<open>
  \<^verbatim>\<open>NativePointerHolder_getField\<close> and \<^verbatim>\<open>setupOutputPointer\<close>, which differ in the
  name of the field only: the field id is looked up on first use.
\<close>

definition NativePointerHolder_getField ::
  "S3NphRef \<Rightarrow> S3JniGlobalType \<Rightarrow> nat \<times> S3JniGlobalType" where
  "NativePointerHolder_getField r s =
     (let s1 = S3JniGlobal_nph_cache r s;
          s2 = (if fidValue (nph s1 r) = 0
                then upd_nph r (\<lambda>n. n\<lparr>fidValue := jvm_field r\<rparr>)
                       (upd_metrics (\<lambda>c. c\<lparr>nMutexEnv2 := nMutexEnv2 c + 1\<rparr>) s1)
                else s1)
      in (fidValue (nph s2 r), s2))"

definition setupOutputPointer ::
  "S3NphRef \<Rightarrow> S3JniGlobalType \<Rightarrow> nat \<times> S3JniGlobalType" where
  "setupOutputPointer r s =
     (let s1 = S3JniGlobal_nph_cache r s;
          s2 = (if fidValue (nph s1 r) = 0
                then upd_nph r (\<lambda>n. n\<lparr>fidValue := jvm_field r\<rparr>)
                       (upd_metrics (\<lambda>c. c\<lparr>nMutexEnv2 := nMutexEnv2 c + 1\<rparr>) s1)
                else s1)
      in (fidValue (nph s2 r), s2))"

text \<open>
  \<^verbatim>\<open>NativePointerHolder_set\<close> and \<^verbatim>\<open>NativePointerHolder_get\<close>; the latter reads
  nothing, and touches no cache, for a null object.
\<close>

definition NativePointerHolder_set ::
  "jobject \<Rightarrow> nat \<Rightarrow> S3NphRef \<Rightarrow> S3JniGlobalType \<Rightarrow> S3JniGlobalType" where
  "NativePointerHolder_set ppOut p r s =
     (let (fid, s1) = NativePointerHolder_getField r s
      in s1\<lparr>nativePointer := (nativePointer s1)(ppOut := p)\<rparr>)"

definition NativePointerHolder_get ::
  "jobject \<Rightarrow> S3NphRef \<Rightarrow> S3JniGlobalType \<Rightarrow> nat \<times> S3JniGlobalType" where
  "NativePointerHolder_get pObj r s =
     (if pObj \<noteq> 0 then
        (let (fid, s1) = NativePointerHolder_getField r s in (nativePointer s1 pObj, s1))
      else (0, s))"

text \<open>
  The cache entry for \<open>r\<close> is filled and holds the field id: the state every
  \<^verbatim>\<open>NativePointerHolder_set\<close> and \<^verbatim>\<open>NativePointerHolder_get\<close> for \<open>r\<close> leaves behind,
  so the state of every run in which a wrapper has been given a native pointer.
\<close>

definition nph_warm :: "S3NphRef \<Rightarrow> S3JniGlobalType \<Rightarrow> bool" where
  "nph_warm r s = (nph_pRef (nph s r) \<and> fidValue (nph s r) \<noteq> 0)"

subsection \<open>The lists\<close>

text \<open>
  The search loop shared by \<^verbatim>\<open>S3JniGlobal_env_cache\<close> and
  \<^verbatim>\<open>S3JniGlobal_env_uncache\<close>: the first row for \<open>e\<close> from \<open>row\<close> on, \<open>0\<close> at
  the end of the list.  On a cyclic list without such a row it does not return.
\<close>

partial_function (option) env_find :: "(ptr \<Rightarrow> S3JniEnv) \<Rightarrow> JNIEnv \<Rightarrow> ptr \<Rightarrow> ptr option" where
  "env_find mem e row =
     (if row = 0 then Some 0
      else if env (mem row) = e then Some row
      else env_find mem e (row_pNext (mem row)))"

text \<open>The tail of \<^verbatim>\<open>S3JniGlobal_env_cache\<close>: zero the row, push it on the used-list.\<close>

definition env_cache_link :: "ptr \<Rightarrow> JNIEnv \<Rightarrow> S3JniGlobalType \<Rightarrow> ptr \<times> S3JniGlobalType" where
  "env_cache_link row e s =
     (let s1 = upd_env row (\<lambda>r. S3JniEnv_zero) s;
          s2 = upd_env row (\<lambda>r. r\<lparr>row_pNext := envCache_aHead s1\<rparr>) s1;
          s3 = (if row_pNext (envRows s2 row) \<noteq> 0
                then upd_env (row_pNext (envRows s2 row)) (\<lambda>r. r\<lparr>row_pPrev := row\<rparr>) s2
                else s2);
          s4 = s3\<lparr>envCache_aHead := row\<rparr>;
          s5 = upd_env row (\<lambda>r. r\<lparr>env := e\<rparr>) s4
      in (row, s5))"

definition S3JniGlobal_env_cache ::
  "ptr \<Rightarrow> JNIEnv \<Rightarrow> S3JniGlobalType \<Rightarrow> (fault + ptr \<times> S3JniGlobalType) option" where
  "S3JniGlobal_env_cache m e s =
     (let s0 = upd_metrics (\<lambda>c. c\<lparr>nMutexEnv := nMutexEnv c + 1\<rparr>) s in
      case env_find (envRows s0) e (envCache_aHead s0) of
        None \<Rightarrow> None
      | Some row \<Rightarrow>
          if row \<noteq> 0 then
            Some (Inr (row, upd_metrics (\<lambda>c. c\<lparr>envCacheHits := envCacheHits c + 1\<rparr>) s0))
          else
            (let s1 = upd_metrics (\<lambda>c. c\<lparr>envCacheMisses := envCacheMisses c + 1\<rparr>) s0;
                 fr = envCache_aFree s1
             in if fr \<noteq> 0 then
                  (let s2 = s1\<lparr>envCache_aFree := row_pNext (envRows s1 fr)\<rparr>;
                       s3 = (if row_pNext (envRows s2 fr) \<noteq> 0
                             then upd_env (row_pNext (envRows s2 fr)) (\<lambda>r. r\<lparr>row_pPrev := 0\<rparr>) s2
                             else s2)
                   in Some (Inr (env_cache_link fr e s3)))
                else
                  (case s3jni_malloc m of
                     Inl f \<Rightarrow> Some (Inl f)
                   | Inr nw \<Rightarrow>
                       Some (Inr (env_cache_link nw e
                         (upd_metrics (\<lambda>c. c\<lparr>envCacheAllocs := envCacheAllocs c + 1\<rparr>) s1))))))"

text \<open>
  \<^verbatim>\<open>S3JniGlobal_env_uncache\<close> in its three parts: the search, the statements that take
  the row out of the used-list (\<open>env_unlink\<close>), and those that zero it and push it on
  the free-list (\<open>env_set_free\<close>).
\<close>

definition env_unlink :: "ptr \<Rightarrow> S3JniGlobalType \<Rightarrow> S3JniGlobalType" where
  "env_unlink row s =
     (let s1 = (if row_pNext (envRows s row) \<noteq> 0
                then upd_env (row_pNext (envRows s row))
                       (\<lambda>r. r\<lparr>row_pPrev := row_pPrev (envRows s row)\<rparr>) s
                else s);
          s2 = (if row_pPrev (envRows s1 row) \<noteq> 0
                then upd_env (row_pPrev (envRows s1 row))
                       (\<lambda>r. r\<lparr>row_pNext := row_pNext (envRows s1 row)\<rparr>) s1
                else s1)
      in if envCache_aHead s2 = row
         then s2\<lparr>envCache_aHead := row_pNext (envRows s2 row)\<rparr>
         else s2)"

definition env_set_free :: "ptr \<Rightarrow> S3JniGlobalType \<Rightarrow> S3JniGlobalType" where
  "env_set_free row s =
     (let s4 = upd_env row (\<lambda>r. S3JniEnv_zero) s;
          s5 = upd_env row (\<lambda>r. r\<lparr>row_pNext := envCache_aFree s4\<rparr>) s4;
          s6 = (if row_pNext (envRows s5 row) \<noteq> 0
                then upd_env (row_pNext (envRows s5 row)) (\<lambda>r. r\<lparr>row_pPrev := row\<rparr>) s5
                else s5)
      in s6\<lparr>envCache_aFree := row\<rparr>)"

definition S3JniGlobal_env_uncache ::
  "JNIEnv \<Rightarrow> S3JniGlobalType \<Rightarrow> (int \<times> S3JniGlobalType) option" where
  "S3JniGlobal_env_uncache e s =
     (case env_find (envRows s) e (envCache_aHead s) of
        None \<Rightarrow> None
      | Some row \<Rightarrow>
          if row = 0 then Some (0, s)
          else Some (1, env_set_free row (env_unlink row s)))"

text \<open>The exported \<^verbatim>\<open>uncacheJniEnv\<close>: the same under the cache's mutex.\<close>

definition uncacheJniEnv :: "JNIEnv \<Rightarrow> S3JniGlobalType \<Rightarrow> (bool \<times> S3JniGlobalType) option" where
  "uncacheJniEnv e s =
     (case S3JniGlobal_env_uncache e (upd_metrics (\<lambda>c. c\<lparr>nMutexEnv := nMutexEnv c + 1\<rparr>) s) of
        None \<Rightarrow> None
      | Some (rc, s1) \<Rightarrow> Some (rc \<noteq> 0, s1))"

text \<open>\<^verbatim>\<open>S3JniHook_unref\<close> on the member \<open>k\<close> of the record at \<open>ps\<close>.\<close>

definition S3JniHook_unref ::
  "jmethods \<Rightarrow> ptr \<Rightarrow> hookSlot \<Rightarrow> bool \<Rightarrow> S3JniGlobalType \<Rightarrow> S3JniGlobalType" where
  "S3JniHook_unref jm ps k doXDestroy s =
     (let s1 = (if doXDestroy \<and> jObj (hooks (dbRows s ps) k) \<noteq> 0
                then s3jni_call_xDestroy jm (jObj (hooks (dbRows s ps) k)) s
                else s);
          s2 = delete_global_ref (jObj (hooks (dbRows s1 ps) k)) s1
      in upd_db ps (\<lambda>r. r\<lparr>hooks := (hooks r)(k := S3JniHook_zero)\<rparr>) s2)"

text \<open>
  \<^verbatim>\<open>S3JniDb_alloc\<close>; \<open>m\<close> is the allocator's answer should the free-list be empty.
  \<open>db_link\<close> is its second half, which pushes the record on the used-list and stores
  the wrapper and the handle.
\<close>

definition db_link :: "ptr \<Rightarrow> sqlite3 \<Rightarrow> jobject \<Rightarrow> S3JniGlobalType \<Rightarrow> S3JniGlobalType" where
  "db_link rv db jDbObj s3 =
     (let s4 = upd_db rv (\<lambda>r. r\<lparr>pNext := perDb_aUsed s3\<rparr>) s3;
          s5 = s4\<lparr>perDb_aUsed := rv\<rparr>;
          s6 = (if pNext (dbRows s5 rv) \<noteq> 0
                then upd_db (pNext (dbRows s5 rv)) (\<lambda>r. r\<lparr>pPrev := rv\<rparr>) s5
                else s5);
          (g, s7) = new_global_ref jDbObj s6;
          s8 = upd_db rv (\<lambda>r. r\<lparr>jDb := g\<rparr>) s7
      in upd_db rv (\<lambda>r. r\<lparr>pDb := db\<rparr>) s8)"

definition S3JniDb_alloc ::
  "ptr \<Rightarrow> sqlite3 \<Rightarrow> jobject \<Rightarrow> S3JniGlobalType \<Rightarrow> fault + ptr \<times> S3JniGlobalType" where
  "S3JniDb_alloc m db jDbObj s =
     (let s0 = upd_metrics (\<lambda>c. c\<lparr>nMutexPerDb := nMutexPerDb c + 1\<rparr>) s;
          got =
            (if perDb_aFree s0 \<noteq> 0 then
               (let rv = perDb_aFree s0;
                    s1 = s0\<lparr>perDb_aFree := pNext (dbRows s0 rv)\<rparr>;
                    s2 = (if pNext (dbRows s1 rv) \<noteq> 0
                          then upd_db rv (\<lambda>r. r\<lparr>pNext := 0\<rparr>)
                                 (upd_db (pNext (dbRows s1 rv)) (\<lambda>r. r\<lparr>pPrev := 0\<rparr>) s1)
                          else s1)
                in Inr (rv, upd_metrics (\<lambda>c. c\<lparr>nPdbRecycled := nPdbRecycled c + 1\<rparr>) s2))
             else
               (case s3jni_malloc m of
                  Inl f \<Rightarrow> Inl f
                | Inr rv \<Rightarrow>
                    if rv \<noteq> 0
                    then Inr (rv, upd_metrics (\<lambda>c. c\<lparr>nPdbAlloc := nPdbAlloc c + 1\<rparr>)
                                    (upd_db rv (\<lambda>r. S3JniDb_zero) s0))
                    else Inr (rv, s0)))
      in case got of
           Inl f \<Rightarrow> Inl f
         | Inr (rv, s3) \<Rightarrow>
             if rv \<noteq> 0 then Inr (rv, db_link rv db jDbObj s3)
             else Inr (rv, s3))"

text \<open>
  The loop of \<^verbatim>\<open>S3JniDb_for_db\<close>.  It is not entered for a null handle, which leaves
  the list head as the result.
\<close>

partial_function (option) db_find :: "(ptr \<Rightarrow> S3JniDb) \<Rightarrow> sqlite3 \<Rightarrow> ptr \<Rightarrow> ptr option" where
  "db_find mem db p =
     (if db \<noteq> 0 \<and> p \<noteq> 0 then
        (if pDb (mem p) = db then Some p else db_find mem db (pNext (mem p)))
      else Some p)"

definition S3JniDb_for_db ::
  "jobject \<Rightarrow> sqlite3 \<Rightarrow> S3JniGlobalType \<Rightarrow> (ptr \<times> S3JniGlobalType) option" where
  "S3JniDb_for_db jDbObj db s =
     (if jDbObj \<noteq> 0 \<or> db \<noteq> 0 then
        (let s0 = upd_metrics (\<lambda>c. c\<lparr>nMutexPerDb := nMutexPerDb c + 1\<rparr>) s;
             (db1, s1) = (if db = 0 then NativePointerHolder_get jDbObj Nph_sqlite3 s0
                          else (db, s0))
         in case db_find (dbRows s1) db1 (perDb_aUsed s1) of
              None \<Rightarrow> None
            | Some p \<Rightarrow> Some (p, s1))
      else Some (0, s))"

text \<open>
  \<^verbatim>\<open>S3JniDb_set_aside\<close> in its parts: the statements that take the record out of the
  used-list (\<open>db_unlink\<close>), the release of what the record owns (\<open>db_clear\<close>), and
  the statements that zero it and push it on the free-list (\<open>db_set_free\<close>).
\<close>

definition db_unlink :: "ptr \<Rightarrow> S3JniGlobalType \<Rightarrow> S3JniGlobalType" where
  "db_unlink p s =
     (let s1 = (if pNext (dbRows s p) \<noteq> 0
                then upd_db (pNext (dbRows s p)) (\<lambda>r. r\<lparr>pPrev := pPrev (dbRows s p)\<rparr>) s
                else s)
      in if pPrev (dbRows s1 p) \<noteq> 0
         then upd_db (pPrev (dbRows s1 p)) (\<lambda>r. r\<lparr>pNext := pNext (dbRows s1 p)\<rparr>) s1
         else if perDb_aUsed s1 = p
         then s1\<lparr>perDb_aUsed := pNext (dbRows s1 p)\<rparr>
         else s1)"

definition db_clear :: "jmethods \<Rightarrow> ptr \<Rightarrow> S3JniGlobalType \<Rightarrow> S3JniGlobalType" where
  "db_clear jm p s =
     (let h1 = S3JniHook_unref jm p trace False s;
          h2 = S3JniHook_unref jm p progress False h1;
          h3 = S3JniHook_unref jm p commit False h2;
          h4 = S3JniHook_unref jm p rollback False h3;
          h5 = S3JniHook_unref jm p update False h4;
          h6 = S3JniHook_unref jm p auth False h5;
          h7 = S3JniHook_unref jm p preUpdate False h6;
          h8 = S3JniHook_unref jm p collation True h7;
          h9 = S3JniHook_unref jm p collationNeeded True h8;
          h10 = S3JniHook_unref jm p busyHandler True h9
      in delete_global_ref (jDb (dbRows h10 p)) h10)"

definition db_set_free :: "ptr \<Rightarrow> S3JniGlobalType \<Rightarrow> S3JniGlobalType" where
  "db_set_free p s =
     (let s4 = upd_db p (\<lambda>r. S3JniDb_zero) s;
          s5 = upd_db p (\<lambda>r. r\<lparr>pNext := perDb_aFree s4\<rparr>) s4;
          s6 = (if pNext (dbRows s5 p) \<noteq> 0
                then upd_db (pNext (dbRows s5 p)) (\<lambda>r. r\<lparr>pPrev := p\<rparr>) s5
                else s5)
      in s6\<lparr>perDb_aFree := p\<rparr>)"

definition S3JniDb_set_aside :: "jmethods \<Rightarrow> ptr \<Rightarrow> S3JniGlobalType \<Rightarrow> S3JniGlobalType" where
  "S3JniDb_set_aside jm p s =
     (if p \<noteq> 0 then
        db_set_free p (db_clear jm p (db_unlink p
          (upd_metrics (\<lambda>c. c\<lparr>nMutexPerDb := nMutexPerDb c + 1\<rparr>) s)))
      else s)"

section \<open>User-defined functions\<close>

definition encodingTypeIsValid :: "int \<Rightarrow> bool" where
  "encodingTypeIsValid eTextRep =
     (eTextRep = SQLITE_UTF8 \<or> eTextRep = SQLITE_UTF16
      \<or> eTextRep = SQLITE_UTF16LE \<or> eTextRep = SQLITE_UTF16BE)"

definition zFSI :: string where
  "zFSI = ''(Lorg/sqlite/jni/sqlite3_context;[Lorg/sqlite/jni/sqlite3_value;)V''"

definition zFV :: string where
  "zFV = ''(Lorg/sqlite/jni/sqlite3_context;)V''"

text \<open>The macro \<^verbatim>\<open>FGET\<close>: a lookup that clears the exception of a missing method.\<close>

definition FGET ::
  "jmethods \<Rightarrow> jobject \<Rightarrow> string \<Rightarrow> string \<Rightarrow> S3JniGlobalType \<Rightarrow> jmethodID \<times> S3JniGlobalType" where
  "FGET jm obj name sig s =
     (let (m, s1) = GetMethodID jm obj name sig s in
      if m = 0 then (m, ExceptionClear s1) else (m, s1))"

text \<open>
  \<^verbatim>\<open>S3JniUdf_alloc\<close>: \<open>mem\<close> says whether \<^verbatim>\<open>sqlite3_malloc\<close> delivered the
  descriptor; without it the result is \<^verbatim>\<open>NULL\<close> and nothing else happens.
\<close>

definition S3JniUdf_alloc ::
  "jmethods \<Rightarrow> bool \<Rightarrow> jobject \<Rightarrow> S3JniGlobalType \<Rightarrow> S3JniUdf option \<times> S3JniGlobalType" where
  "S3JniUdf_alloc jm mem obj s =
     (if mem then
        (let (g, s1) = new_global_ref obj s;
             (xFunc, s2) = FGET jm obj ''xFunc'' zFSI s1;
             (xStep, s3) = FGET jm obj ''xStep'' zFSI s2;
             (xFinal, s4) = FGET jm obj ''xFinal'' zFV s3;
             (xValue, s5) = FGET jm obj ''xValue'' zFV s4;
             (xInverse, s6) = FGET jm obj ''xInverse'' zFSI s5;
             t = (if xFunc \<noteq> 0 then UDF_SCALAR
                  else if xStep \<noteq> 0 \<and> xFinal \<noteq> 0 then
                    (if xValue \<noteq> 0 then UDF_WINDOW else UDF_AGGREGATE)
                  else UDF_UNKNOWN_TYPE)
         in (Some \<lparr>udf_jObj = g, zFuncName = None, udf_type = t,
                    jmidxFunc = xFunc, jmidxStep = xStep, jmidxFinal = xFinal,
                    jmidxValue = xValue, jmidxInverse = xInverse\<rparr>, s6))
      else (None, s))"

definition S3JniUdf_free :: "jmethods \<Rightarrow> S3JniUdf \<Rightarrow> S3JniGlobalType \<Rightarrow> S3JniGlobalType" where
  "S3JniUdf_free jm u s = delete_global_ref (udf_jObj u) (s3jni_call_xDestroy jm (udf_jObj u) s)"

text \<open>
  The binding of \<^verbatim>\<open>sqlite3_create_function\<close>.  \<open>zName\<close> is what
  \<^verbatim>\<open>s3jni_jstring_to_utf8\<close> makes of the function name (\<open>None\<close> when the
  conversion fails), \<open>rcNative\<close> the result of the engine's registration call.
\<close>

definition create_function ::
  "jmethods \<Rightarrow> bool \<Rightarrow> string option \<Rightarrow> int \<Rightarrow>
   jobject \<Rightarrow> int \<Rightarrow> int \<Rightarrow> jobject \<Rightarrow> S3JniGlobalType \<Rightarrow> int \<times> S3JniGlobalType" where
  "create_function jm mem zName rcNative jDbObj nArg eTextRep jFunctor s =
     (let (db, s0) = NativePointerHolder_get jDbObj Nph_sqlite3 s in
      if \<not> encodingTypeIsValid eTextRep then
        s3jni_db_error db SQLITE_FORMAT (Some ''Invalid function encoding option.'') s0
      else
        (case S3JniUdf_alloc jm mem jFunctor s0 of
           (None, s1) \<Rightarrow> (SQLITE_NOMEM, s1)
         | (Some u, s1) \<Rightarrow>
             if udf_type u = UDF_UNKNOWN_TYPE then
               (let (rc, s2) = s3jni_db_error db SQLITE_MISUSE
                                 (Some ''Cannot unambiguously determine function type.'') s1
                in (rc, S3JniUdf_free jm u s2))
             else
               (case zName of
                  None \<Rightarrow> (SQLITE_NOMEM, S3JniUdf_free jm u s1)
                | Some z \<Rightarrow>
                    (rcNative,
                     emit (Native_create_function db z nArg eTextRep (udf_type u)) s1))))"

text \<open>Whether the log holds a registration of a function with the engine.\<close>

fun is_create_function :: "event \<Rightarrow> bool" where
  "is_create_function (Native_create_function db z n e t) = True"
| "is_create_function ev = False"

definition registers_function :: "S3JniGlobalType \<Rightarrow> S3JniGlobalType \<Rightarrow> bool" where
  "registers_function s s' = (list_ex is_create_function (drop (length (events s)) (events s')))"


section \<open>The state after static initialisation\<close>

text \<open>\<^verbatim>\<open>memset(&S3JniGlobal, 0, sizeof(S3JniGlobal))\<close>, with no managed object wrapped yet.\<close>

definition S3JniGlobal_init :: S3JniGlobalType where
  "S3JniGlobal_init = \<lparr>envCache_aHead = 0, envCache_aFree = 0, envRows = (\<lambda>p. S3JniEnv_zero),
     perDb_aUsed = 0, perDb_aFree = 0, dbRows = (\<lambda>p. S3JniDb_zero),
     autoExt_pExt = [], autoExt_nAlloc = 0, autoExt_nExt = 0, once = 0,
     metrics = S3JniMetrics_zero, nph = (\<lambda>r. S3JniNphClass_zero),
     nativePointer = (\<lambda>obj. 0), outputValue = (\<lambda>obj. 0),
     pending = None, events = []\<rparr>"

text \<open>A managed class without any of the methods the bridge looks up.\<close>

definition no_methods :: jmethods where
  "no_methods obj name sig = 0"

section \<open>Auto-extensions\<close>

definition upd_ext ::
  "nat \<Rightarrow> (S3JniAutoExtension \<Rightarrow> S3JniAutoExtension) \<Rightarrow> S3JniGlobalType \<Rightarrow> S3JniGlobalType" where
  "upd_ext i f s = s\<lparr>autoExt_pExt := (autoExt_pExt s)[i := f (autoExt_pExt s ! i)]\<rparr>"

text \<open>\<^verbatim>\<open>S3JniAutoExtension_clear\<close> and \<^verbatim>\<open>S3JniAutoExtension_init\<close> on \<^verbatim>\<open>&pExt[i]\<close>.\<close>

definition S3JniAutoExtension_clear :: "nat \<Rightarrow> S3JniGlobalType \<Rightarrow> S3JniGlobalType" where
  "S3JniAutoExtension_clear i s =
     (if ax_jObj (autoExt_pExt s ! i) \<noteq> 0
      then upd_ext i (\<lambda>a. S3JniAutoExtension_zero)
             (delete_global_ref (ax_jObj (autoExt_pExt s ! i)) s)
      else s)"

definition S3JniAutoExtension_init ::
  "jmethods \<Rightarrow> nat \<Rightarrow> jobject \<Rightarrow> S3JniGlobalType \<Rightarrow> int \<times> S3JniGlobalType" where
  "S3JniAutoExtension_init jm i jAutoExt s =
     (let (m, s1) = GetMethodID jm jAutoExt ''xEntryPoint'' ''(Lorg/sqlite/jni/sqlite3;)I'' s;
          s2 = upd_ext i (\<lambda>a. a\<lparr>midFunc := m\<rparr>) s1;
          s3 = (if pending s2 \<noteq> None then ExceptionClear s2 else s2)
      in if midFunc (autoExt_pExt s3 ! i) = 0
         then (SQLITE_ERROR, S3JniAutoExtension_clear i s3)
         else (let (g, s4) = new_global_ref jAutoExt s3
               in (0, upd_ext i (\<lambda>a. a\<lparr>ax_jObj := g\<rparr>) s4)))"

text \<open>The duplicate search of \<^verbatim>\<open>sqlite3_auto_extension\<close>'s binding over the active entries.\<close>

primrec autoExt_has :: "S3JniAutoExtension list \<Rightarrow> jobject \<Rightarrow> bool" where
  "autoExt_has [] obj = False"
| "autoExt_has (a # as) obj =
     (if ax_jObj a \<noteq> 0 \<and> ax_jObj a = obj then True else autoExt_has as obj)"

text \<open>
  The binding of \<^verbatim>\<open>sqlite3_auto_extension\<close>.  \<open>grown\<close> is the outcome of
  \<^verbatim>\<open>sqlite3_realloc\<close> when the array is full: \<open>None\<close> for failure, else the
  uninitialised content of the added slot.  \<open>rcNative\<close> is the result of installing
  the proxy with the engine, which happens on the first registration only.
\<close>

definition auto_extension ::
  "jmethods \<Rightarrow> S3JniAutoExtension option \<Rightarrow> int \<Rightarrow> jobject \<Rightarrow> S3JniGlobalType
   \<Rightarrow> int \<times> S3JniGlobalType" where
  "auto_extension jm grown rcNative jAutoExt s =
     (if jAutoExt = 0 then (SQLITE_MISUSE, s)
      else
        (let s0 = upd_metrics (\<lambda>c. c\<lparr>nMutexAutoExt := nMutexAutoExt c + 1\<rparr>) s in
         if autoExt_has (take (autoExt_nExt s0) (autoExt_pExt s0)) jAutoExt then (0, s0)
         else
           (let (rc1, s1) =
                  (if autoExt_nExt s0 = autoExt_nAlloc s0 then
                     (case grown of
                        None \<Rightarrow> (SQLITE_NOMEM, s0)
                      | Some junk \<Rightarrow>
                          (0, s0\<lparr>autoExt_pExt := autoExt_pExt s0 @ [junk],
                                 autoExt_nAlloc := autoExt_nAlloc s0 + 1\<rparr>))
                   else (0, s0));
                (rc2, s2) =
                  (if rc1 = 0 then S3JniAutoExtension_init jm (autoExt_nExt s1) jAutoExt s1
                   else (rc1, s1))
            in if rc2 = 0 then
                 (let (rc3, s3) =
                        (if once s2 = 0 then
                           (let s2a = emit Native_auto_extension (s2\<lparr>once := once s2 + 1\<rparr>)
                            in if rcNative \<noteq> 0
                               then (rcNative, S3JniAutoExtension_clear (autoExt_nExt s2a) s2a)
                               else (rcNative, s2a))
                         else (rc2, s2))
                  in if rc3 = 0 then (rc3, s3\<lparr>autoExt_nExt := autoExt_nExt s3 + 1\<rparr>)
                     else (rc3, s3))
               else (rc2, s2))))"

text \<open>
  The loop of \<^verbatim>\<open>sqlite3_cancel_auto_extension\<close>'s binding; \<open>cancel_scan (Suc i)\<close>
  looks at index \<open>i\<close> and goes on downwards.
\<close>

fun cancel_scan :: "nat \<Rightarrow> jobject \<Rightarrow> S3JniGlobalType \<Rightarrow> bool \<times> S3JniGlobalType" where
  "cancel_scan 0 jAutoExt s = (False, s)"
| "cancel_scan (Suc i) jAutoExt s =
     (if ax_jObj (autoExt_pExt s ! i) \<noteq> 0 \<and> ax_jObj (autoExt_pExt s ! i) = jAutoExt then
        (let s1 = S3JniAutoExtension_clear i s;
             s2 = s1\<lparr>autoExt_nExt := autoExt_nExt s1 - 1\<rparr>;
             s3 = upd_ext i (\<lambda>a. autoExt_pExt s2 ! autoExt_nExt s2) s2;
             s4 = upd_ext (autoExt_nExt s3) (\<lambda>a. S3JniAutoExtension_zero) s3
         in (True, s4))
      else cancel_scan i jAutoExt s)"

definition cancel_auto_extension :: "jobject \<Rightarrow> S3JniGlobalType \<Rightarrow> bool \<times> S3JniGlobalType" where
  "cancel_auto_extension jAutoExt s =
     cancel_scan (autoExt_nExt s) jAutoExt
       (upd_metrics (\<lambda>c. c\<lparr>nMutexAutoExt := nMutexAutoExt c + 1\<rparr>) s)"

text \<open>
  The loop of \<^verbatim>\<open>s3jni_run_java_auto_extensions\<close> from index \<open>i\<close> on.  \<open>cb i\<close> is the
  outcome of the call made for index \<open>i\<close>; managed code is taken not to re-enter the
  bridge.  The result is the result code, the message stored through \<^verbatim>\<open>pzErr\<close> (if
  any) and the state.
\<close>

function ext_loop ::
  "(nat \<Rightarrow> jcall) \<Rightarrow> jobject \<Rightarrow> nat \<Rightarrow> S3JniGlobalType \<Rightarrow> int \<times> string option \<times> S3JniGlobalType" where
  "ext_loop cb jDbObj i s =
     (if i \<ge> autoExt_nExt s
      then (0, None, upd_metrics (\<lambda>c. c\<lparr>nMutexAutoExt := nMutexAutoExt c + 1\<rparr>) s)
      else
        (let s1 = upd_metrics (\<lambda>c. c\<lparr>nMutexAutoExt := nMutexAutoExt c + 1\<rparr>) s;
             ax = autoExt_pExt s1 ! i
         in if ax_jObj ax \<noteq> 0 then
              (let s2 = (emit (CallIntMethod (ax_jObj ax) (midFunc ax) [jDbObj]) s1)
                          \<lparr>pending := call_threw (cb i)\<rparr>
               in case pending s2 of
                    Some msg \<Rightarrow>
                      (if call_rv (cb i) = 0 then SQLITE_ERROR else call_rv (cb i),
                       Some (''auto-extension threw: '' @ msg), ExceptionClear s2)
                  | None \<Rightarrow>
                      if call_rv (cb i) \<noteq> 0 then (call_rv (cb i), None, s2)
                      else ext_loop cb jDbObj (i + 1) s2)
            else ext_loop cb jDbObj (i + 1) s1))"
  by pat_completeness auto
termination
  by (relation "measure (\<lambda>(cb, jDbObj, i, s). autoExt_nExt s - i)")
     (auto simp: upd_metrics_def emit_def)

declare ext_loop.simps [simp del]

text \<open>
  \<^verbatim>\<open>s3jni_run_java_auto_extensions\<close>, the proxy the engine calls for the connection
  \<open>db\<close> it is opening, on the thread \<open>e\<close>; \<open>m\<close> is the allocator's answer should the
  thread need a new cache row.
\<close>

definition s3jni_run_java_auto_extensions ::
  "ptr \<Rightarrow> JNIEnv \<Rightarrow> (nat \<Rightarrow> jcall) \<Rightarrow> sqlite3 \<Rightarrow> S3JniGlobalType
   \<Rightarrow> (fault + int \<times> string option \<times> S3JniGlobalType) option" where
  "s3jni_run_java_auto_extensions m e cb db s =
     (if autoExt_nExt s = 0 then Some (Inr (0, None, s))
      else
        (case S3JniGlobal_env_cache m e s of
           None \<Rightarrow> None
         | Some (Inl f) \<Rightarrow> Some (Inl f)
         | Some (Inr (jc, s1)) \<Rightarrow>
             (let ps = pdbOpening (envRows s1 jc) in
              if ps = 0 then
                Some (Inr (SQLITE_ERROR,
                  Some ''Unexpected arrival of null S3JniDb in auto-extension runner.'', s1))
              else
                (let s2 = upd_env jc (\<lambda>r. r\<lparr>pdbOpening := 0\<rparr>) s1;
                     s3 = upd_db ps (\<lambda>r. r\<lparr>pDb := db\<rparr>) s2;
                     s4 = NativePointerHolder_set (jDb (dbRows s3 ps)) db Nph_sqlite3 s3
                 in Some (Inr (ext_loop cb (jDb (dbRows s4 ps)) 0 s4))))))"

section \<open>Hook registration\<close>

text \<open>
  Every binding below starts with \<^verbatim>\<open>S3JniDb_for_db(env, jDb, 0)\<close>; \<open>with_db\<close> is
  that call followed by the rest of the function.
\<close>

definition with_db ::
  "jobject \<Rightarrow> S3JniGlobalType \<Rightarrow> (ptr \<Rightarrow> S3JniGlobalType \<Rightarrow> 'a) \<Rightarrow> 'a option" where
  "with_db jDbObj s body =
     (case S3JniDb_for_db jDbObj 0 s of None \<Rightarrow> None | Some (ps, s0) \<Rightarrow> Some (body ps s0))"

definition set_jObj :: "ptr \<Rightarrow> hookSlot \<Rightarrow> jobject \<Rightarrow> S3JniGlobalType \<Rightarrow> S3JniGlobalType" where
  "set_jObj ps k v s = upd_db ps (\<lambda>r. r\<lparr>hooks := (hooks r)(k := (hooks r k)\<lparr>jObj := v\<rparr>)\<rparr>) s"

definition set_midCallback ::
  "ptr \<Rightarrow> hookSlot \<Rightarrow> jmethodID \<Rightarrow> S3JniGlobalType \<Rightarrow> S3JniGlobalType" where
  "set_midCallback ps k v s =
     upd_db ps (\<lambda>r. r\<lparr>hooks := (hooks r)(k := (hooks r k)\<lparr>midCallback := v\<rparr>)\<rparr>) s"

definition clear_hook :: "ptr \<Rightarrow> hookSlot \<Rightarrow> S3JniGlobalType \<Rightarrow> S3JniGlobalType" where
  "clear_hook ps k s = upd_db ps (\<lambda>r. r\<lparr>hooks := (hooks r)(k := S3JniHook_zero)\<rparr>) s"

text \<open>
  \<^verbatim>\<open>s3jni_db_exception\<close>: the pending exception becomes the connection's error; its
  text stands for what \<^verbatim>\<open>s3jni_exception_error_msg\<close> extracts.
\<close>

definition s3jni_db_exception ::
  "ptr \<Rightarrow> int \<Rightarrow> S3JniGlobalType \<Rightarrow> int \<times> S3JniGlobalType" where
  "s3jni_db_exception ps errCode s =
     (let code = (if errCode = 0 then SQLITE_ERROR else errCode) in
      case pending s of
        None \<Rightarrow> (code, s)
      | Some msg \<Rightarrow>
          (code, snd (s3jni_db_error (pDb (dbRows s ps)) code (Some msg) (ExceptionClear s))))"

definition busy_handler ::
  "jmethods \<Rightarrow> int \<Rightarrow> jobject \<Rightarrow> jobject \<Rightarrow> S3JniGlobalType \<Rightarrow> (int \<times> S3JniGlobalType) option" where
  "busy_handler jm rcNative jDbObj jBusy s =
     with_db jDbObj s (\<lambda>ps s0.
       if ps = 0 then (SQLITE_NOMEM, s0)
       else if jBusy \<noteq> 0 then
         (if jObj (hooks (dbRows s0 ps) busyHandler) \<noteq> 0
             \<and> jObj (hooks (dbRows s0 ps) busyHandler) = jBusy
          then (0, s0)
          else
            (let s1 = S3JniHook_unref jm ps busyHandler True s0;
                 (g, s2) = new_global_ref jBusy s1;
                 s3 = set_jObj ps busyHandler g s2;
                 (m, s4) = GetMethodID jm jBusy ''xCallback'' ''(I)I'' s3;
                 s5 = set_midCallback ps busyHandler m s4
             in if pending s5 \<noteq> None
                then (SQLITE_ERROR, S3JniHook_unref jm ps busyHandler False s5)
                else (rcNative, emit (Native_busy_handler (pDb (dbRows s5 ps)) ps) s5)))
       else
         (let s1 = S3JniHook_unref jm ps busyHandler True s0
          in (rcNative, emit (Native_busy_handler (pDb (dbRows s1 ps)) 0) s1)))"

definition busy_timeout ::
  "jmethods \<Rightarrow> int \<Rightarrow> jobject \<Rightarrow> int \<Rightarrow> S3JniGlobalType \<Rightarrow> (int \<times> S3JniGlobalType) option" where
  "busy_timeout jm rcNative jDbObj ms s =
     with_db jDbObj s (\<lambda>ps s0.
       if ps \<noteq> 0 then
         (let s1 = S3JniHook_unref jm ps busyHandler True s0
          in (rcNative, emit (Native_busy_timeout (pDb (dbRows s1 ps)) ms) s1))
       else (SQLITE_MISUSE, s0))"

definition collation_needed ::
  "jmethods \<Rightarrow> int \<Rightarrow> jobject \<Rightarrow> jobject \<Rightarrow> S3JniGlobalType \<Rightarrow> (int \<times> S3JniGlobalType) option" where
  "collation_needed jm rcNative jDbObj jHook s =
     with_db jDbObj s (\<lambda>ps s0.
       if ps = 0 then (SQLITE_MISUSE, s0)
       else
         (let pOld = jObj (hooks (dbRows s0 ps) collationNeeded) in
          if pOld \<noteq> 0 \<and> jHook \<noteq> 0 \<and> pOld = jHook then (0, s0)
          else if jHook = 0 then
            (let s1 = clear_hook ps collationNeeded (delete_global_ref pOld s0)
             in (0, emit (Native_collation_needed (pDb (dbRows s1 ps)) 0) s1))
          else
            (let (x, s1) = GetMethodID jm jHook ''xCollationNeeded''
                             ''(Lorg/sqlite/jni/sqlite3;ILjava/lang/String;)I'' s0
             in if pending s1 \<noteq> None then s3jni_db_exception ps SQLITE_MISUSE s1
                else
                  (let s2 = set_midCallback ps collationNeeded x s1;
                       (g, s3) = new_global_ref jHook s2;
                       s4 = delete_global_ref pOld (set_jObj ps collationNeeded g s3)
                   in (rcNative, emit (Native_collation_needed (pDb (dbRows s4 ps)) ps) s4)))))"

text \<open>
  \<^verbatim>\<open>s3jni_commit_rollback_hook\<close>, behind \<^verbatim>\<open>sqlite3_commit_hook\<close> and
  \<^verbatim>\<open>sqlite3_rollback_hook\<close>; the result is the object returned to the caller.
  Without a record the function reads \<^verbatim>\<open>ps->pDb\<close> through a null pointer.
\<close>

definition s3jni_commit_rollback_hook ::
  "jmethods \<Rightarrow> bool \<Rightarrow> jobject \<Rightarrow> jobject \<Rightarrow> S3JniGlobalType
   \<Rightarrow> (fault + jobject \<times> S3JniGlobalType) option" where
  "s3jni_commit_rollback_hook jm isCommit jDbObj jHook s =
     with_db jDbObj s (\<lambda>ps s0.
       let k = (if isCommit then commit else rollback) in
       if ps = 0 then Inl NullDeref
       else
         (let pOld = jObj (hooks (dbRows s0 ps) k) in
          if pOld \<noteq> 0 \<and> jHook \<noteq> 0 \<and> pOld = jHook then Inr (pOld, s0)
          else if jHook = 0 then
            (let s1 = clear_hook ps k (if pOld \<noteq> 0 then delete_global_ref pOld s0 else s0)
             in Inr (pOld,
                  emit (if isCommit then Native_commit_hook (pDb (dbRows s1 ps)) 0
                        else Native_rollback_hook (pDb (dbRows s1 ps)) 0) s1))
          else
            (let (x, s1) = GetMethodID jm jHook
                             (if isCommit then ''xCommitHook'' else ''xRollbackHook'')
                             (if isCommit then ''()I'' else ''()V'') s0
             in if pending s1 \<noteq> None then
                  Inr (pOld, snd (s3jni_db_error (pDb (dbRows s1 ps)) SQLITE_ERROR
                         (Some ''Cannot not find matching callback on hook object.'')
                         (ExceptionClear s1)))
                else
                  (let s2 = set_midCallback ps k x s1;
                       (g, s3) = new_global_ref jHook s2;
                       s4 = set_jObj ps k g s3;
                       s5 = emit (if isCommit then Native_commit_hook (pDb (dbRows s4 ps)) ps
                                  else Native_rollback_hook (pDb (dbRows s4 ps)) ps) s4
                   in Inr (pOld, if pOld \<noteq> 0 then delete_global_ref pOld s5 else s5)))))"

definition commit_hook ::
  "jmethods \<Rightarrow> jobject \<Rightarrow> jobject \<Rightarrow> S3JniGlobalType \<Rightarrow> (fault + jobject \<times> S3JniGlobalType) option" where
  "commit_hook jm jDbObj jHook s = s3jni_commit_rollback_hook jm True jDbObj jHook s"

definition rollback_hook ::
  "jmethods \<Rightarrow> jobject \<Rightarrow> jobject \<Rightarrow> S3JniGlobalType \<Rightarrow> (fault + jobject \<times> S3JniGlobalType) option" where
  "rollback_hook jm jDbObj jHook s = s3jni_commit_rollback_hook jm False jDbObj jHook s"

text \<open>\<^verbatim>\<open>s3jni_updatepre_hook\<close>, behind \<^verbatim>\<open>sqlite3_update_hook\<close> and \<^verbatim>\<open>sqlite3_preupdate_hook\<close>.\<close>

definition s3jni_updatepre_hook ::
  "jmethods \<Rightarrow> bool \<Rightarrow> jobject \<Rightarrow> jobject \<Rightarrow> S3JniGlobalType
   \<Rightarrow> (jobject \<times> S3JniGlobalType) option" where
  "s3jni_updatepre_hook jm isPre jDbObj jHook s =
     with_db jDbObj s (\<lambda>ps s0.
       let k = (if isPre then preUpdate else update) in
       if ps = 0 then (0, s0)
       else
         (let pOld = jObj (hooks (dbRows s0 ps) k) in
          if pOld \<noteq> 0 \<and> jHook \<noteq> 0 \<and> pOld = jHook then (pOld, s0)
          else if jHook = 0 then
            (let s1 = clear_hook ps k (if pOld \<noteq> 0 then delete_global_ref pOld s0 else s0)
             in (pOld,
                  emit (if isPre then Native_preupdate_hook (pDb (dbRows s1 ps)) 0
                        else Native_update_hook (pDb (dbRows s1 ps)) 0) s1))
          else
            (let (x, s1) =
                   (if isPre
                    then GetMethodID jm jHook ''xPreUpdate''
                           ''(Lorg/sqlite/jni/sqlite3;ILjava/lang/String;Ljava/lang/String;JJ)V'' s0
                    else GetMethodID jm jHook ''xUpdateHook''
                           ''(ILjava/lang/String;Ljava/lang/String;J)V'' s0)
             in if pending s1 \<noteq> None then
                  (pOld, snd (s3jni_db_error (pDb (dbRows s1 ps)) SQLITE_ERROR
                         (Some ''Cannot not find matching callback on (pre)update hook object.'')
                         (ExceptionClear s1)))
                else
                  (let s2 = set_midCallback ps k x s1;
                       (g, s3) = new_global_ref jHook s2;
                       s4 = set_jObj ps k g s3;
                       s5 = emit (if isPre then Native_preupdate_hook (pDb (dbRows s4 ps)) ps
                                  else Native_update_hook (pDb (dbRows s4 ps)) ps) s4
                   in (pOld, if pOld \<noteq> 0 then delete_global_ref pOld s5 else s5)))))"

definition update_hook ::
  "jmethods \<Rightarrow> jobject \<Rightarrow> jobject \<Rightarrow> S3JniGlobalType \<Rightarrow> (jobject \<times> S3JniGlobalType) option" where
  "update_hook jm jDbObj jHook s = s3jni_updatepre_hook jm False jDbObj jHook s"

definition preupdate_hook ::
  "jmethods \<Rightarrow> jobject \<Rightarrow> jobject \<Rightarrow> S3JniGlobalType \<Rightarrow> (jobject \<times> S3JniGlobalType) option" where
  "preupdate_hook jm jDbObj jHook s = s3jni_updatepre_hook jm True jDbObj jHook s"

text \<open>
  The binding of \<^verbatim>\<open>sqlite3_progress_handler\<close> (it returns nothing).  Without a
  record it reads \<^verbatim>\<open>ps->pDb\<close> through a null pointer on every path.
\<close>

definition progress_handler ::
  "jmethods \<Rightarrow> jobject \<Rightarrow> int \<Rightarrow> jobject \<Rightarrow> S3JniGlobalType \<Rightarrow> (fault + S3JniGlobalType) option" where
  "progress_handler jm jDbObj n jProgress s =
     with_db jDbObj s (\<lambda>ps s0.
       if n < 1 \<or> jProgress = 0 then
         (if ps \<noteq> 0 then
            (let s1 = clear_hook ps progress
                        (delete_global_ref (jObj (hooks (dbRows s0 ps) progress)) s0)
             in Inr (emit (Native_progress_handler (pDb (dbRows s1 ps)) 0 0) s1))
          else Inl NullDeref)
       else if ps = 0 then Inl NullDeref
       else
         (let (xCallback, s1) = GetMethodID jm jProgress ''xCallback'' ''()I'' s0 in
          if pending s1 \<noteq> None then
            Inr (snd (s3jni_db_error (pDb (dbRows s1 ps)) SQLITE_ERROR
                   (Some ''Cannot not find matching xCallback() on ProgressHandler object.'')
                   (ExceptionClear s1)))
          else
            (let s2 = delete_global_ref (jObj (hooks (dbRows s1 ps) progress)) s1;
                 s3 = set_midCallback ps progress xCallback s2;
                 (g, s4) = new_global_ref jProgress s3;
                 s5 = set_jObj ps progress g s4
             in Inr (emit (Native_progress_handler (pDb (dbRows s5 ps)) n ps) s5))))"

text \<open>The binding of \<^verbatim>\<open>sqlite3_trace_v2\<close>.\<close>

definition trace_v2 ::
  "jmethods \<Rightarrow> int \<Rightarrow> jobject \<Rightarrow> int \<Rightarrow> jobject \<Rightarrow> S3JniGlobalType
   \<Rightarrow> (fault + int \<times> S3JniGlobalType) option" where
  "trace_v2 jm rcNative jDbObj traceMask jTracer s =
     with_db jDbObj s (\<lambda>ps s0.
       if traceMask = 0 \<or> jTracer = 0 then
         (if ps \<noteq> 0 then
            (let s1 = S3JniHook_unref jm ps trace False s0
             in Inr (rcNative, emit (Native_trace_v2 (pDb (dbRows s1 ps)) 0 0) s1))
          else Inl NullDeref)
       else if ps = 0 then Inr (SQLITE_NOMEM, s0)
       else
         (let (m, s1) = GetMethodID jm jTracer ''xCallback''
                          ''(ILjava/lang/Object;Ljava/lang/Object;)I'' s0;
              s2 = set_midCallback ps trace m s1
          in if pending s2 \<noteq> None then
               Inr (s3jni_db_error (pDb (dbRows s2 ps)) SQLITE_ERROR
                      (Some ''Cannot not find matching xCallback() on Tracer object.'')
                      (ExceptionClear s2))
             else
               (let (g, s3) = new_global_ref jTracer s2;
                    s4 = set_jObj ps trace g s3
                in Inr (rcNative, emit (Native_trace_v2 (pDb (dbRows s4 ps)) traceMask ps) s4))))"

text \<open>The binding of \<^verbatim>\<open>sqlite3_set_authorizer\<close>.\<close>

definition set_authorizer ::
  "jmethods \<Rightarrow> int \<Rightarrow> jobject \<Rightarrow> jobject \<Rightarrow> S3JniGlobalType \<Rightarrow> (int \<times> S3JniGlobalType) option" where
  "set_authorizer jm rcNative jDbObj jHook s =
     with_db jDbObj s (\<lambda>ps s0.
       if ps = 0 then (SQLITE_MISUSE, s0)
       else if jHook = 0 then
         (let s1 = S3JniHook_unref jm ps auth False s0
          in (rcNative, emit (Native_set_authorizer (pDb (dbRows s1 ps)) 0) s1))
       else if jObj (hooks (dbRows s0 ps) auth) \<noteq> 0
               \<and> jObj (hooks (dbRows s0 ps) auth) = jHook then (0, s0)
       else
         (let s1 = (if jObj (hooks (dbRows s0 ps) auth) \<noteq> 0
                    then S3JniHook_unref jm ps auth False s0 else s0);
              (g, s2) = new_global_ref jHook s1;
              s3 = set_jObj ps auth g s2;
              (m, s4) = GetMethodID jm jHook ''xAuth''
                ''(ILjava/lang/String;Ljava/lang/String;Ljava/lang/String;Ljava/lang/String;)I'' s3;
              s5 = set_midCallback ps auth m s4
          in if pending s5 \<noteq> None then
               (let s6 = S3JniHook_unref jm ps auth False s5
                in s3jni_db_error (pDb (dbRows s6 ps)) SQLITE_ERROR
                     (Some ''Error setting up Java parts of authorizer hook.'') s6)
             else
               (let s6 = emit (Native_set_authorizer (pDb (dbRows s5 ps)) ps) s5
                in (rcNative, if rcNative \<noteq> 0 then S3JniHook_unref jm ps auth False s6 else s6))))"

section \<open>The collation comparison proxy\<close>


section \<open>Opening and closing a connection\<close>

text \<open>
  \<^verbatim>\<open>new_NativePointerHolder_object\<close>: \<open>newObj\<close> is the object the runtime creates,
  \<open>0\<close> when it cannot; \<^verbatim>\<open>s3jni_oom_check\<close> makes that fatal.  The constructor is
  looked up on first use.
\<close>

definition new_NativePointerHolder_object ::
  "jobject \<Rightarrow> S3NphRef \<Rightarrow> nat \<Rightarrow> S3JniGlobalType \<Rightarrow> fault + jobject \<times> S3JniGlobalType" where
  "new_NativePointerHolder_object newObj r pNative s =
     (let s1 = S3JniGlobal_nph_cache r s;
          s2 = (if midCtor (nph s1 r) = 0
                then upd_nph r (\<lambda>n. n\<lparr>midCtor := jvm_ctor r\<rparr>)
                       (upd_metrics (\<lambda>c. c\<lparr>nMutexEnv2 := nMutexEnv2 c + 1\<rparr>) s1)
                else s1)
      in if newObj = 0 then Inl (FatalError ''Out of memory.'')
         else Inr (newObj, NativePointerHolder_set newObj pNative r s2))"

definition OutputPointer_set_sqlite3 ::
  "jobject \<Rightarrow> jobject \<Rightarrow> S3JniGlobalType \<Rightarrow> S3JniGlobalType" where
  "OutputPointer_set_sqlite3 jOut v s =
     (let (fid, s1) = setupOutputPointer Nph_OutputPointer_sqlite3 s
      in s1\<lparr>outputValue := (outputValue s1)(jOut := v)\<rparr>)"

text \<open>
  \<^verbatim>\<open>s3jni_open_pre\<close> on thread \<open>e\<close>.  \<open>jDbName\<close> is the name argument and
  \<open>zConv\<close> what \<^verbatim>\<open>s3jni_jstring_to_utf8\<close> makes of it; \<open>mEnv\<close> and \<open>mDb\<close> are the
  allocator's answers for a cache row and a record.  The result holds the result code
  and the out-parameters \<^verbatim>\<open>*jc\<close>, \<^verbatim>\<open>*zDbName\<close> and \<^verbatim>\<open>*ps\<close>.
\<close>

definition s3jni_open_pre ::
  "ptr \<Rightarrow> JNIEnv \<Rightarrow> jobject \<Rightarrow> string option \<Rightarrow> jobject \<Rightarrow> ptr \<Rightarrow> S3JniGlobalType
   \<Rightarrow> (fault + int \<times> ptr \<times> string option \<times> ptr \<times> S3JniGlobalType) option" where
  "s3jni_open_pre mEnv e jDbName zConv newObj mDb s =
     (case S3JniGlobal_env_cache mEnv e s of
        None \<Rightarrow> None
      | Some (Inl f) \<Rightarrow> Some (Inl f)
      | Some (Inr (jc, s1)) \<Rightarrow>
          if jc = 0 then Some (Inr (SQLITE_NOMEM, jc, None, 0, s1))
          else
            (let zDbName = (if jDbName \<noteq> 0 then zConv else None) in
             if jDbName \<noteq> 0 \<and> zDbName = None then Some (Inr (SQLITE_NOMEM, jc, zDbName, 0, s1))
             else
               (case new_NativePointerHolder_object newObj Nph_sqlite3 0 s1 of
                  Inl f \<Rightarrow> Some (Inl f)
                | Inr (w, s2) \<Rightarrow>
                    if w = 0 then Some (Inr (SQLITE_NOMEM, jc, None, 0, s2))
                    else
                      (case S3JniDb_alloc mDb 0 w s2 of
                         Inl f \<Rightarrow> Some (Inl f)
                       | Inr (ps, s3) \<Rightarrow>
                           if ps \<noteq> 0
                           then Some (Inr (0, jc, zDbName, ps,
                                        upd_env jc (\<lambda>r. r\<lparr>pdbOpening := ps\<rparr>) s3))
                           else Some (Inr (SQLITE_NOMEM, jc, zDbName, ps, s3))))))"

definition s3jni_open_post ::
  "jmethods \<Rightarrow> ptr \<Rightarrow> ptr \<Rightarrow> sqlite3 \<Rightarrow> jobject \<Rightarrow> int \<Rightarrow> S3JniGlobalType
   \<Rightarrow> fault + int \<times> S3JniGlobalType" where
  "s3jni_open_post jm jc ps ppDb jOut theRc s =
     (if jc = 0 then Inl NullDeref
      else
        (let s1 = upd_env jc (\<lambda>r. r\<lparr>pdbOpening := 0\<rparr>) s in
         if ppDb \<noteq> 0 then
           (if ps = 0 then Inl NullDeref
            else
              (let s2 = (if pDb (dbRows s1 ps) = 0
                         then NativePointerHolder_set (jDb (dbRows s1 ps)) ppDb Nph_sqlite3
                                (upd_db ps (\<lambda>r. r\<lparr>pDb := ppDb\<rparr>) s1)
                         else s1)
               in Inr (theRc, OutputPointer_set_sqlite3 jOut (jDb (dbRows s2 ps)) s2)))
         else Inr (theRc, OutputPointer_set_sqlite3 jOut 0 (S3JniDb_set_aside jm ps s1))))"

text \<open>
  The engine's \<^verbatim>\<open>sqlite3_open\<close> and \<^verbatim>\<open>sqlite3_open_v2\<close>, which are not part of the
  bridge, as far as the bridge can observe them: \<open>eng_db\<close> is the connection the engine
  creates (\<open>0\<close> if it cannot); when \<open>eng_runs_ext\<close> holds the engine calls the
  auto-extension proxy for it, synchronously and on the opening thread, before it
  returns; \<open>eng_rc\<close> and \<open>eng_keeps\<close> give the result code and whether the handle is
  handed out, from the proxy's result (\<open>None\<close> when the proxy was not called).
\<close>

record engine_open =
  eng_db :: sqlite3
  eng_runs_ext :: bool
  eng_rc :: "int option \<Rightarrow> int"
  eng_keeps :: "int option \<Rightarrow> bool"

definition native_open ::
  "engine_open \<Rightarrow> ptr \<Rightarrow> JNIEnv \<Rightarrow> (nat \<Rightarrow> jcall) \<Rightarrow> S3JniGlobalType
   \<Rightarrow> (fault + int \<times> sqlite3 \<times> S3JniGlobalType) option" where
  "native_open eng m e cb s =
     (if eng_db eng \<noteq> 0 \<and> eng_runs_ext eng then
        (case s3jni_run_java_auto_extensions m e cb (eng_db eng) s of
           None \<Rightarrow> None
         | Some (Inl f) \<Rightarrow> Some (Inl f)
         | Some (Inr (rc, msg, s1)) \<Rightarrow>
             Some (Inr (eng_rc eng (Some rc),
                        if eng_keeps eng (Some rc) then eng_db eng else 0, s1)))
      else
        Some (Inr (eng_rc eng None,
                   if eng_db eng \<noteq> 0 \<and> eng_keeps eng None then eng_db eng else 0, s)))"

text \<open>The bindings of \<^verbatim>\<open>sqlite3_open\<close> and \<^verbatim>\<open>sqlite3_open_v2\<close>.\<close>

definition sqlite3_open ::
  "jmethods \<Rightarrow> engine_open \<Rightarrow> ptr \<Rightarrow> JNIEnv \<Rightarrow> (nat \<Rightarrow> jcall) \<Rightarrow> jobject \<Rightarrow> string option
   \<Rightarrow> jobject \<Rightarrow> ptr \<Rightarrow> jobject \<Rightarrow> S3JniGlobalType \<Rightarrow> (fault + int \<times> S3JniGlobalType) option" where
  "sqlite3_open jm eng mEnv e cb strName zConv newObj mDb jOut s =
     (case s3jni_open_pre mEnv e strName zConv newObj mDb s of
        None \<Rightarrow> None
      | Some (Inl f) \<Rightarrow> Some (Inl f)
      | Some (Inr (rc, jc, zName, ps, s1)) \<Rightarrow>
          if rc = 0 then
            (case native_open eng mEnv e cb s1 of
               None \<Rightarrow> None
             | Some (Inl f) \<Rightarrow> Some (Inl f)
             | Some (Inr (rcOpen, pOut, s2)) \<Rightarrow>
                 Some (s3jni_open_post jm jc ps pOut jOut rcOpen s2))
          else Some (Inr (rc, s1)))"

definition sqlite3_open_v2 ::
  "jmethods \<Rightarrow> engine_open \<Rightarrow> ptr \<Rightarrow> JNIEnv \<Rightarrow> (nat \<Rightarrow> jcall) \<Rightarrow> jobject \<Rightarrow> string option
   \<Rightarrow> jobject \<Rightarrow> ptr \<Rightarrow> jobject \<Rightarrow> jobject \<Rightarrow> string option \<Rightarrow> S3JniGlobalType
   \<Rightarrow> (fault + int \<times> S3JniGlobalType) option" where
  "sqlite3_open_v2 jm eng mEnv e cb strName zConv newObj mDb jOut strVfs zVfsConv s =
     (case s3jni_open_pre mEnv e strName zConv newObj mDb s of
        None \<Rightarrow> None
      | Some (Inl f) \<Rightarrow> Some (Inl f)
      | Some (Inr (rc0, jc, zName, ps, s1)) \<Rightarrow>
          (let rc1 = (if rc0 = 0 \<and> strVfs \<noteq> 0 \<and> zVfsConv = None then SQLITE_NOMEM else rc0) in
           if rc1 = 0 then
             (case native_open eng mEnv e cb s1 of
                None \<Rightarrow> None
              | Some (Inl f) \<Rightarrow> Some (Inl f)
              | Some (Inr (rcOpen, pOut, s2)) \<Rightarrow>
                  Some (s3jni_open_post jm jc ps pOut jOut rcOpen s2))
           else Some (s3jni_open_post jm jc ps 0 jOut rc1 s1)))"

text \<open>
  \<^verbatim>\<open>s3jni_close_db\<close>, behind \<^verbatim>\<open>sqlite3_close\<close> and \<^verbatim>\<open>sqlite3_close_v2\<close>;
  \<open>rcNative\<close> is the engine's answer.
\<close>

definition s3jni_close_db ::
  "jmethods \<Rightarrow> int \<Rightarrow> jobject \<Rightarrow> S3JniGlobalType \<Rightarrow> (int \<times> S3JniGlobalType) option" where
  "s3jni_close_db jm rcNative jDbObj s =
     with_db jDbObj s (\<lambda>ps s0.
       if ps \<noteq> 0 then
         (let s1 = emit (Native_close (pDb (dbRows s0 ps))) s0 in
          if rcNative = 0
          then (rcNative, NativePointerHolder_set jDbObj 0 Nph_sqlite3
                            (S3JniDb_set_aside jm ps s1))
          else (rcNative, s1))
       else (0, s0))"

section \<open>Well-formed lists\<close>

text \<open>
  \<open>dseg nx pv pr p xs q\<close>: following \<open>nx\<close> from \<open>p\<close> visits exactly the nodes
  \<open>xs\<close>, none of them null, and arrives at \<open>q\<close>; every node's \<open>pv\<close> link points to
  the node before it, the first one's to \<open>pr\<close>.  A list in the sense of the bridge
  starts with a null back link and ends at a null pointer.
\<close>

fun dseg :: "(ptr \<Rightarrow> ptr) \<Rightarrow> (ptr \<Rightarrow> ptr) \<Rightarrow> ptr \<Rightarrow> ptr \<Rightarrow> ptr list \<Rightarrow> ptr \<Rightarrow> bool" where
  "dseg nx pv pr p [] q = (p = q)"
| "dseg nx pv pr p (x # xs) q = (p = x \<and> x \<noteq> 0 \<and> pv x = pr \<and> dseg nx pv x (nx x) xs q)"

definition dll :: "(ptr \<Rightarrow> ptr) \<Rightarrow> (ptr \<Rightarrow> ptr) \<Rightarrow> ptr \<Rightarrow> ptr list \<Rightarrow> bool" where
  "dll nx pv h xs = dseg nx pv 0 h xs 0"

definition db_nx :: "S3JniGlobalType \<Rightarrow> ptr \<Rightarrow> ptr" where
  "db_nx s p = pNext (dbRows s p)"

definition db_pv :: "S3JniGlobalType \<Rightarrow> ptr \<Rightarrow> ptr" where
  "db_pv s p = pPrev (dbRows s p)"

definition env_nx :: "S3JniGlobalType \<Rightarrow> ptr \<Rightarrow> ptr" where
  "env_nx s p = row_pNext (envRows s p)"

definition env_pv :: "S3JniGlobalType \<Rightarrow> ptr \<Rightarrow> ptr" where
  "env_pv s p = row_pPrev (envRows s p)"

text \<open>The native handles stored in the records \<open>us\<close>, null ones left out.\<close>

definition handles :: "S3JniGlobalType \<Rightarrow> ptr list \<Rightarrow> sqlite3 list" where
  "handles s us = filter (\<lambda>d. d \<noteq> 0) (map (\<lambda>p. pDb (dbRows s p)) us)"

text \<open>
  The invariant of the per-connection registry: \<open>us\<close> is the used-list and \<open>fs\<close>
  the free-list, no record is on both or twice on one, and no native handle is stored
  in two records of the used-list.
\<close>

definition perDb_inv :: "S3JniGlobalType \<Rightarrow> ptr list \<Rightarrow> ptr list \<Rightarrow> bool" where
  "perDb_inv s us fs =
     (dll (db_nx s) (db_pv s) (perDb_aUsed s) us
      \<and> dll (db_nx s) (db_pv s) (perDb_aFree s) fs
      \<and> distinct (us @ fs)
      \<and> distinct (handles s us))"

text \<open>
  The invariant of the per-thread cache: the same shape, and no thread has two rows
  in the used-list.
\<close>

definition envCache_inv :: "S3JniGlobalType \<Rightarrow> ptr list \<Rightarrow> ptr list \<Rightarrow> bool" where
  "envCache_inv s us fs =
     (dll (env_nx s) (env_pv s) (envCache_aHead s) us
      \<and> dll (env_nx s) (env_pv s) (envCache_aFree s) fs
      \<and> distinct (us @ fs)
      \<and> distinct (map (\<lambda>p. env (envRows s p)) us))"

section \<open>Runs of cache operations\<close>

text \<open>
  An operation on the per-thread cache: \<open>Acquire m e\<close> is
  \<^verbatim>\<open>S3JniGlobal_env_cache\<close> on thread \<open>e\<close>, where \<open>m\<close> is the address the
  allocator would deliver; \<open>Uncache e\<close> is \<^verbatim>\<open>uncacheJniEnv\<close> on thread \<open>e\<close>.
\<close>

datatype cacheOp = Acquire ptr JNIEnv | Uncache JNIEnv

fun cache_step :: "cacheOp \<Rightarrow> S3JniGlobalType \<Rightarrow> (fault + S3JniGlobalType) option" where
  "cache_step (Acquire m e) s =
     (case S3JniGlobal_env_cache m e s of
        None \<Rightarrow> None
      | Some (Inl f) \<Rightarrow> Some (Inl f)
      | Some (Inr (row, s1)) \<Rightarrow> Some (Inr s1))"
| "cache_step (Uncache e) s =
     (case uncacheJniEnv e s of
        None \<Rightarrow> None
      | Some (found, s1) \<Rightarrow> Some (Inr s1))"

fun cache_run :: "cacheOp list \<Rightarrow> S3JniGlobalType \<Rightarrow> (fault + S3JniGlobalType) option" where
  "cache_run [] s = Some (Inr s)"
| "cache_run (x # xs) s =
     (case cache_step x s of
        None \<Rightarrow> None
      | Some (Inl f) \<Rightarrow> Some (Inl f)
      | Some (Inr s1) \<Rightarrow> cache_run xs s1)"

text \<open>The addresses the allocator has on offer during a run.\<close>

fun mallocs :: "cacheOp list \<Rightarrow> ptr list" where
  "mallocs [] = []"
| "mallocs (Acquire m e # xs) = m # mallocs xs"
| "mallocs (Uncache e # xs) = mallocs xs"

text \<open>The first node of a list that satisfies \<open>P\<close>, null if there is none.\<close>

definition first_with :: "(ptr \<Rightarrow> bool) \<Rightarrow> ptr list \<Rightarrow> ptr" where
  "first_with P xs = (case List.find P xs of None \<Rightarrow> 0 | Some r \<Rightarrow> r)"

section \<open>The auto-extension list as a value\<close>

text \<open>The active entries, in invocation order.\<close>

definition active :: "S3JniGlobalType \<Rightarrow> S3JniAutoExtension list" where
  "active s = take (autoExt_nExt s) (autoExt_pExt s)"

text \<open>
  What registration and cancellation maintain: the array has \<open>nAlloc\<close> slots of
  which the first \<open>nExt\<close> are active, and the active entries hold distinct, non-null
  callback objects.
\<close>

definition autoExt_inv :: "S3JniGlobalType \<Rightarrow> bool" where
  "autoExt_inv s =
     (autoExt_nAlloc s = length (autoExt_pExt s)
      \<and> autoExt_nExt s \<le> autoExt_nAlloc s
      \<and> distinct (map ax_jObj (active s))
      \<and> 0 \<notin> set (map ax_jObj (active s)))"

section \<open>An example registry\<close>

text \<open>
  A state with one open connection: the record at address \<open>10\<close> is the only one of
  the used-list, it belongs to the native handle \<open>50\<close> and the wrapper object \<open>20\<close>,
  and it has the managed objects \<open>30\<close> to \<open>35\<close> installed as busy handler, commit
  hook, update hook, tracer, progress handler and collation.  The class cache is
  filled, as the open has left it.
\<close>

definition one_db_state :: S3JniGlobalType where
  "one_db_state = S3JniGlobal_init\<lparr>perDb_aUsed := 10,
     dbRows := (\<lambda>p. S3JniDb_zero)(10 := S3JniDb_zero\<lparr>pDb := 50, jDb := 20,
       hooks := (\<lambda>k. S3JniHook_zero)(busyHandler := \<lparr>jObj = 30, midCallback = 1\<rparr>,
                  commit := \<lparr>jObj = 31, midCallback = 2\<rparr>,
                  update := \<lparr>jObj = 32, midCallback = 3\<rparr>,
                  trace := \<lparr>jObj = 33, midCallback = 4\<rparr>,
                  progress := \<lparr>jObj = 34, midCallback = 5\<rparr>,
                  collation := \<lparr>jObj = 35, midCallback = 6\<rparr>)\<rparr>),
     nph := (\<lambda>r. \<lparr>nph_pRef = True, klazz = jvm_class r, midCtor = jvm_ctor r,
                  fidValue = jvm_field r\<rparr>),
     nativePointer := (\<lambda>obj. 0)(20 := 50)\<rparr>"

text \<open>A managed class that has every method the bridge looks up, all with handle \<open>9\<close>.\<close>

definition all_methods :: jmethods where
  "all_methods obj name sig = 9"



section \<open>Properties of user-defined-function registration\<close>


lemma events_emit: "events (emit e s) = events s @ [e]"
  by (simp add: emit_def)

lemma FGET_fst [simp]: "fst (FGET jm obj name sig s) = jm obj name sig"
  by (simp add: FGET_def GetMethodID_def)

lemma FGET_events [simp]: "events (snd (FGET jm obj name sig s)) = events s"
  by (simp add: FGET_def GetMethodID_def ExceptionClear_def)

lemma FGET_nativePointer [simp]: "nativePointer (snd (FGET jm obj name sig s)) = nativePointer s"
  by (simp add: FGET_def GetMethodID_def ExceptionClear_def)

lemma FGET_eq: "FGET jm obj name sig s = (jm obj name sig, snd (FGET jm obj name sig s))"
  by (simp add: prod_eq_iff)

lemma S3JniUdf_alloc_type:
  "\<exists>u s'. S3JniUdf_alloc jm True f s = (Some u, s') \<and> udf_type u =
                (if jm f ''xFunc'' zFSI \<noteq> 0 then UDF_SCALAR
                 else if jm f ''xStep'' zFSI \<noteq> 0 \<and> jm f ''xFinal'' zFV \<noteq> 0 then
                   (if jm f ''xValue'' zFV \<noteq> 0 then UDF_WINDOW else UDF_AGGREGATE)
                 else UDF_UNKNOWN_TYPE) \<and> udf_jObj u = f
      \<and> events s' = events s @ (if f \<noteq> 0 then [NewGlobalRef f] else [])
      \<and> nativePointer s' = nativePointer s"
  unfolding S3JniUdf_alloc_def
  apply (subst FGET_eq [of jm f "''xFunc''"])
  apply (subst FGET_eq [of jm f "''xStep''"])
  apply (subst FGET_eq [of jm f "''xFinal''"])
  apply (subst FGET_eq [of jm f "''xValue''"])
  apply (subst FGET_eq [of jm f "''xInverse''"])
  apply (simp add: Let_def new_global_ref_def events_emit emit_def)
  done


section \<open>Facts about well-formed lists\<close>

lemma dseg_cong:
  "(\<And>x. x \<in> set xs \<Longrightarrow> nx x = nx' x \<and> pv x = pv' x) \<Longrightarrow>
   dseg nx pv pr p xs q = dseg nx' pv' pr p xs q"
  by (induction xs arbitrary: pr p) auto

lemma dseg_nonzero: "dseg nx pv pr p xs q \<Longrightarrow> 0 \<notin> set xs"
  by (induction xs arbitrary: pr p) auto

lemma dseg_append:
  "dseg nx pv pr p (xs @ ys) q =
     (\<exists>m. dseg nx pv pr p xs m \<and> dseg nx pv (if xs = [] then pr else last xs) m ys q)"
  by (induction xs arbitrary: pr p) auto

lemma dseg_head: "dseg nx pv pr p xs q \<Longrightarrow> xs \<noteq> [] \<Longrightarrow> hd xs = p"
  by (cases xs) auto

lemma dll_Nil [simp]: "dll nx pv h [] = (h = 0)"
  by (simp add: dll_def)

lemma dll_Cons: "dll nx pv h (x # xs) = (h = x \<and> x \<noteq> 0 \<and> pv x = 0 \<and> dseg nx pv x (nx x) xs 0)"
  by (simp add: dll_def)

lemma dll_null: "dll nx pv 0 xs \<Longrightarrow> xs = []"
  by (cases xs) (auto simp: dll_def)

lemma dll_nonnull: "dll nx pv h xs \<Longrightarrow> h \<noteq> 0 \<Longrightarrow> \<exists>ys. xs = h # ys"
  by (cases xs) (auto simp: dll_def)

lemma dll_push:
  assumes "dll nx pv h xs" "distinct xs" "x \<notin> set xs" "x \<noteq> 0"
  shows "dll (nx(x := h)) ((if h \<noteq> 0 then pv(h := x) else pv)(x := 0)) x (x # xs)"
proof (cases xs)
  case Nil
  with assms show ?thesis by (simp add: dll_def)
next
  case (Cons y ys)
  with assms have h: "h = y" "y \<noteq> 0" "pv y = 0" and rest: "dseg nx pv y (nx y) ys 0"
    and ny: "x \<noteq> y" "x \<notin> set ys" "y \<notin> set ys"
    by (auto simp: dll_def)
  have "dseg (nx(x := h)) ((if h \<noteq> 0 then pv(h := x) else pv)(x := 0)) y (nx y) ys 0
        = dseg nx pv y (nx y) ys 0"
    using ny h by (intro dseg_cong) auto
  then show ?thesis
    using h rest ny Cons assms(4) by (simp add: dll_def)
qed

lemma dll_pop:
  assumes "dll nx pv h (x # xs)" "distinct (x # xs)"
  shows "dll nx (if nx x \<noteq> 0 then pv(nx x := 0) else pv) (nx x) xs"
proof (cases xs)
  case Nil
  with assms show ?thesis by (simp add: dll_def)
next
  case (Cons y ys)
  with assms have y: "nx x = y" "y \<noteq> 0" "pv y = x" and rest: "dseg nx pv y (nx y) ys 0"
    and ny: "y \<notin> set ys"
    by (auto simp: dll_def)
  have "dseg nx (pv(y := 0)) y (nx y) ys 0 = dseg nx pv y (nx y) ys 0"
    using ny by (intro dseg_cong) auto
  then show ?thesis
    using y rest Cons by (simp add: dll_def)
qed

lemma dseg_retarget:
  "dseg nx pv pr p xs m \<Longrightarrow> xs \<noteq> [] \<Longrightarrow> distinct xs \<Longrightarrow>
   dseg (nx(last xs := m')) pv pr p xs m'"
proof (induction xs arbitrary: pr p)
  case Nil
  then show ?case by simp
next
  case (Cons x xs)
  show ?case
  proof (cases xs)
    case Nil
    with Cons.prems show ?thesis by simp
  next
    case (Cons y ys)
    with Cons.prems Cons.IH [of x "nx x"] show ?thesis by auto
  qed
qed

lemma dll_unlink:
  assumes l: "dll nx pv h (as @ x # bs)" and d: "distinct (as @ x # bs)"
  shows "dll (if pv x \<noteq> 0 then nx(pv x := nx x) else nx)
             (if nx x \<noteq> 0 then pv(nx x := pv x) else pv)
             (if pv x = 0 \<and> h = x then nx x else h) (as @ bs)"
proof (cases as)
  case Nil
  with l have hx: "h = x" "pv x = 0" by (simp_all add: dll_def)
  from dll_pop [of nx pv h x bs] l d Nil have "dll nx (if nx x \<noteq> 0 then pv(nx x := 0) else pv) (nx x) bs"
    by simp
  with hx Nil show ?thesis by (auto split: if_splits)
next
  case (Cons a as')
  then have ne: "as \<noteq> []" by simp
  from l obtain m where s1: "dseg nx pv 0 h as m" and s2: "dseg nx pv (last as) m (x # bs) 0"
    using ne by (auto simp: dll_def dseg_append)
  from s2 have mx: "m = x" and x0: "x \<noteq> 0" and pvx: "pv x = last as"
    and rest: "dseg nx pv x (nx x) bs 0" by auto
  from s1 have z: "0 \<notin> set as" by (rule dseg_nonzero)
  have la: "last as \<in> set as" using ne by simp
  then have la0: "last as \<noteq> 0" using z by (metis)
  have hne: "h \<noteq> x" using s1 ne d Cons by auto
  have da: "distinct as" using d by simp
  let ?nx = "nx(last as := nx x)"
  let ?pv = "if nx x \<noteq> 0 then pv(nx x := last as) else pv"
  have nxx: "nx x \<notin> set as"
  proof (cases bs)
    case Nil
    with rest have "nx x = 0" by simp
    with z show ?thesis by simp
  next
    case (Cons b cs)
    with rest have "nx x = b" by simp
    with d Cons show ?thesis by auto
  qed
  have a1: "dseg ?nx pv 0 h as (nx x)"
    using dseg_retarget [OF s1 [unfolded mx] ne da, of "nx x"] .
  have "dseg ?nx ?pv 0 h as (nx x) = dseg ?nx pv 0 h as (nx x)"
    using nxx by (intro dseg_cong) auto
  with a1 have a: "dseg ?nx ?pv 0 h as (nx x)" by simp
  have b: "dseg ?nx ?pv (last as) (nx x) bs 0"
  proof (cases bs)
    case Nil
    with rest show ?thesis by simp
  next
    case (Cons b cs)
    with rest have bb: "nx x = b" "b \<noteq> 0" "pv b = x" and r2: "dseg nx pv b (nx b) cs 0"
      by auto
    from d Cons have nb: "b \<notin> set cs" "b \<noteq> last as" "last as \<notin> set cs"
      using la by auto
    have "dseg ?nx ?pv b (nx b) cs 0 = dseg nx pv b (nx b) cs 0"
      using nb bb by (intro dseg_cong) auto
    with r2 bb nb Cons show ?thesis by simp
  qed
  from a b have "dseg ?nx ?pv 0 h (as @ bs) 0"
    using ne by (auto simp: dseg_append)
  with pvx la0 hne show ?thesis by (auto simp: dll_def split: if_splits)
qed

lemma dll_frame:
  "dll nx pv h xs \<Longrightarrow> (\<And>y. y \<in> set xs \<Longrightarrow> nx' y = nx y \<and> pv' y = pv y) \<Longrightarrow> dll nx' pv' h xs"
  unfolding dll_def using dseg_cong [of xs nx' nx pv' pv 0 h 0] by blast

lemma dll_distinct_head: "dll nx pv h (x # xs) \<Longrightarrow> h = x \<and> x \<noteq> 0 \<and> pv x = 0"
  by (simp add: dll_def)

lemma dll_nonzero: "dll nx pv h xs \<Longrightarrow> 0 \<notin> set xs"
  unfolding dll_def by (rule dseg_nonzero)

lemma dll_push_gen:
  assumes l: "dll nx pv h xs" and d: "distinct xs" and nin: "x \<notin> set xs" and x0: "x \<noteq> 0"
    and n1: "nx' x = h" and p1: "pv' x = 0" and p2: "h \<noteq> 0 \<Longrightarrow> pv' h = x"
    and n2: "\<And>y. y \<in> set xs \<Longrightarrow> nx' y = nx y"
    and p3: "\<And>y. y \<in> set xs \<Longrightarrow> y \<noteq> h \<Longrightarrow> pv' y = pv y"
  shows "dll nx' pv' x (x # xs)"
proof -
  have a: "dll (nx(x := h)) ((if h \<noteq> 0 then pv(h := x) else pv)(x := 0)) x (x # xs)"
    using dll_push [OF l d nin x0] .
  have z: "0 \<notin> set xs"
    using dll_nonzero [OF l] .
  show ?thesis
  proof (rule dll_frame [OF a])
    fix y assume y: "y \<in> set (x # xs)"
    then have y0: "y \<noteq> 0" using z x0 by (cases "y = 0") auto
    show "nx' y = (nx(x := h)) y \<and> pv' y = ((if h \<noteq> 0 then pv(h := x) else pv)(x := 0)) y"
      using y y0 n1 p1 p2 n2 [of y] p3 [of y] nin by (cases "y = x"; cases "y = h") auto
  qed
qed

lemma dll_pop_gen:
  assumes l: "dll nx pv h (x # xs)" and d: "distinct (x # xs)"
    and n2: "\<And>y. y \<in> set xs \<Longrightarrow> nx' y = nx y"
    and p2: "\<And>y. y \<in> set xs \<Longrightarrow> y \<noteq> nx x \<Longrightarrow> pv' y = pv y"
    and p1: "nx x \<noteq> 0 \<Longrightarrow> pv' (nx x) = 0"
  shows "dll nx' pv' (nx x) xs"
proof -
  have a: "dll nx (if nx x \<noteq> 0 then pv(nx x := 0) else pv) (nx x) xs"
    using dll_pop [OF l d] .
  have z: "0 \<notin> set (x # xs)"
    using dll_nonzero [OF l] .
  show ?thesis
  proof (rule dll_frame [OF a])
    fix y assume y: "y \<in> set xs"
    then have y0: "y \<noteq> 0" using z by (cases "y = 0") auto
    show "nx' y = nx y \<and> pv' y = (if nx x \<noteq> 0 then pv(nx x := 0) else pv) y"
      using y y0 n2 [of y] p2 [of y] p1 by (cases "y = nx x") auto
  qed
qed

lemma dll_unlink_gen:
  assumes l: "dll nx pv h (as @ x # bs)" and d: "distinct (as @ x # bs)"
    and n1: "pv x \<noteq> 0 \<Longrightarrow> nx' (pv x) = nx x"
    and n2: "\<And>y. y \<in> set (as @ bs) \<Longrightarrow> y \<noteq> pv x \<Longrightarrow> nx' y = nx y"
    and p1: "nx x \<noteq> 0 \<Longrightarrow> pv' (nx x) = pv x"
    and p2: "\<And>y. y \<in> set (as @ bs) \<Longrightarrow> y \<noteq> nx x \<Longrightarrow> pv' y = pv y"
    and h': "h' = (if pv x = 0 \<and> h = x then nx x else h)"
  shows "dll nx' pv' h' (as @ bs)"
proof -
  have a: "dll (if pv x \<noteq> 0 then nx(pv x := nx x) else nx)
             (if nx x \<noteq> 0 then pv(nx x := pv x) else pv)
             (if pv x = 0 \<and> h = x then nx x else h) (as @ bs)"
    using dll_unlink [OF l d] .
  have z: "0 \<notin> set (as @ bs)"
    using dll_nonzero [OF l] by auto
  show ?thesis
    unfolding h'
  proof (rule dll_frame [OF a])
    fix y assume y: "y \<in> set (as @ bs)"
    then have y0: "y \<noteq> 0" using z by metis
    show "nx' y = (if pv x \<noteq> 0 then nx(pv x := nx x) else nx) y \<and>
          pv' y = (if nx x \<noteq> 0 then pv(nx x := pv x) else pv) y"
      using y y0 n1 n2 [of y] p1 p2 [of y] by (cases "y = pv x"; cases "y = nx x") auto
  qed
qed

lemma first_with_Nil [simp]: "first_with P [] = 0"
  by (simp add: first_with_def)

lemma first_with_Cons [simp]: "first_with P (x # xs) = (if P x then x else first_with P xs)"
  by (simp add: first_with_def)

lemma first_with_in: "first_with P xs \<noteq> 0 \<Longrightarrow> first_with P xs \<in> set xs \<and> P (first_with P xs)"
  by (induction xs) (auto split: if_splits)

lemma first_with_none: "0 \<notin> set xs \<Longrightarrow> first_with P xs = 0 \<Longrightarrow> x \<in> set xs \<Longrightarrow> \<not> P x"
  by (induction xs) (auto split: if_splits)

lemma env_find_dseg:
  "dseg (\<lambda>p. row_pNext (mem p)) pv pr p xs 0 \<Longrightarrow>
   env_find mem e p = Some (first_with (\<lambda>r. env (mem r) = e) xs)"
proof (induction xs arbitrary: pr p)
  case Nil
  then show ?case by (subst env_find.simps) simp
next
  case (Cons x xs)
  then show ?case by (subst env_find.simps) auto
qed

lemma db_find_dseg:
  "dseg (\<lambda>p. pNext (mem p)) pv pr p xs 0 \<Longrightarrow> db \<noteq> 0 \<Longrightarrow>
   db_find mem db p = Some (first_with (\<lambda>r. pDb (mem r) = db) xs)"
proof (induction xs arbitrary: pr p)
  case Nil
  then show ?case by (subst db_find.simps) simp
next
  case (Cons x xs)
  then show ?case by (subst db_find.simps) auto
qed

lemma db_find_null: "db_find mem 0 p = Some p"
  by (subst db_find.simps) simp

lemma upd_metrics_fields [simp]:
  "envRows (upd_metrics f s) = envRows s"
  "envCache_aHead (upd_metrics f s) = envCache_aHead s"
  "envCache_aFree (upd_metrics f s) = envCache_aFree s"
  "dbRows (upd_metrics f s) = dbRows s"
  "perDb_aUsed (upd_metrics f s) = perDb_aUsed s"
  "perDb_aFree (upd_metrics f s) = perDb_aFree s"
  "autoExt_pExt (upd_metrics f s) = autoExt_pExt s"
  "autoExt_nExt (upd_metrics f s) = autoExt_nExt s"
  "autoExt_nAlloc (upd_metrics f s) = autoExt_nAlloc s"
  "once (upd_metrics f s) = once s"
  "nativePointer (upd_metrics f s) = nativePointer s"
  "outputValue (upd_metrics f s) = outputValue s"
  "pending (upd_metrics f s) = pending s"
  "events (upd_metrics f s) = events s"
  "metrics (upd_metrics f s) = f (metrics s)"
  by (simp_all add: upd_metrics_def)

lemma upd_env_fields [simp]:
  "envRows (upd_env p f s) = (envRows s)(p := f (envRows s p))"
  "envCache_aHead (upd_env p f s) = envCache_aHead s"
  "envCache_aFree (upd_env p f s) = envCache_aFree s"
  "dbRows (upd_env p f s) = dbRows s"
  "perDb_aUsed (upd_env p f s) = perDb_aUsed s"
  "perDb_aFree (upd_env p f s) = perDb_aFree s"
  "autoExt_pExt (upd_env p f s) = autoExt_pExt s"
  "autoExt_nExt (upd_env p f s) = autoExt_nExt s"
  "autoExt_nAlloc (upd_env p f s) = autoExt_nAlloc s"
  "once (upd_env p f s) = once s"
  "nativePointer (upd_env p f s) = nativePointer s"
  "outputValue (upd_env p f s) = outputValue s"
  "pending (upd_env p f s) = pending s"
  "events (upd_env p f s) = events s"
  "metrics (upd_env p f s) = metrics s"
  by (simp_all add: upd_env_def)

lemma upd_db_fields [simp]:
  "dbRows (upd_db p f s) = (dbRows s)(p := f (dbRows s p))"
  "envCache_aHead (upd_db p f s) = envCache_aHead s"
  "envCache_aFree (upd_db p f s) = envCache_aFree s"
  "envRows (upd_db p f s) = envRows s"
  "perDb_aUsed (upd_db p f s) = perDb_aUsed s"
  "perDb_aFree (upd_db p f s) = perDb_aFree s"
  "autoExt_pExt (upd_db p f s) = autoExt_pExt s"
  "autoExt_nExt (upd_db p f s) = autoExt_nExt s"
  "autoExt_nAlloc (upd_db p f s) = autoExt_nAlloc s"
  "once (upd_db p f s) = once s"
  "nativePointer (upd_db p f s) = nativePointer s"
  "outputValue (upd_db p f s) = outputValue s"
  "pending (upd_db p f s) = pending s"
  "events (upd_db p f s) = events s"
  "metrics (upd_db p f s) = metrics s"
  by (simp_all add: upd_db_def)

lemma emit_fields [simp]:
  "dbRows (emit ev s) = dbRows s"
  "envCache_aHead (emit ev s) = envCache_aHead s"
  "envCache_aFree (emit ev s) = envCache_aFree s"
  "envRows (emit ev s) = envRows s"
  "perDb_aUsed (emit ev s) = perDb_aUsed s"
  "perDb_aFree (emit ev s) = perDb_aFree s"
  "autoExt_pExt (emit ev s) = autoExt_pExt s"
  "autoExt_nExt (emit ev s) = autoExt_nExt s"
  "autoExt_nAlloc (emit ev s) = autoExt_nAlloc s"
  "once (emit ev s) = once s"
  "nativePointer (emit ev s) = nativePointer s"
  "outputValue (emit ev s) = outputValue s"
  "pending (emit ev s) = pending s"
  "metrics (emit ev s) = metrics s"
  by (simp_all add: emit_def)

lemma env_cache_link_props:
  assumes "row \<noteq> 0" "envCache_aHead s \<noteq> row"
  shows "fst (env_cache_link row e s) = row"
    and "envCache_aHead (snd (env_cache_link row e s)) = row"
    and "envCache_aFree (snd (env_cache_link row e s)) = envCache_aFree s"
    and "env_nx (snd (env_cache_link row e s)) y = (if y = row then envCache_aHead s else env_nx s y)"
    and "env_pv (snd (env_cache_link row e s)) y =
           (if y = row then 0 else if y = envCache_aHead s \<and> y \<noteq> 0 then row else env_pv s y)"
    and "env (envRows (snd (env_cache_link row e s)) y) = (if y = row then e else env (envRows s y))"
    and "pdbOpening (envRows (snd (env_cache_link row e s)) y) =
           (if y = row then 0 else pdbOpening (envRows s y))"
    and "dbRows (snd (env_cache_link row e s)) = dbRows s"
    and "perDb_aUsed (snd (env_cache_link row e s)) = perDb_aUsed s"
    and "perDb_aFree (snd (env_cache_link row e s)) = perDb_aFree s"
  using assms
  by (simp_all add: env_cache_link_def Let_def env_nx_def env_pv_def S3JniEnv_zero_def)

lemma env_nx_eq: "env_nx s = (\<lambda>p. row_pNext (envRows s p))"
  by (rule ext) (simp add: env_nx_def)

lemma env_pv_eq: "env_pv s = (\<lambda>p. row_pPrev (envRows s p))"
  by (rule ext) (simp add: env_pv_def)

lemma db_nx_eq: "db_nx s = (\<lambda>p. pNext (dbRows s p))"
  by (rule ext) (simp add: db_nx_def)

lemma db_pv_eq: "db_pv s = (\<lambda>p. pPrev (dbRows s p))"
  by (rule ext) (simp add: db_pv_def)

lemma envCache_inv_metrics [simp]:
  "envCache_inv (upd_metrics f s) us fs = envCache_inv s us fs"
  by (simp add: envCache_inv_def env_nx_eq env_pv_eq)

lemma env_find_inv:
  assumes "envCache_inv s us fs"
  shows "env_find (envRows s) e (envCache_aHead s)
           = Some (first_with (\<lambda>r. env (envRows s r) = e) us)"
proof -
  from assms have "dseg (\<lambda>p. row_pNext (envRows s p)) (env_pv s) 0 (envCache_aHead s) us 0"
    by (simp add: envCache_inv_def dll_def env_nx_eq)
  then show ?thesis by (rule env_find_dseg)
qed

lemma distinct_map_unique:
  "distinct (map f xs) \<Longrightarrow> x \<in> set xs \<Longrightarrow> y \<in> set xs \<Longrightarrow> f x = f y \<Longrightarrow> x = y"
  by (meson distinct_map inj_onD)

text \<open>A hit: the row is returned and only counters change.\<close>

lemma env_cache_hit:
  assumes inv: "envCache_inv s us fs" and r: "r \<in> set us" and e: "env (envRows s r) = e"
  shows "\<exists>s'. S3JniGlobal_env_cache m e s = Some (Inr (r, s'))
           \<and> envCache_inv s' us fs \<and> envRows s' = envRows s"
proof -
  let ?P = "\<lambda>q. env (envRows s q) = e"
  have z: "0 \<notin> set us"
    using inv by (auto simp: envCache_inv_def dest: dll_nonzero)
  have f0: "first_with ?P us \<noteq> 0"
    using first_with_none [of us ?P r] z r e by blast
  then have fin: "first_with ?P us \<in> set us" "?P (first_with ?P us)"
    using first_with_in [of ?P us] by auto
  have dm: "distinct (map (\<lambda>p. env (envRows s p)) us)"
    using inv by (simp add: envCache_inv_def)
  have fr: "first_with ?P us = r"
    using distinct_map_unique [OF dm fin(1) r] fin(2) e by simp
  show ?thesis
    using env_find_inv [OF inv, of e] fr f0 inv r
    by (simp add: S3JniGlobal_env_cache_def Let_def)
qed


lemma envCache_inv_link:
  assumes u: "dll (env_nx s) (env_pv s) (envCache_aHead s) us"
    and f: "dll (env_nx s) (env_pv s) (envCache_aFree s) fs"
    and d: "distinct (us @ fs)"
    and de: "distinct (map (\<lambda>p. env (envRows s p)) us)"
    and ne: "\<forall>q \<in> set us. env (envRows s q) \<noteq> e"
    and r0: "r \<noteq> 0" and rn: "r \<notin> set (us @ fs)"
  shows "envCache_inv (snd (env_cache_link r e s)) (r # us) fs"
proof -
  let ?s = "snd (env_cache_link r e s)"
  have hr: "envCache_aHead s \<noteq> r"
  proof (cases us)
    case Nil
    with u r0 show ?thesis by simp
  next
    case (Cons a as)
    with u have "envCache_aHead s = a" by (simp add: dll_Cons)
    with rn Cons show ?thesis by auto
  qed
  note P = env_cache_link_props [OF r0 hr, of e]
  have zu: "0 \<notin> set us" using dll_nonzero [OF u] .
  have zf: "0 \<notin> set fs" using dll_nonzero [OF f] .
  have hu: "envCache_aHead s \<noteq> 0 \<Longrightarrow> envCache_aHead s \<in> set us"
    using u by (cases us) (auto simp: dll_Cons)
  have used: "dll (env_nx ?s) (env_pv ?s) (envCache_aHead ?s) (r # us)"
    unfolding P(2)
  proof (rule dll_push_gen [OF u])
    show "distinct us" using d by simp
    show "r \<notin> set us" using rn by simp
    show "r \<noteq> 0" by (rule r0)
    show "env_nx ?s r = envCache_aHead s" by (simp add: P)
    show "env_pv ?s r = 0" by (simp add: P)
    show "envCache_aHead s \<noteq> 0 \<Longrightarrow> env_pv ?s (envCache_aHead s) = r"
      using hr by (simp add: P)
    show "\<And>y. y \<in> set us \<Longrightarrow> env_nx ?s y = env_nx s y"
      using rn by (auto simp: P)
    show "\<And>y. y \<in> set us \<Longrightarrow> y \<noteq> envCache_aHead s \<Longrightarrow> env_pv ?s y = env_pv s y"
      using rn by (auto simp: P)
  qed
  have free: "dll (env_nx ?s) (env_pv ?s) (envCache_aFree ?s) fs"
    unfolding P(3)
  proof (rule dll_frame [OF f])
    fix y assume y: "y \<in> set fs"
    then have "y \<noteq> r" using rn by auto
    moreover have "y \<noteq> envCache_aHead s \<or> y = 0"
      using y d hu by (cases "envCache_aHead s = 0") auto
    ultimately show "env_nx ?s y = env_nx s y \<and> env_pv ?s y = env_pv s y"
      by (auto simp: P)
  qed
  have envs: "map (\<lambda>p. env (envRows ?s p)) us = map (\<lambda>p. env (envRows s p)) us"
    using rn by (auto simp: P)
  have e1: "env (envRows ?s r) = e" by (simp add: P)
  have "distinct (map (\<lambda>p. env (envRows ?s p)) (r # us))"
    unfolding list.map distinct.simps envs e1 using de ne by auto
  with used free d rn show ?thesis
    unfolding envCache_inv_def by simp
qed


lemma env_links_upd_metrics [simp]:
  "env_nx (upd_metrics f s) = env_nx s" "env_pv (upd_metrics f s) = env_pv s"
  by (simp_all add: env_nx_eq env_pv_eq)

lemma first_with_zero: "(\<forall>q \<in> set xs. \<not> P q) \<Longrightarrow> first_with P xs = 0"
  by (induction xs) auto

lemma env_cache_miss:
  assumes inv: "envCache_inv s us fs"
    and ne: "\<forall>q \<in> set us. env (envRows s q) \<noteq> e"
    and fresh: "fs = [] \<Longrightarrow> m \<noteq> 0 \<and> m \<notin> set us"
  shows "\<exists>s'. S3JniGlobal_env_cache m e s = Some (Inr (if fs = [] then m else hd fs, s'))
           \<and> envCache_inv s' ((if fs = [] then m else hd fs) # us) (tl fs)
           \<and> env (envRows s' (if fs = [] then m else hd fs)) = e
           \<and> (\<forall>q. q \<noteq> (if fs = [] then m else hd fs) \<longrightarrow>
                 env (envRows s' q) = env (envRows s q))"
proof -
  from inv have u: "dll (env_nx s) (env_pv s) (envCache_aHead s) us"
    and f: "dll (env_nx s) (env_pv s) (envCache_aFree s) fs"
    and d: "distinct (us @ fs)"
    and de: "distinct (map (\<lambda>p. env (envRows s p)) us)"
    by (simp_all add: envCache_inv_def)
  have fw: "env_find (envRows s) e (envCache_aHead s) = Some 0"
    using env_find_inv [OF inv, of e] first_with_zero [of us "\<lambda>r. env (envRows s r) = e"] ne
    by simp
  show ?thesis
  proof (cases fs)
    case Nil
    define s1 where "s1 =
      upd_metrics (\<lambda>c. c\<lparr>envCacheAllocs := envCacheAllocs c + 1\<rparr>)
        (upd_metrics (\<lambda>c. c\<lparr>envCacheMisses := envCacheMisses c + 1\<rparr>)
          (upd_metrics (\<lambda>c. c\<lparr>nMutexEnv := nMutexEnv c + 1\<rparr>) s))"
    have m: "m \<noteq> 0" "m \<notin> set (us @ fs)" using fresh Nil by auto
    have fr0: "envCache_aFree s = 0" using f Nil by simp
    have res: "S3JniGlobal_env_cache m e s = Some (Inr (env_cache_link m e s1))"
      using fw fr0 m(1) by (simp add: S3JniGlobal_env_cache_def Let_def s3jni_malloc_def s1_def)
    have hr: "envCache_aHead s1 \<noteq> m"
      using u m by (cases us) (auto simp: dll_Cons s1_def)
    note P = env_cache_link_props [OF m(1) hr, of e]
    have i: "envCache_inv (snd (env_cache_link m e s1)) (m # us) fs"
      by (rule envCache_inv_link) (use u f d de ne m in \<open>simp_all add: s1_def\<close>)
    have e1: "\<And>y. env (envRows s1 y) = env (envRows s y)"
      by (simp add: s1_def)
    have "env_cache_link m e s1 = (m, snd (env_cache_link m e s1))"
      using P(1) by (simp add: prod_eq_iff)
    with res i Nil show ?thesis
      by (intro exI [of _ "snd (env_cache_link m e s1)"]) (simp add: P e1)
  next
    case (Cons a fs')
    have a: "envCache_aFree s = a" "a \<noteq> 0" using f Cons by (simp_all add: dll_Cons)
    define s3 where "s3 =
      (let s1 = upd_metrics (\<lambda>c. c\<lparr>envCacheMisses := envCacheMisses c + 1\<rparr>)
                  (upd_metrics (\<lambda>c. c\<lparr>nMutexEnv := nMutexEnv c + 1\<rparr>) s);
           s2 = s1\<lparr>envCache_aFree := row_pNext (envRows s1 a)\<rparr>
       in if row_pNext (envRows s2 a) \<noteq> 0
          then upd_env (row_pNext (envRows s2 a)) (\<lambda>r. r\<lparr>row_pPrev := 0\<rparr>) s2
          else s2)"
    have res: "S3JniGlobal_env_cache m e s = Some (Inr (env_cache_link a e s3))"
      using fw a by (simp add: S3JniGlobal_env_cache_def Let_def s3_def)
    have h3: "envCache_aHead s3 = envCache_aHead s"
      and f3: "envCache_aFree s3 = env_nx s a"
      and n3: "\<And>y. env_nx s3 y = env_nx s y"
      and p3: "\<And>y. env_pv s3 y = (if y = env_nx s a \<and> y \<noteq> 0 then 0 else env_pv s y)"
      and e3: "\<And>y. env (envRows s3 y) = env (envRows s y)"
      by (simp_all add: s3_def Let_def env_nx_def env_pv_def)
    have an: "a \<notin> set us" "a \<notin> set fs'" "distinct (a # fs')" using d Cons by auto
    have nxa: "env_nx s a = 0 \<or> env_nx s a \<in> set fs'"
      using f Cons by (cases fs') (auto simp: dll_Cons)
    have u3: "dll (env_nx s3) (env_pv s3) (envCache_aHead s3) us"
      unfolding h3
    proof (rule dll_frame [OF u])
      fix y assume "y \<in> set us"
      then have "y \<noteq> env_nx s a \<or> y = 0" using nxa d Cons by auto
      then show "env_nx s3 y = env_nx s y \<and> env_pv s3 y = env_pv s y"
        by (auto simp: n3 p3)
    qed
    have fl3: "dll (env_nx s3) (env_pv s3) (envCache_aFree s3) fs'"
      unfolding f3
      by (rule dll_pop_gen [OF f [unfolded Cons] an(3)]) (simp_all add: n3 p3)
    have i: "envCache_inv (snd (env_cache_link a e s3)) (a # us) fs'"
      by (rule envCache_inv_link)
         (use u3 fl3 d de ne a an Cons in \<open>simp_all add: e3\<close>)
    have hr: "envCache_aHead s3 \<noteq> a"
      using u an h3 a(2) by (cases us) (auto simp: dll_Cons)
    note P = env_cache_link_props [OF a(2) hr, of e]
    have "env_cache_link a e s3 = (a, snd (env_cache_link a e s3))"
      using P(1) by (simp add: prod_eq_iff)
    with res i Cons show ?thesis
      by (intro exI [of _ "snd (env_cache_link a e s3)"]) (simp add: P e3)
  qed
qed

lemma env_unlink_props:
  assumes r0: "r \<noteq> 0" and nr: "env_nx s r \<noteq> r" and pr: "env_pv s r \<noteq> r"
  shows "envCache_aHead (env_unlink r s) = (if envCache_aHead s = r then env_nx s r else envCache_aHead s)"
    and "envCache_aFree (env_unlink r s) = envCache_aFree s"
    and "env_nx (env_unlink r s) y = (if y = env_pv s r \<and> y \<noteq> 0 then env_nx s r else env_nx s y)"
    and "env_pv (env_unlink r s) y = (if y = env_nx s r \<and> y \<noteq> 0 then env_pv s r else env_pv s y)"
    and "env (envRows (env_unlink r s) y) = env (envRows s y)"
  using assms
  by (simp_all add: env_unlink_def Let_def env_nx_def env_pv_def)

lemma env_set_free_props:
  assumes r0: "r \<noteq> 0" and fr: "envCache_aFree s \<noteq> r"
  shows "envCache_aHead (env_set_free r s) = envCache_aHead s"
    and "envCache_aFree (env_set_free r s) = r"
    and "env_nx (env_set_free r s) y = (if y = r then envCache_aFree s else env_nx s y)"
    and "env_pv (env_set_free r s) y =
           (if y = r then 0 else if y = envCache_aFree s \<and> y \<noteq> 0 then r else env_pv s y)"
    and "env (envRows (env_set_free r s) y) = (if y = r then 0 else env (envRows s y))"
  using assms
  by (simp_all add: env_set_free_def Let_def env_nx_def env_pv_def S3JniEnv_zero_def)


lemma dll_mid_facts:
  assumes l: "dll nx pv h (as @ r # bs)" and d: "distinct (as @ r # bs)"
  shows "r \<noteq> 0" and "nx r = 0 \<or> nx r \<in> set bs" and "pv r = 0 \<or> pv r \<in> set as"
    and "h = r \<Longrightarrow> pv r = 0" and "as = [] \<Longrightarrow> h = r" and "as \<noteq> [] \<Longrightarrow> h \<noteq> r"
proof -
  from l obtain m where s1: "dseg nx pv 0 h as m"
    and s2: "dseg nx pv (if as = [] then 0 else last as) m (r # bs) 0"
    by (auto simp: dll_def dseg_append)
  from s2 have mr: "m = r" and r0: "r \<noteq> 0" and pvr: "pv r = (if as = [] then 0 else last as)"
    and rest: "dseg nx pv r (nx r) bs 0" by auto
  show "r \<noteq> 0" by (rule r0)
  show "nx r = 0 \<or> nx r \<in> set bs" using rest by (cases bs) auto
  show "pv r = 0 \<or> pv r \<in> set as" using pvr by (cases "as = []") auto
  show a1: "as = [] \<Longrightarrow> h = r" using s1 mr by simp
  show a2: "as \<noteq> [] \<Longrightarrow> h \<noteq> r"
  proof -
    assume ne: "as \<noteq> []"
    then have "hd as = h" using s1 by (cases as) auto
    then have "h \<in> set as" using ne by (metis hd_in_set)
    with d show "h \<noteq> r" by auto
  qed
  show "h = r \<Longrightarrow> pv r = 0" using a2 pvr by (cases "as = []") auto
qed

lemma dll_move:
  assumes u: "dll nx pv hu (as @ r # bs)" and f: "dll nx pv hf fs"
    and d: "distinct (as @ r # bs @ fs)"
    and nx2: "\<And>y. nx2 y = (if y = r then hf
                             else if y = pv r \<and> y \<noteq> 0 then nx r else nx y)"
    and pv2: "\<And>y. pv2 y = (if y = r then 0 else if y = hf \<and> y \<noteq> 0 then r
                             else if y = nx r \<and> y \<noteq> 0 then pv r else pv y)"
  shows "dll nx2 pv2 (if hu = r then nx r else hu) (as @ bs)" and "dll nx2 pv2 r (r # fs)"
proof -
  have du: "distinct (as @ r # bs)" and df: "distinct fs" using d by auto
  note M = dll_mid_facts [OF u du]
  have zf: "0 \<notin> set fs" using dll_nonzero [OF f] .
  have zu: "0 \<notin> set (as @ r # bs)" using dll_nonzero [OF u] .
  have hf: "hf = 0 \<or> hf \<in> set fs" using f by (cases fs) (auto simp: dll_Cons)
  have rn: "r \<notin> set as" "r \<notin> set bs" "r \<notin> set fs" using d by auto
  have nxr: "nx r \<noteq> r" using M(2) M(1) rn by auto
  have pvr: "pv r \<noteq> r" using M(3) M(1) rn by auto
  have hfr: "hf \<noteq> r" using hf M(1) rn by auto
  show "dll nx2 pv2 (if hu = r then nx r else hu) (as @ bs)"
  proof (rule dll_unlink_gen [OF u du])
    show "pv r \<noteq> 0 \<Longrightarrow> nx2 (pv r) = nx r" using pvr by (simp add: nx2)
    show "nx r \<noteq> 0 \<Longrightarrow> pv2 (nx r) = pv r"
    proof -
      assume n0: "nx r \<noteq> 0"
      then have "nx r \<in> set bs" using M(2) by simp
      then have "nx r \<noteq> hf" using hf d n0 by auto
      then show ?thesis using nxr n0 by (simp add: pv2)
    qed
    show "\<And>y. y \<in> set (as @ bs) \<Longrightarrow> y \<noteq> pv r \<Longrightarrow> nx2 y = nx y"
      using rn by (auto simp: nx2)
    show "\<And>y. y \<in> set (as @ bs) \<Longrightarrow> y \<noteq> nx r \<Longrightarrow> pv2 y = pv y"
    proof -
      fix y assume y: "y \<in> set (as @ bs)" and yn: "y \<noteq> nx r"
      have "y \<noteq> r" using y rn by auto
      moreover have "y \<noteq> hf \<or> hf = 0" using y hf d by auto
      ultimately show "pv2 y = pv y" using yn by (auto simp: pv2)
    qed
    show "(if hu = r then nx r else hu) = (if pv r = 0 \<and> hu = r then nx r else hu)"
      using M(4) by auto
  qed
  show "dll nx2 pv2 r (r # fs)"
  proof (rule dll_push_gen [OF f df rn(3) M(1)])
    show "nx2 r = hf" by (simp add: nx2)
    show "pv2 r = 0" by (simp add: pv2)
    show "hf \<noteq> 0 \<Longrightarrow> pv2 hf = r" using hfr by (simp add: pv2)
    show "\<And>y. y \<in> set fs \<Longrightarrow> nx2 y = nx y"
    proof -
      fix y assume y: "y \<in> set fs"
      have "y \<noteq> r" using y rn by auto
      moreover have "y \<noteq> pv r \<or> pv r = 0" using y M(3) d by auto
      ultimately show "nx2 y = nx y" by (auto simp: nx2)
    qed
    show "\<And>y. y \<in> set fs \<Longrightarrow> y \<noteq> hf \<Longrightarrow> pv2 y = pv y"
    proof -
      fix y assume y: "y \<in> set fs" and yh: "y \<noteq> hf"
      have "y \<noteq> r" using y rn by auto
      moreover have "y \<noteq> nx r \<or> nx r = 0" using y M(2) d by auto
      ultimately show "pv2 y = pv y" using yh by (auto simp: pv2)
    qed
  qed
qed


lemma env_uncache_inv:
  assumes inv: "envCache_inv s us fs"
  shows "\<exists>rc s' us' fs'. S3JniGlobal_env_uncache e s = Some (rc, s')
           \<and> envCache_inv s' us' fs' \<and> set (us' @ fs') = set (us @ fs)
           \<and> (\<forall>q \<in> set us. env (envRows s q) \<noteq> e \<longrightarrow>
                 q \<in> set us' \<and> env (envRows s' q) = env (envRows s q))"
proof -
  let ?P = "\<lambda>q. env (envRows s q) = e"
  let ?r = "first_with ?P us"
  from inv have u: "dll (env_nx s) (env_pv s) (envCache_aHead s) us"
    and f: "dll (env_nx s) (env_pv s) (envCache_aFree s) fs"
    and d: "distinct (us @ fs)"
    and de: "distinct (map (\<lambda>p. env (envRows s p)) us)"
    by (simp_all add: envCache_inv_def)
  have fw: "env_find (envRows s) e (envCache_aHead s) = Some ?r"
    by (rule env_find_inv [OF inv])
  show ?thesis
  proof (cases "?r = 0")
    case True
    then have "S3JniGlobal_env_uncache e s = Some (0, s)"
      using fw by (simp add: S3JniGlobal_env_uncache_def)
    with inv show ?thesis by blast
  next
    case False
    then have rin: "?r \<in> set us" and pr: "?P ?r"
      using first_with_in [of ?P us] by auto
    then obtain as bs where us: "us = as @ ?r # bs"
      by (meson split_list)
    define r where "r = ?r"
    have us': "us = as @ r # bs" using us r_def by simp
    have d3: "distinct (as @ r # bs @ fs)" using d us' by simp
    then have du: "distinct (as @ r # bs)" by auto
    note M = dll_mid_facts [OF u [unfolded us'] du]
    have rn: "r \<notin> set as" "r \<notin> set bs" "r \<notin> set fs" using d3 by auto
    have nxr: "env_nx s r \<noteq> r" using M(2) M(1) rn by auto
    have pvr: "env_pv s r \<noteq> r" using M(3) M(1) rn by auto
    have hf: "envCache_aFree s = 0 \<or> envCache_aFree s \<in> set fs"
      using f by (cases fs) (auto simp: dll_Cons)
    have hfr: "envCache_aFree s \<noteq> r" using hf M(1) rn by auto
    note U = env_unlink_props [OF M(1) nxr pvr]
    have hfr': "envCache_aFree (env_unlink r s) \<noteq> r" using hfr by (simp add: U)
    note F = env_set_free_props [OF M(1) hfr']
    define s' where "s' = env_set_free r (env_unlink r s)"
    have res: "S3JniGlobal_env_uncache e s = Some (1, s')"
      using fw False by (simp add: S3JniGlobal_env_uncache_def s'_def r_def)
    have nx2: "\<And>y. env_nx s' y = (if y = r then envCache_aFree s
                 else if y = env_pv s r \<and> y \<noteq> 0 then env_nx s r else env_nx s y)"
      by (simp add: s'_def F U)
    have pv2: "\<And>y. env_pv s' y = (if y = r then 0
                 else if y = envCache_aFree s \<and> y \<noteq> 0 then r
                 else if y = env_nx s r \<and> y \<noteq> 0 then env_pv s r else env_pv s y)"
      by (simp add: s'_def F U)
    have hd2: "envCache_aHead s' = (if envCache_aHead s = r then env_nx s r else envCache_aHead s)"
      and fr2: "envCache_aFree s' = r"
      and en2: "\<And>y. env (envRows s' y) = (if y = r then 0 else env (envRows s y))"
      by (simp_all add: s'_def F U)
    have used: "dll (env_nx s') (env_pv s') (envCache_aHead s') (as @ bs)"
      unfolding hd2 by (rule dll_move(1) [OF u [unfolded us'] f d3 nx2 pv2])
    have free: "dll (env_nx s') (env_pv s') (envCache_aFree s') (r # fs)"
      unfolding fr2 by (rule dll_move(2) [OF u [unfolded us'] f d3 nx2 pv2])
    have envs: "map (\<lambda>p. env (envRows s' p)) (as @ bs) = map (\<lambda>p. env (envRows s p)) (as @ bs)"
      using rn by (auto simp: en2)
    have de2: "distinct (map (\<lambda>p. env (envRows s' p)) (as @ bs))"
      unfolding envs using de us' by simp
    have i: "envCache_inv s' (as @ bs) (r # fs)"
      unfolding envCache_inv_def using used free d3 de2 by auto
    have keep: "\<forall>q \<in> set us. env (envRows s q) \<noteq> e \<longrightarrow>
                 q \<in> set (as @ bs) \<and> env (envRows s' q) = env (envRows s q)"
    proof (intro ballI impI)
      fix q assume q: "q \<in> set us" and qe: "env (envRows s q) \<noteq> e"
      have "env (envRows s r) = e" using pr r_def by simp
      with qe have "q \<noteq> r" by auto
      with q us' show "q \<in> set (as @ bs) \<and> env (envRows s' q) = env (envRows s q)"
        by (auto simp: en2)
    qed
    have sets: "set ((as @ bs) @ r # fs) = set (us @ fs)" using us' by auto
    from res i sets keep show ?thesis by blast
  qed
qed

lemma uncacheJniEnv_inv:
  assumes inv: "envCache_inv s us fs"
  shows "\<exists>b s' us' fs'. uncacheJniEnv e s = Some (b, s')
           \<and> envCache_inv s' us' fs' \<and> set (us' @ fs') = set (us @ fs)
           \<and> (\<forall>q \<in> set us. env (envRows s q) \<noteq> e \<longrightarrow>
                 q \<in> set us' \<and> env (envRows s' q) = env (envRows s q))"
proof -
  let ?s0 = "upd_metrics (\<lambda>c. c\<lparr>nMutexEnv := nMutexEnv c + 1\<rparr>) s"
  have i0: "envCache_inv ?s0 us fs" using inv by simp
  from env_uncache_inv [OF i0, of e] obtain rc s' us' fs' where
    r: "S3JniGlobal_env_uncache e ?s0 = Some (rc, s')" and
    i: "envCache_inv s' us' fs'" and st: "set (us' @ fs') = set (us @ fs)" and
    k: "\<forall>q \<in> set us. env (envRows ?s0 q) \<noteq> e \<longrightarrow>
                 q \<in> set us' \<and> env (envRows s' q) = env (envRows ?s0 q)"
    by blast
  have "uncacheJniEnv e s = Some (rc \<noteq> 0, s')"
    using r by (simp add: uncacheJniEnv_def)
  with i st k show ?thesis by (intro exI [of _ "rc \<noteq> 0"] exI [of _ s'] exI [of _ us'] exI [of _ fs']) simp
qed

lemma cache_step_inv:
  assumes inv: "envCache_inv s us fs" and r: "r \<in> set us" and t: "env (envRows s r) = T"
    and nt: "x \<noteq> Uncache T"
    and fresh: "0 \<notin> set (mallocs [x])" "set (mallocs [x]) \<inter> set (us @ fs) = {}"
  shows "\<exists>s' us' fs'. cache_step x s = Some (Inr s') \<and> envCache_inv s' us' fs'
           \<and> r \<in> set us' \<and> env (envRows s' r) = T
           \<and> set (us' @ fs') \<subseteq> set (us @ fs) \<union> set (mallocs [x])"
proof (cases x)
  case (Acquire m e)
  have m: "m \<noteq> 0" "m \<notin> set (us @ fs)" using fresh Acquire by auto
  show ?thesis
  proof (cases "\<exists>q \<in> set us. env (envRows s q) = e")
    case True
    then obtain q where q: "q \<in> set us" "env (envRows s q) = e" by blast
    from env_cache_hit [OF inv q, of m] obtain s' where
      "S3JniGlobal_env_cache m e s = Some (Inr (q, s'))" "envCache_inv s' us fs"
      "envRows s' = envRows s" by blast
    with r t Acquire show ?thesis
      by (intro exI [of _ s'] exI [of _ us] exI [of _ fs]) auto
  next
    case False
    then have ne: "\<forall>q \<in> set us. env (envRows s q) \<noteq> e" by blast
    define n where "n = (if fs = [] then m else hd fs)"
    from env_cache_miss [OF inv ne, of m] m obtain s' where
      a: "S3JniGlobal_env_cache m e s = Some (Inr (n, s'))" and
      i: "envCache_inv s' (n # us) (tl fs)" and
      k: "\<forall>q. q \<noteq> n \<longrightarrow> env (envRows s' q) = env (envRows s q)"
      unfolding n_def by auto
    have "distinct ((n # us) @ tl fs)" using i by (simp add: envCache_inv_def)
    then have "n \<notin> set us" by auto
    with r have rn: "r \<noteq> n" by auto
    have sub: "set ((n # us) @ tl fs) \<subseteq> set (us @ fs) \<union> set (mallocs [x])"
      using Acquire n_def by (cases fs) auto
    from a i k rn r t sub Acquire show ?thesis
      by (intro exI [of _ s'] exI [of _ "n # us"] exI [of _ "tl fs"]) auto
  qed
next
  case (Uncache e)
  with nt have et: "e \<noteq> T" by simp
  from uncacheJniEnv_inv [OF inv, of e] obtain b s' us' fs' where
    a: "uncacheJniEnv e s = Some (b, s')" and i: "envCache_inv s' us' fs'"
    and st: "set (us' @ fs') = set (us @ fs)"
    and k: "\<forall>q \<in> set us. env (envRows s q) \<noteq> e \<longrightarrow>
                 q \<in> set us' \<and> env (envRows s' q) = env (envRows s q)"
    by blast
  from k r t et have "r \<in> set us' \<and> env (envRows s' r) = T" by auto
  with a i st Uncache show ?thesis
    by (intro exI [of _ s'] exI [of _ us'] exI [of _ fs']) auto
qed

lemma mallocs_Cons: "mallocs (x # xs) = mallocs [x] @ mallocs xs"
  by (cases x) simp_all

lemma cache_run_inv:
  assumes "envCache_inv s us fs" "r \<in> set us" "env (envRows s r) = T"
    and "Uncache T \<notin> set ops" "distinct (mallocs ops)" "0 \<notin> set (mallocs ops)"
    and "set (mallocs ops) \<inter> set (us @ fs) = {}"
  shows "\<exists>s' us' fs'. cache_run ops s = Some (Inr s') \<and> envCache_inv s' us' fs'
           \<and> r \<in> set us' \<and> env (envRows s' r) = T"
  using assms
proof (induction ops arbitrary: s us fs)
  case Nil
  then show ?case by auto
next
  case (Cons x xs)
  have nt: "x \<noteq> Uncache T" using Cons.prems(4) by auto
  have f1: "0 \<notin> set (mallocs [x])" "set (mallocs [x]) \<inter> set (us @ fs) = {}"
    using Cons.prems(6,7) mallocs_Cons [of x xs] by auto
  from cache_step_inv [OF Cons.prems(1-3) nt f1] obtain s' us' fs' where
    st: "cache_step x s = Some (Inr s')" and i: "envCache_inv s' us' fs'"
    and r: "r \<in> set us'" "env (envRows s' r) = T"
    and sub: "set (us' @ fs') \<subseteq> set (us @ fs) \<union> set (mallocs [x])"
    by blast
  have d: "distinct (mallocs xs)" "0 \<notin> set (mallocs xs)" "Uncache T \<notin> set xs"
    using Cons.prems(4-6) mallocs_Cons [of x xs] by auto
  have dj: "set (mallocs xs) \<inter> set (us' @ fs') = {}"
    using sub Cons.prems(5,7) mallocs_Cons [of x xs] by auto
  from Cons.IH [OF i r d(3) d(1) d(2) dj] obtain s2 us2 fs2 where
    "cache_run xs s' = Some (Inr s2)" "envCache_inv s2 us2 fs2"
    "r \<in> set us2" "env (envRows s2 r) = T" by blast
  with st show ?case by auto
qed

lemma env_cache_first:
  assumes inv: "envCache_inv s us fs" and m: "m \<noteq> 0" "m \<notin> set (us @ fs)"
  shows "\<exists>r s' us' fs'. S3JniGlobal_env_cache m T s = Some (Inr (r, s'))
           \<and> envCache_inv s' us' fs' \<and> r \<in> set us' \<and> env (envRows s' r) = T
           \<and> set (us' @ fs') \<subseteq> insert m (set (us @ fs))"
proof (cases "\<exists>q \<in> set us. env (envRows s q) = T")
  case True
  then obtain q where q: "q \<in> set us" "env (envRows s q) = T" by blast
  from env_cache_hit [OF inv q, of m] obtain s' where
    "S3JniGlobal_env_cache m T s = Some (Inr (q, s'))" "envCache_inv s' us fs"
    "envRows s' = envRows s" by blast
  with q show ?thesis
    by (intro exI [of _ q] exI [of _ s'] exI [of _ us] exI [of _ fs]) auto
next
  case False
  then have ne: "\<forall>q \<in> set us. env (envRows s q) \<noteq> T" by blast
  define n where "n = (if fs = [] then m else hd fs)"
  from env_cache_miss [OF inv ne, of m] m obtain s' where
    a: "S3JniGlobal_env_cache m T s = Some (Inr (n, s'))" and
    i: "envCache_inv s' (n # us) (tl fs)" and
    k: "env (envRows s' n) = T"
    unfolding n_def by auto
  have sub: "set ((n # us) @ tl fs) \<subseteq> insert m (set (us @ fs))"
    using n_def by (cases fs) auto
  from a i k sub show ?thesis
    by (intro exI [of _ n] exI [of _ s'] exI [of _ "n # us"] exI [of _ "tl fs"]) auto
qed

text \<open>
  Claim C3.  Start from a cache whose two lists are well formed.  Thread \<open>T\<close> acquires
  its row; then any operations of the cache run, by any threads, none of them a release
  of \<open>T\<close> (the allocator hands out unused, distinct, non-null addresses); then \<open>T\<close>
  acquires again.  All of these calls return, the two acquires return the same row,
  and that row's thread field is \<open>T\<close>.
\<close>

theorem env_cache_stable:
  assumes inv: "envCache_inv s us fs"
    and nt: "Uncache T \<notin> set ops"
    and dm: "distinct (m1 # mallocs ops)"
    and zm: "0 \<notin> set (m1 # mallocs ops)"
    and fm: "set (m1 # mallocs ops) \<inter> set (us @ fs) = {}"
  shows "\<exists>r s1 s2 s3.
           S3JniGlobal_env_cache m1 T s = Some (Inr (r, s1))
           \<and> cache_run ops s1 = Some (Inr s2)
           \<and> S3JniGlobal_env_cache m2 T s2 = Some (Inr (r, s3))
           \<and> r \<noteq> 0 \<and> env (envRows s3 r) = T"
proof -
  have m1: "m1 \<noteq> 0" "m1 \<notin> set (us @ fs)" using zm fm by auto
  from env_cache_first [OF inv m1, of T] obtain r s1 us1 fs1 where
    a1: "S3JniGlobal_env_cache m1 T s = Some (Inr (r, s1))" and
    i1: "envCache_inv s1 us1 fs1" and r1: "r \<in> set us1" "env (envRows s1 r) = T" and
    sub: "set (us1 @ fs1) \<subseteq> insert m1 (set (us @ fs))"
    by blast
  have d: "distinct (mallocs ops)" "0 \<notin> set (mallocs ops)" using dm zm by auto
  have dj: "set (mallocs ops) \<inter> set (us1 @ fs1) = {}"
    using sub dm fm by auto
  from cache_run_inv [OF i1 r1 nt d dj] obtain s2 us2 fs2 where
    a2: "cache_run ops s1 = Some (Inr s2)" and i2: "envCache_inv s2 us2 fs2" and
    r2: "r \<in> set us2" "env (envRows s2 r) = T" by blast
  from env_cache_hit [OF i2 r2, of m2] obtain s3 where
    a3: "S3JniGlobal_env_cache m2 T s2 = Some (Inr (r, s3))" and "envRows s3 = envRows s2"
    by blast
  then have e3: "env (envRows s3 r) = T" using r2 by simp
  have "0 \<notin> set us2" using i2 by (auto simp: envCache_inv_def dest: dll_nonzero)
  with r2(1) have "r \<noteq> 0" by metis
  with a1 a2 a3 e3 show ?thesis by blast
qed

lemma envCache_inv_init: "envCache_inv S3JniGlobal_init [] []"
  by (simp add: envCache_inv_def S3JniGlobal_init_def)

theorem env_cache_stable_witness:
  "envCache_inv S3JniGlobal_init [] []
   \<and> Uncache 7 \<notin> set [Acquire 101 8, Uncache 8, Acquire 102 9]
   \<and> (\<exists>r s1 s2 s3.
         S3JniGlobal_env_cache 100 7 S3JniGlobal_init = Some (Inr (r, s1))
         \<and> cache_run [Acquire 101 8, Uncache 8, Acquire 102 9] s1 = Some (Inr s2)
         \<and> S3JniGlobal_env_cache 103 7 s2 = Some (Inr (r, s3))
         \<and> r \<noteq> 0 \<and> env (envRows s3 r) = 7)"
  using envCache_inv_init
    env_cache_stable [of S3JniGlobal_init "[]" "[]" 7 "[Acquire 101 8, Uncache 8, Acquire 102 9]" 100 103]
  by simp

lemma swap_remove:
  assumes d: "distinct ys" and i: "i < length ys"
  shows "distinct (butlast (ys[i := last ys]))"
    and "set (butlast (ys[i := last ys])) = set ys - {ys ! i}"
proof -
  from i have ne: "ys \<noteq> []" by auto
  define zs where "zs = butlast ys"
  define l where "l = last ys"
  have ys: "ys = zs @ [l]" using ne by (simp add: zs_def l_def)
  have dz: "distinct zs" and ln: "l \<notin> set zs" using d ys by auto
  have both: "distinct (butlast (ys[i := last ys])) \<and>
              set (butlast (ys[i := last ys])) = set ys - {ys ! i}"
  proof (cases "i < length zs")
    case True
    have b: "butlast (ys[i := last ys]) = zs[i := l]"
      using True by (simp add: ys list_update_append)
    have yi: "ys ! i = zs ! i" using True by (simp add: ys nth_append)
    have zi: "zs ! i \<in> set zs" using True by simp
    have d2: "distinct (zs[i := l])"
      using dz ln by (simp add: distinct_list_update)
    have s2: "set (zs[i := l]) = insert l (set zs - {zs ! i})"
      using dz True by (rule set_update_distinct)
    have "insert l (set zs - {zs ! i}) = set ys - {ys ! i}"
      using ln zi yi by (auto simp: ys)
    with b d2 s2 show ?thesis by simp
  next
    case False
    then have il: "i = length zs" using i by (simp add: ys)
    have b: "butlast (ys[i := last ys]) = zs"
      using il by (simp add: ys)
    have yi: "ys ! i = l" using il by (simp add: ys)
    have "set zs = set ys - {l}" using ln by (auto simp: ys)
    with b dz yi show ?thesis by simp
  qed
  from both show "distinct (butlast (ys[i := last ys]))" by simp
  from both show "set (butlast (ys[i := last ys])) = set ys - {ys ! i}" by simp
qed

lemma upd_ext_fields [simp]:
  "autoExt_pExt (upd_ext i f s) = (autoExt_pExt s)[i := f (autoExt_pExt s ! i)]"
  "autoExt_nExt (upd_ext i f s) = autoExt_nExt s"
  "autoExt_nAlloc (upd_ext i f s) = autoExt_nAlloc s"
  "once (upd_ext i f s) = once s"
  "events (upd_ext i f s) = events s"
  "pending (upd_ext i f s) = pending s"
  "metrics (upd_ext i f s) = metrics s"
  "dbRows (upd_ext i f s) = dbRows s"
  "envRows (upd_ext i f s) = envRows s"
  "perDb_aUsed (upd_ext i f s) = perDb_aUsed s"
  "perDb_aFree (upd_ext i f s) = perDb_aFree s"
  "envCache_aHead (upd_ext i f s) = envCache_aHead s"
  "envCache_aFree (upd_ext i f s) = envCache_aFree s"
  "nativePointer (upd_ext i f s) = nativePointer s"
  "outputValue (upd_ext i f s) = outputValue s"
  by (simp_all add: upd_ext_def)

lemma delete_global_ref_fields [simp]:
  "autoExt_pExt (delete_global_ref v s) = autoExt_pExt s"
  "autoExt_nExt (delete_global_ref v s) = autoExt_nExt s"
  "autoExt_nAlloc (delete_global_ref v s) = autoExt_nAlloc s"
  "once (delete_global_ref v s) = once s"
  "pending (delete_global_ref v s) = pending s"
  "metrics (delete_global_ref v s) = metrics s"
  "dbRows (delete_global_ref v s) = dbRows s"
  "envRows (delete_global_ref v s) = envRows s"
  "perDb_aUsed (delete_global_ref v s) = perDb_aUsed s"
  "perDb_aFree (delete_global_ref v s) = perDb_aFree s"
  "envCache_aHead (delete_global_ref v s) = envCache_aHead s"
  "envCache_aFree (delete_global_ref v s) = envCache_aFree s"
  "nativePointer (delete_global_ref v s) = nativePointer s"
  "outputValue (delete_global_ref v s) = outputValue s"
  "events (delete_global_ref v s) = events s @ (if v \<noteq> 0 then [DeleteGlobalRef v] else [])"
  by (simp_all add: delete_global_ref_def events_emit)

lemma new_global_ref_fields [simp]:
  "fst (new_global_ref v s) = v"
  "autoExt_pExt (snd (new_global_ref v s)) = autoExt_pExt s"
  "autoExt_nExt (snd (new_global_ref v s)) = autoExt_nExt s"
  "autoExt_nAlloc (snd (new_global_ref v s)) = autoExt_nAlloc s"
  "once (snd (new_global_ref v s)) = once s"
  "pending (snd (new_global_ref v s)) = pending s"
  "metrics (snd (new_global_ref v s)) = metrics s"
  "dbRows (snd (new_global_ref v s)) = dbRows s"
  "envRows (snd (new_global_ref v s)) = envRows s"
  "perDb_aUsed (snd (new_global_ref v s)) = perDb_aUsed s"
  "perDb_aFree (snd (new_global_ref v s)) = perDb_aFree s"
  "envCache_aHead (snd (new_global_ref v s)) = envCache_aHead s"
  "envCache_aFree (snd (new_global_ref v s)) = envCache_aFree s"
  "nativePointer (snd (new_global_ref v s)) = nativePointer s"
  "outputValue (snd (new_global_ref v s)) = outputValue s"
  "events (snd (new_global_ref v s)) = events s @ (if v \<noteq> 0 then [NewGlobalRef v] else [])"
  by (simp_all add: new_global_ref_def events_emit)

lemma cancel_scan_miss:
  assumes a: "ax_jObj (autoExt_pExt s ! k) \<noteq> obj \<or> obj = 0"
  shows "cancel_scan (Suc k) obj s = cancel_scan k obj s"
proof -
  have c: "\<not> (ax_jObj (autoExt_pExt s ! k) \<noteq> 0 \<and> ax_jObj (autoExt_pExt s ! k) = obj)"
  proof
    assume h: "ax_jObj (autoExt_pExt s ! k) \<noteq> 0 \<and> ax_jObj (autoExt_pExt s ! k) = obj"
    from h have h1: "ax_jObj (autoExt_pExt s ! k) \<noteq> 0" by (rule conjunct1)
    from h have h2: "ax_jObj (autoExt_pExt s ! k) = obj" by (rule conjunct2)
    from a show False
    proof
      assume "ax_jObj (autoExt_pExt s ! k) \<noteq> obj"
      with h2 show False by (rule_tac notE)
    next
      assume "obj = 0"
      with h2 have "ax_jObj (autoExt_pExt s ! k) = 0" by (rule_tac trans)
      with h1 show False by (rule_tac notE)
    qed
  qed
  show ?thesis
    by (simp only: cancel_scan.simps(2) if_not_P [OF c])
qed


lemma cancel_scan_none:
  assumes a: "\<And>j. j < k \<Longrightarrow> ax_jObj (autoExt_pExt s ! j) \<noteq> obj \<or> obj = 0"
  shows "cancel_scan k obj s = (False, s)"
  using a
proof (induction k)
  case 0
  show ?case by (rule cancel_scan.simps(1))
next
  case (Suc k)
  have b: "cancel_scan k obj s = (False, s)"
  proof (rule Suc.IH)
    fix j assume "j < k"
    then have "j < Suc k" by (rule less_SucI)
    then show "ax_jObj (autoExt_pExt s ! j) \<noteq> obj \<or> obj = 0" by (rule Suc.prems)
  qed
  have "cancel_scan (Suc k) obj s = cancel_scan k obj s"
    by (rule cancel_scan_miss, rule Suc.prems, rule lessI)
  with b show ?case by (rule_tac trans)
qed

lemma cancel_scan_skip:
  assumes ik: "i < k"
    and a: "\<And>j. i < j \<Longrightarrow> j < k \<Longrightarrow> ax_jObj (autoExt_pExt s ! j) \<noteq> obj"
  shows "cancel_scan k obj s = cancel_scan (Suc i) obj s"
  using ik a
proof (induction k)
  case 0
  then show ?case by (rule_tac FalseE) (rule less_zeroE)
next
  case (Suc k)
  show ?case
  proof (cases "i = k")
    case True
    then show ?thesis by (rule_tac arg_cong [of "Suc k" "Suc i" "\<lambda>n. cancel_scan n obj s"]) (rule_tac arg_cong [of k i Suc], rule sym)
  next
    case False
    from Suc.prems(1) have "i < k \<or> i = k" by (rule less_SucE) (rule disjI1, assumption, rule disjI2, assumption)
    with False have ik: "i < k" by (rule_tac disjE) (assumption, assumption, rule_tac notE)
    have b: "cancel_scan k obj s = cancel_scan (Suc i) obj s"
    proof (rule Suc.IH [OF ik])
      fix j assume ij: "i < j" and "j < k"
      then have "j < Suc k" by (rule_tac less_SucI)
      with ij show "ax_jObj (autoExt_pExt s ! j) \<noteq> obj" by (rule Suc.prems(2))
    qed
    have "ax_jObj (autoExt_pExt s ! k) \<noteq> obj"
      by (rule Suc.prems(2) [OF ik lessI])
    then have "cancel_scan (Suc k) obj s = cancel_scan k obj s"
      by (rule_tac cancel_scan_miss) (rule disjI1)
    with b show ?thesis by (rule_tac trans)
  qed
qed

lemma swap_remove_take:
  assumes i: "i < n" and n: "n \<le> length xs"
  shows "take (n - 1) (((xs[i := z])[i := (xs[i := z]) ! (n - 1)])[n - 1 := z])
         = butlast ((take n xs)[i := last (take n xs)])"
proof (rule nth_equalityI)
  show "length (take (n - 1) (((xs[i := z])[i := (xs[i := z]) ! (n - 1)])[n - 1 := z]))
        = length (butlast ((take n xs)[i := last (take n xs)]))"
    using i n by simp
next
  fix j
  assume "j < length (take (n - 1) (((xs[i := z])[i := (xs[i := z]) ! (n - 1)])[n - 1 := z]))"
  then have j: "j < n - 1" by simp
  have ne: "take n xs \<noteq> []" using i n by auto
  have l: "last (take n xs) = xs ! (n - 1)"
    using i n last_conv_nth [OF ne] by (simp add: min_def)
  show "take (n - 1) (((xs[i := z])[i := (xs[i := z]) ! (n - 1)])[n - 1 := z]) ! j
        = butlast ((take n xs)[i := last (take n xs)]) ! j"
    using i n j by (simp add: l nth_butlast nth_list_update)
qed

lemma cancel_scan_hit:
  assumes a: "ax_jObj (autoExt_pExt s ! i) = obj" and z: "obj \<noteq> 0"
  shows "cancel_scan (Suc i) obj s =
           (True, s\<lparr>events := events s @ [DeleteGlobalRef obj],
                    autoExt_nExt := autoExt_nExt s - 1,
                    autoExt_pExt :=
                      (((autoExt_pExt s)[i := S3JniAutoExtension_zero])
                         [i := ((autoExt_pExt s)[i := S3JniAutoExtension_zero]) ! (autoExt_nExt s - 1)])
                         [autoExt_nExt s - 1 := S3JniAutoExtension_zero]\<rparr>)"
  using a z
  by (simp add: S3JniAutoExtension_clear_def upd_ext_def delete_global_ref_def emit_def Let_def)


lemma map_swap_remove:
  assumes "ys \<noteq> []"
  shows "map f (butlast (ys[i := last ys])) = butlast ((map f ys)[i := last (map f ys)])"
  using assms by (simp add: map_butlast map_update last_map)

lemma cancel_hit_state:
  assumes inv: "autoExt_inv s" and i: "i < autoExt_nExt s"
    and s1: "s1 = s\<lparr>events := events s @ [DeleteGlobalRef obj],
                    autoExt_nExt := autoExt_nExt s - 1,
                    autoExt_pExt :=
                      (((autoExt_pExt s)[i := S3JniAutoExtension_zero])
                         [i := ((autoExt_pExt s)[i := S3JniAutoExtension_zero]) ! (autoExt_nExt s - 1)])
                         [autoExt_nExt s - 1 := S3JniAutoExtension_zero]\<rparr>"
  shows "active s1 = butlast ((active s)[i := last (active s)])"
    and "autoExt_inv s1"
    and "set (map ax_jObj (active s1)) = set (map ax_jObj (active s)) - {ax_jObj (autoExt_pExt s ! i)}"
proof -
  from inv have n: "autoExt_nExt s \<le> length (autoExt_pExt s)"
    and d: "distinct (map ax_jObj (active s))"
    and z: "0 \<notin> set (map ax_jObj (active s))"
    and na: "autoExt_nAlloc s = length (autoExt_pExt s)"
    by (simp_all add: autoExt_inv_def)
  show a: "active s1 = butlast ((active s)[i := last (active s)])"
    unfolding active_def s1 using swap_remove_take [OF i n] by simp
  have len: "length (active s) = autoExt_nExt s" using n by (simp add: active_def)
  have ne: "active s \<noteq> []" using len i by auto
  have il: "i < length (map ax_jObj (active s))" using len i by simp
  have m: "map ax_jObj (active s1)
           = butlast ((map ax_jObj (active s))[i := last (map ax_jObj (active s))])"
    unfolding a by (rule map_swap_remove [OF ne])
  have nth: "map ax_jObj (active s) ! i = ax_jObj (autoExt_pExt s ! i)"
    using i len by (simp add: active_def)
  show st: "set (map ax_jObj (active s1)) = set (map ax_jObj (active s)) - {ax_jObj (autoExt_pExt s ! i)}"
    unfolding m using swap_remove(2) [OF d il] nth by simp
  have d1: "distinct (map ax_jObj (active s1))"
    unfolding m by (rule swap_remove(1) [OF d il])
  have z1: "0 \<notin> set (map ax_jObj (active s1))"
    using st z by blast
  have f: "autoExt_nAlloc s1 = length (autoExt_pExt s1)" "autoExt_nExt s1 \<le> autoExt_nAlloc s1"
    using na n by (simp_all add: s1)
  show "autoExt_inv s1"
    unfolding autoExt_inv_def using f d1 z1 by blast
qed


lemma autoExt_inv_metrics: "autoExt_inv (upd_metrics f s) = autoExt_inv s"
  by (simp add: autoExt_inv_def active_def)

lemma active_metrics: "active (upd_metrics f s) = active s"
  by (simp add: active_def)

lemma cancel_registered:
  assumes inv: "autoExt_inv s" and i: "i < autoExt_nExt s"
    and ob: "ax_jObj (autoExt_pExt s ! i) = obj"
  shows "\<exists>s1. cancel_auto_extension obj s = (True, s1)
           \<and> autoExt_nExt s1 = autoExt_nExt s - 1
           \<and> active s1 = butlast ((active s)[i := last (active s)])
           \<and> set (map ax_jObj (active s1)) = set (map ax_jObj (active s)) - {obj}
           \<and> events s1 = events s @ [DeleteGlobalRef obj]
           \<and> autoExt_inv s1"
proof -
  define s0 where "s0 = upd_metrics (\<lambda>c. c\<lparr>nMutexAutoExt := nMutexAutoExt c + 1\<rparr>) s"
  have inv0: "autoExt_inv s0" using inv by (simp add: s0_def autoExt_inv_metrics)
  have i0: "i < autoExt_nExt s0" using i by (simp add: s0_def)
  have ob0: "ax_jObj (autoExt_pExt s0 ! i) = obj" using ob by (simp add: s0_def)
  from inv0 have n: "autoExt_nExt s0 \<le> length (autoExt_pExt s0)"
    and d: "distinct (map ax_jObj (active s0))"
    and z: "0 \<notin> set (map ax_jObj (active s0))"
    by (simp_all add: autoExt_inv_def)
  have len: "length (active s0) = autoExt_nExt s0" using n by (simp add: active_def)
  have nth: "\<And>j. j < autoExt_nExt s0 \<Longrightarrow> map ax_jObj (active s0) ! j = ax_jObj (autoExt_pExt s0 ! j)"
    using len by (simp add: active_def)
  have "map ax_jObj (active s0) ! i \<in> set (map ax_jObj (active s0))"
    using len i0 by (intro nth_mem) simp
  then have oz: "obj \<noteq> 0" using z nth [OF i0] ob0 by metis
  have others: "\<And>j. i < j \<Longrightarrow> j < autoExt_nExt s0 \<Longrightarrow> ax_jObj (autoExt_pExt s0 ! j) \<noteq> obj"
  proof
    fix j assume ij: "i < j" and jn: "j < autoExt_nExt s0" and e: "ax_jObj (autoExt_pExt s0 ! j) = obj"
    have "map ax_jObj (active s0) ! i = map ax_jObj (active s0) ! j"
      using nth [OF i0] nth [OF jn] ob0 e by simp
    moreover have "i < length (map ax_jObj (active s0))" "j < length (map ax_jObj (active s0))"
      using len i0 jn by simp_all
    ultimately have "i = j"
      using nth_eq_iff_index_eq [OF d] by blast
    with ij show False by simp
  qed
  define s1 where "s1 = s0\<lparr>events := events s0 @ [DeleteGlobalRef obj],
                    autoExt_nExt := autoExt_nExt s0 - 1,
                    autoExt_pExt :=
                      (((autoExt_pExt s0)[i := S3JniAutoExtension_zero])
                         [i := ((autoExt_pExt s0)[i := S3JniAutoExtension_zero]) ! (autoExt_nExt s0 - 1)])
                         [autoExt_nExt s0 - 1 := S3JniAutoExtension_zero]\<rparr>"
  have nn: "autoExt_nExt s = autoExt_nExt s0" by (simp add: s0_def)
  have "cancel_auto_extension obj s = cancel_scan (autoExt_nExt s0) obj s0"
    unfolding cancel_auto_extension_def s0_def [symmetric] nn by (rule refl)
  also have "\<dots> = cancel_scan (Suc i) obj s0"
    by (rule cancel_scan_skip [OF i0 others])
  also have "\<dots> = (True, s1)"
    unfolding s1_def by (rule cancel_scan_hit [OF ob0 oz])
  finally have c: "cancel_auto_extension obj s = (True, s1)" .
  note h = cancel_hit_state [OF inv0 i0 s1_def]
  have a: "active s1 = butlast ((active s)[i := last (active s)])"
    using h(1) by (simp add: s0_def active_metrics)
  have st: "set (map ax_jObj (active s1)) = set (map ax_jObj (active s)) - {obj}"
    using h(3) ob0 by (simp add: s0_def active_metrics)
  have ev: "events s1 = events s @ [DeleteGlobalRef obj]"
    by (simp add: s1_def s0_def)
  have ne: "autoExt_nExt s1 = autoExt_nExt s - 1"
    by (simp add: s1_def s0_def)
  show ?thesis
    using c a st ev ne h(2) by blast
qed

lemma cancel_unregistered:
  assumes inv: "autoExt_inv s" and no: "obj \<notin> set (map ax_jObj (active s))"
  shows "cancel_auto_extension obj s
         = (False, upd_metrics (\<lambda>c. c\<lparr>nMutexAutoExt := nMutexAutoExt c + 1\<rparr>) s)"
proof -
  define s0 where "s0 = upd_metrics (\<lambda>c. c\<lparr>nMutexAutoExt := nMutexAutoExt c + 1\<rparr>) s"
  from inv have n: "autoExt_nExt s \<le> length (autoExt_pExt s)"
    by (simp add: autoExt_inv_def)
  have "\<And>j. j < autoExt_nExt s0 \<Longrightarrow> ax_jObj (autoExt_pExt s0 ! j) \<noteq> obj \<or> obj = 0"
  proof (rule disjI1, rule notI)
    fix j assume j: "j < autoExt_nExt s0" and e: "ax_jObj (autoExt_pExt s0 ! j) = obj"
    have jl: "j < length (active s)" using j n by (simp add: s0_def active_def)
    have "map ax_jObj (active s) ! j = obj"
      using j e jl by (simp add: s0_def active_def)
    moreover have "map ax_jObj (active s) ! j \<in> set (map ax_jObj (active s))"
      using jl by (intro nth_mem) simp
    ultimately show False using no by metis
  qed
  then have "cancel_scan (autoExt_nExt s0) obj s0 = (False, s0)"
    by (rule cancel_scan_none)
  then show ?thesis
    unfolding cancel_auto_extension_def s0_def by simp
qed


text \<open>
  Claim C5.  In a state where the auto-extension array is well formed (the active
  entries hold distinct, non-null callback objects, as registration leaves them) and
  the object \<open>obj\<close> is registered at index \<open>i\<close>,
  \<^verbatim>\<open>sqlite3_cancel_auto_extension\<close> returns true, releases the reference of that one
  entry, decreases the number of active entries by exactly one and overwrites slot
  \<open>i\<close> with the entry that was last: the active entries afterwards are those from
  before with slot \<open>i\<close> set to the last entry and the last entry dropped, that is,
  exactly the entries for objects other than \<open>obj\<close>.  A second cancel of \<open>obj\<close>
  returns false and leaves the array, the count and the event log as they were.
\<close>

theorem cancel_auto_extension_swap_remove:
  assumes inv: "autoExt_inv s" and i: "i < autoExt_nExt s"
    and ob: "ax_jObj (autoExt_pExt s ! i) = obj"
  shows "\<exists>s1 s2. cancel_auto_extension obj s = (True, s1)
           \<and> Suc (autoExt_nExt s1) = autoExt_nExt s
           \<and> active s1 = butlast ((active s)[i := last (active s)])
           \<and> set (map ax_jObj (active s1)) = set (map ax_jObj (active s)) - {obj}
           \<and> events s1 = events s @ [DeleteGlobalRef obj]
           \<and> cancel_auto_extension obj s1 = (False, s2)
           \<and> autoExt_nExt s2 = autoExt_nExt s1
           \<and> autoExt_pExt s2 = autoExt_pExt s1
           \<and> events s2 = events s1"
proof -
  from cancel_registered [OF inv i ob] obtain s1 where
    c: "cancel_auto_extension obj s = (True, s1)"
    and n: "autoExt_nExt s1 = autoExt_nExt s - 1"
    and a: "active s1 = butlast ((active s)[i := last (active s)])"
    and st: "set (map ax_jObj (active s1)) = set (map ax_jObj (active s)) - {obj}"
    and ev: "events s1 = events s @ [DeleteGlobalRef obj]"
    and inv1: "autoExt_inv s1"
    by blast
  define s2 where "s2 = upd_metrics (\<lambda>c. c\<lparr>nMutexAutoExt := nMutexAutoExt c + 1\<rparr>) s1"
  have no: "obj \<notin> set (map ax_jObj (active s1))" unfolding st by blast
  have c2: "cancel_auto_extension obj s1 = (False, s2)"
    unfolding s2_def by (rule cancel_unregistered [OF inv1 no])
  have n': "Suc (autoExt_nExt s1) = autoExt_nExt s" using n i by simp
  have f: "autoExt_nExt s2 = autoExt_nExt s1" "autoExt_pExt s2 = autoExt_pExt s1"
    "events s2 = events s1"
    by (simp_all add: s2_def)
  show ?thesis
    using c n' a st ev c2 f by blast
qed

theorem cancel_auto_extension_swap_remove_witness:
  "autoExt_inv (S3JniGlobal_init\<lparr>autoExt_pExt :=
       [\<lparr>ax_jObj = 5, midFunc = 1\<rparr>, \<lparr>ax_jObj = 6, midFunc = 2\<rparr>, \<lparr>ax_jObj = 7, midFunc = 3\<rparr>],
       autoExt_nAlloc := 3, autoExt_nExt := 3\<rparr>)
   \<and> (\<exists>s1 s2. cancel_auto_extension 5 (S3JniGlobal_init\<lparr>autoExt_pExt :=
         [\<lparr>ax_jObj = 5, midFunc = 1\<rparr>, \<lparr>ax_jObj = 6, midFunc = 2\<rparr>, \<lparr>ax_jObj = 7, midFunc = 3\<rparr>],
         autoExt_nAlloc := 3, autoExt_nExt := 3\<rparr>) = (True, s1)
        \<and> Suc (autoExt_nExt s1) = 3
        \<and> active s1 = [\<lparr>ax_jObj = 7, midFunc = 3\<rparr>, \<lparr>ax_jObj = 6, midFunc = 2\<rparr>]
        \<and> set (map ax_jObj (active s1)) = {6, 7}
        \<and> events s1 = [DeleteGlobalRef 5]
        \<and> cancel_auto_extension 5 s1 = (False, s2)
        \<and> autoExt_nExt s2 = autoExt_nExt s1
        \<and> autoExt_pExt s2 = autoExt_pExt s1
        \<and> events s2 = events s1)"
  using cancel_auto_extension_swap_remove [of "S3JniGlobal_init\<lparr>autoExt_pExt :=
       [\<lparr>ax_jObj = 5, midFunc = 1\<rparr>, \<lparr>ax_jObj = 6, midFunc = 2\<rparr>, \<lparr>ax_jObj = 7, midFunc = 3\<rparr>],
       autoExt_nAlloc := 3, autoExt_nExt := 3\<rparr>" 0 5]
  by (simp add: autoExt_inv_def active_def S3JniGlobal_init_def)

lemma with_db_found:
  "S3JniDb_for_db jDbObj 0 s = Some (ps, s0) \<Longrightarrow> with_db jDbObj s body = Some (body ps s0)"
  by (simp add: with_db_def)

lemma S3JniHook_unref_effect:
  "S3JniHook_unref jm ps k dx s =
     s\<lparr>dbRows := (dbRows s)(ps := (dbRows s ps)\<lparr>hooks := (hooks (dbRows s ps))(k := S3JniHook_zero)\<rparr>),
       events := events s
         @ (if dx \<and> jObj (hooks (dbRows s ps) k) \<noteq> 0
               \<and> jm (jObj (hooks (dbRows s ps) k)) ''xDestroy'' ''()V'' \<noteq> 0
            then [Call_xDestroy (jObj (hooks (dbRows s ps) k))] else [])
         @ (if jObj (hooks (dbRows s ps) k) \<noteq> 0
            then [DeleteGlobalRef (jObj (hooks (dbRows s ps) k))] else []),
       metrics := (if dx \<and> jObj (hooks (dbRows s ps) k) \<noteq> 0
               \<and> jm (jObj (hooks (dbRows s ps) k)) ''xDestroy'' ''()V'' \<noteq> 0
            then (metrics s)\<lparr>nDestroy := nDestroy (metrics s) + 1\<rparr> else metrics s),
       pending := (if dx \<and> jObj (hooks (dbRows s ps) k) \<noteq> 0
               \<and> jm (jObj (hooks (dbRows s ps) k)) ''xDestroy'' ''()V'' = 0
            then None else pending s)\<rparr>"
  by (simp add: S3JniHook_unref_def s3jni_call_xDestroy_def GetMethodID_def ExceptionClear_def
      delete_global_ref_def emit_def upd_db_def Let_def)


lemma ext_loop_run:
  assumes nz: "\<forall>k<autoExt_nExt s. ax_jObj (autoExt_pExt s ! k) \<noteq> 0"
  shows "events (snd (snd (ext_loop cb w i s)))
           = events s @ map (\<lambda>k. CallIntMethod (ax_jObj (autoExt_pExt s ! k))
                                  (midFunc (autoExt_pExt s ! k)) [w])
               (take (Suc (length (takeWhile (\<lambda>k. call_threw (cb k) = None \<and> call_rv (cb k) = 0)
                                     [i..<autoExt_nExt s])))
                  [i..<autoExt_nExt s])
         \<and> fst (ext_loop cb w i s)
           = (case dropWhile (\<lambda>k. call_threw (cb k) = None \<and> call_rv (cb k) = 0)
                     [i..<autoExt_nExt s] of
                [] \<Rightarrow> 0
              | k # ks \<Rightarrow> if call_threw (cb k) \<noteq> None \<and> call_rv (cb k) = 0
                          then SQLITE_ERROR else call_rv (cb k))
         \<and> nativePointer (snd (snd (ext_loop cb w i s))) = nativePointer s
         \<and> dbRows (snd (snd (ext_loop cb w i s))) = dbRows s
         \<and> envRows (snd (snd (ext_loop cb w i s))) = envRows s
         \<and> autoExt_pExt (snd (snd (ext_loop cb w i s))) = autoExt_pExt s
         \<and> autoExt_nExt (snd (snd (ext_loop cb w i s))) = autoExt_nExt s"
  using nz
proof (induction cb w i s rule: ext_loop.induct)
  case (1 cb w i s)
  show ?case
  proof (cases "i \<ge> autoExt_nExt s")
    case True
    then show ?thesis
      by (subst (1 2 3 4 5 6 7) ext_loop.simps) simp
  next
    case False
    then have lt: "i < autoExt_nExt s" by simp
    have az: "ax_jObj (autoExt_pExt s ! i) \<noteq> 0" using "1.prems" lt by blast
    have up: "[i..<autoExt_nExt s] = i # [Suc i..<autoExt_nExt s]"
      using lt by (rule upt_conv_Cons)
    define s1 where "s1 = upd_metrics (\<lambda>c. c\<lparr>nMutexAutoExt := nMutexAutoExt c + 1\<rparr>) s"
    define s2 where "s2 = (emit (CallIntMethod (ax_jObj (autoExt_pExt s1 ! i))
                             (midFunc (autoExt_pExt s1 ! i)) [w]) s1)
                          \<lparr>pending := call_threw (cb i)\<rparr>"
    have f2: "autoExt_pExt s2 = autoExt_pExt s" "autoExt_nExt s2 = autoExt_nExt s"
      "nativePointer s2 = nativePointer s" "dbRows s2 = dbRows s" "envRows s2 = envRows s"
      "events s2 = events s @ [CallIntMethod (ax_jObj (autoExt_pExt s ! i))
                             (midFunc (autoExt_pExt s ! i)) [w]]"
      "pending s2 = call_threw (cb i)"
      by (simp_all add: s2_def s1_def emit_def)
    show ?thesis
    proof (cases "call_threw (cb i) = None \<and> call_rv (cb i) = 0")
      case True
      have e: "ext_loop cb w i s = ext_loop cb w (i + 1) s2"
        using lt az True
        by (subst ext_loop.simps) (simp add: Let_def s2_def s1_def)
      have az1: "ax_jObj (autoExt_pExt s1 ! i) \<noteq> 0" using az by (simp add: s1_def)
      have ps: "pending s2 = None" using True f2 by simp
      have rv: "\<not> call_rv (cb i) \<noteq> 0" using True by simp
      have nz2: "\<forall>k<autoExt_nExt s2. ax_jObj (autoExt_pExt s2 ! k) \<noteq> 0"
        using "1.prems" f2 by simp
      note ih = "1.IH"(1) [OF False s1_def refl az1 s2_def [unfolded s1_def [symmetric]] ps rv nz2]
      show ?thesis
        unfolding e using ih True by (simp add: f2 up)
    next
      case False
      then show ?thesis
        using lt az
        by (subst (1 2 3 4 5 6 7) ext_loop.simps)
           (auto simp add: Let_def up emit_def ExceptionClear_def split: option.splits)
    qed
  qed
qed

lemma db_links_upd_metrics [simp]:
  "db_nx (upd_metrics f s) = db_nx s" "db_pv (upd_metrics f s) = db_pv s"
  by (simp_all add: db_nx_eq db_pv_eq)

lemma handles_upd_metrics [simp]: "handles (upd_metrics f s) us = handles s us"
  by (simp add: handles_def)

lemma perDb_inv_metrics [simp]:
  "perDb_inv (upd_metrics f s) us fs = perDb_inv s us fs"
  by (simp add: perDb_inv_def)

lemma db_unlink_props:
  assumes r0: "r \<noteq> 0" and nr: "db_nx s r \<noteq> r" and pr: "db_pv s r \<noteq> r"
  shows "perDb_aUsed (db_unlink r s)
           = (if db_pv s r = 0 \<and> perDb_aUsed s = r then db_nx s r else perDb_aUsed s)"
    and "perDb_aFree (db_unlink r s) = perDb_aFree s"
    and "db_nx (db_unlink r s) y = (if y = db_pv s r \<and> y \<noteq> 0 then db_nx s r else db_nx s y)"
    and "db_pv (db_unlink r s) y = (if y = db_nx s r \<and> y \<noteq> 0 then db_pv s r else db_pv s y)"
    and "pDb (dbRows (db_unlink r s) y) = pDb (dbRows s y)"
    and "jDb (dbRows (db_unlink r s) y) = jDb (dbRows s y)"
    and "hooks (dbRows (db_unlink r s) y) = hooks (dbRows s y)"
    and "events (db_unlink r s) = events s"
    and "envRows (db_unlink r s) = envRows s"
    and "nativePointer (db_unlink r s) = nativePointer s"
    and "outputValue (db_unlink r s) = outputValue s"
  using assms
  by (simp_all add: db_unlink_def Let_def db_nx_def db_pv_def)

lemma S3JniHook_unref_props:
  "perDb_aUsed (S3JniHook_unref jm p k dx s) = perDb_aUsed s"
  "perDb_aFree (S3JniHook_unref jm p k dx s) = perDb_aFree s"
  "db_nx (S3JniHook_unref jm p k dx s) = db_nx s"
  "db_pv (S3JniHook_unref jm p k dx s) = db_pv s"
  "pDb (dbRows (S3JniHook_unref jm p k dx s) y) = pDb (dbRows s y)"
  "jDb (dbRows (S3JniHook_unref jm p k dx s) y) = jDb (dbRows s y)"
  "hooks (dbRows (S3JniHook_unref jm p k dx s) y) k'
     = (if y = p \<and> k' = k then S3JniHook_zero else hooks (dbRows s y) k')"
  "envRows (S3JniHook_unref jm p k dx s) = envRows s"
  "nativePointer (S3JniHook_unref jm p k dx s) = nativePointer s"
  "outputValue (S3JniHook_unref jm p k dx s) = outputValue s"
  by (simp_all add: S3JniHook_unref_effect db_nx_eq db_pv_eq fun_eq_iff)

lemma db_clear_props:
  "perDb_aUsed (db_clear jm p s) = perDb_aUsed s"
  "perDb_aFree (db_clear jm p s) = perDb_aFree s"
  "db_nx (db_clear jm p s) = db_nx s"
  "db_pv (db_clear jm p s) = db_pv s"
  "pDb (dbRows (db_clear jm p s) y) = pDb (dbRows s y)"
  "hooks (dbRows (db_clear jm p s) y) k
     = (if y = p then S3JniHook_zero else hooks (dbRows s y) k)"
  "envRows (db_clear jm p s) = envRows s"
  "nativePointer (db_clear jm p s) = nativePointer s"
  "outputValue (db_clear jm p s) = outputValue s"
proof -
  show "perDb_aUsed (db_clear jm p s) = perDb_aUsed s"
    by (simp add: db_clear_def Let_def S3JniHook_unref_props)
  show "perDb_aFree (db_clear jm p s) = perDb_aFree s"
    by (simp add: db_clear_def Let_def S3JniHook_unref_props)
  show "db_nx (db_clear jm p s) = db_nx s"
    by (simp add: db_clear_def Let_def S3JniHook_unref_props db_nx_eq [of "delete_global_ref _ _"])
       (simp add: db_nx_eq [symmetric] S3JniHook_unref_props)
  show "db_pv (db_clear jm p s) = db_pv s"
    by (simp add: db_clear_def Let_def S3JniHook_unref_props db_pv_eq [of "delete_global_ref _ _"])
       (simp add: db_pv_eq [symmetric] S3JniHook_unref_props)
  show "pDb (dbRows (db_clear jm p s) y) = pDb (dbRows s y)"
    by (simp add: db_clear_def Let_def S3JniHook_unref_props)
  show "hooks (dbRows (db_clear jm p s) y) k
     = (if y = p then S3JniHook_zero else hooks (dbRows s y) k)"
    by (cases k) (simp_all add: db_clear_def Let_def S3JniHook_unref_props)
  show "envRows (db_clear jm p s) = envRows s"
    by (simp add: db_clear_def Let_def S3JniHook_unref_props)
  show "nativePointer (db_clear jm p s) = nativePointer s"
    by (simp add: db_clear_def Let_def S3JniHook_unref_props)
  show "outputValue (db_clear jm p s) = outputValue s"
    by (simp add: db_clear_def Let_def S3JniHook_unref_props)
qed

lemma db_set_free_props:
  assumes r0: "r \<noteq> 0" and fr: "perDb_aFree s \<noteq> r"
  shows "perDb_aUsed (db_set_free r s) = perDb_aUsed s"
    and "perDb_aFree (db_set_free r s) = r"
    and "db_nx (db_set_free r s) y = (if y = r then perDb_aFree s else db_nx s y)"
    and "db_pv (db_set_free r s) y =
           (if y = r then 0 else if y = perDb_aFree s \<and> y \<noteq> 0 then r else db_pv s y)"
    and "pDb (dbRows (db_set_free r s) y) = (if y = r then 0 else pDb (dbRows s y))"
    and "jDb (dbRows (db_set_free r s) y) = (if y = r then 0 else jDb (dbRows s y))"
    and "hooks (dbRows (db_set_free r s) y) k
           = (if y = r then S3JniHook_zero else hooks (dbRows s y) k)"
    and "dbRows (db_set_free r s) r = S3JniDb_zero\<lparr>pNext := perDb_aFree s\<rparr>"
    and "envRows (db_set_free r s) = envRows s"
    and "nativePointer (db_set_free r s) = nativePointer s"
    and "outputValue (db_set_free r s) = outputValue s"
    and "events (db_set_free r s) = events s"
  using assms
  by (simp_all add: db_set_free_def Let_def db_nx_def db_pv_def S3JniDb_zero_def)

lemma handles_append: "handles s (as @ bs) = handles s as @ handles s bs"
  by (simp add: handles_def)

lemma handles_Cons:
  "handles s (p # bs) = (if pDb (dbRows s p) \<noteq> 0 then [pDb (dbRows s p)] else []) @ handles s bs"
  by (simp add: handles_def)

lemma handles_cong:
  "(\<And>q. q \<in> set us \<Longrightarrow> pDb (dbRows s' q) = pDb (dbRows s q)) \<Longrightarrow> handles s' us = handles s us"
  unfolding handles_def by (induction us) auto

lemma set_aside_inv:
  assumes inv: "perDb_inv s us fs" and pin: "p \<in> set us"
  shows "perDb_inv (S3JniDb_set_aside jm p s) (remove1 p us) (p # fs)"
    and "dbRows (S3JniDb_set_aside jm p s) p = S3JniDb_zero\<lparr>pNext := perDb_aFree s\<rparr>"
    and "\<And>q. q \<noteq> p \<Longrightarrow> pDb (dbRows (S3JniDb_set_aside jm p s) q) = pDb (dbRows s q)"
    and "\<And>q k. q \<noteq> p \<Longrightarrow> hooks (dbRows (S3JniDb_set_aside jm p s) q) k = hooks (dbRows s q) k"
    and "envRows (S3JniDb_set_aside jm p s) = envRows s"
    and "nativePointer (S3JniDb_set_aside jm p s) = nativePointer s"
    and "outputValue (S3JniDb_set_aside jm p s) = outputValue s"
proof -
  from inv have u: "dll (db_nx s) (db_pv s) (perDb_aUsed s) us"
    and f: "dll (db_nx s) (db_pv s) (perDb_aFree s) fs"
    and d: "distinct (us @ fs)"
    and dh: "distinct (handles s us)"
    by (simp_all add: perDb_inv_def)
  from pin obtain as bs where us: "us = as @ p # bs" by (meson split_list)
  have d3: "distinct (as @ p # bs @ fs)" using d us by simp
  then have du: "distinct (as @ p # bs)" by auto
  note M = dll_mid_facts [OF u [unfolded us] du]
  have rn: "p \<notin> set as" "p \<notin> set bs" "p \<notin> set fs" using d3 by auto
  have rm: "remove1 p us = as @ bs" using rn us by (simp add: remove1_append)
  define s0 where "s0 = upd_metrics (\<lambda>c. c\<lparr>nMutexPerDb := nMutexPerDb c + 1\<rparr>) s"
  have Z: "db_nx s0 = db_nx s" "db_pv s0 = db_pv s" "perDb_aFree s0 = perDb_aFree s"
    "perDb_aUsed s0 = perDb_aUsed s" "dbRows s0 = dbRows s" "envRows s0 = envRows s"
    "nativePointer s0 = nativePointer s" "outputValue s0 = outputValue s"
    by (simp_all add: s0_def)
  have nxr: "db_nx s0 p \<noteq> p" using M(2) M(1) rn by (auto simp: Z)
  have pvr: "db_pv s0 p \<noteq> p" using M(3) M(1) rn by (auto simp: Z)
  have hf: "perDb_aFree s = 0 \<or> perDb_aFree s \<in> set fs"
    using f by (cases fs) (auto simp: dll_Cons)
  have hfr: "perDb_aFree s \<noteq> p" using hf M(1) rn by auto
  note U = db_unlink_props [OF M(1) nxr pvr]
  note C = db_clear_props [of jm p "db_unlink p s0"]
  have hfr': "perDb_aFree (db_clear jm p (db_unlink p s0)) \<noteq> p"
    using hfr by (simp add: C U Z)
  note F = db_set_free_props [OF M(1) hfr']
  define s' where "s' = db_set_free p (db_clear jm p (db_unlink p s0))"
  have res: "S3JniDb_set_aside jm p s = s'"
    using M(1) by (simp add: S3JniDb_set_aside_def s'_def s0_def)
  have nx2: "\<And>y. db_nx s' y = (if y = p then perDb_aFree s
               else if y = db_pv s p \<and> y \<noteq> 0 then db_nx s p else db_nx s y)"
    by (simp add: s'_def F C U Z)
  have pv2: "\<And>y. db_pv s' y = (if y = p then 0
               else if y = perDb_aFree s \<and> y \<noteq> 0 then p
               else if y = db_nx s p \<and> y \<noteq> 0 then db_pv s p else db_pv s y)"
    by (simp add: s'_def F C U Z)
  have hd2: "perDb_aUsed s' = (if perDb_aUsed s = p then db_nx s p else perDb_aUsed s)"
    using M(4) by (auto simp add: s'_def F C U Z)
  have fr2: "perDb_aFree s' = p" by (simp add: s'_def F)
  have pd2: "\<And>y. pDb (dbRows s' y) = (if y = p then 0 else pDb (dbRows s y))"
    by (simp add: s'_def F C U Z)
  have hk2: "\<And>y k. hooks (dbRows s' y) k = (if y = p then S3JniHook_zero else hooks (dbRows s y) k)"
    by (simp add: s'_def F C U Z)
  have used: "dll (db_nx s') (db_pv s') (perDb_aUsed s') (as @ bs)"
    unfolding hd2 by (rule dll_move(1) [OF u [unfolded us] f d3 nx2 pv2])
  have free: "dll (db_nx s') (db_pv s') (perDb_aFree s') (p # fs)"
    unfolding fr2 by (rule dll_move(2) [OF u [unfolded us] f d3 nx2 pv2])
  have hs: "handles s' (as @ bs) = handles s (as @ bs)"
    by (rule handles_cong) (use rn in \<open>auto simp: pd2\<close>)
  have dh2: "distinct (handles s' (as @ bs))"
    unfolding hs using dh us by (auto simp: handles_append handles_Cons split: if_splits)
  have dd: "distinct ((as @ bs) @ p # fs)" using d3 by auto
  show "perDb_inv (S3JniDb_set_aside jm p s) (remove1 p us) (p # fs)"
    unfolding res rm perDb_inv_def using used free dd dh2 by blast
  show "dbRows (S3JniDb_set_aside jm p s) p = S3JniDb_zero\<lparr>pNext := perDb_aFree s\<rparr>"
    unfolding res by (simp add: s'_def F C U Z)
  show "\<And>q. q \<noteq> p \<Longrightarrow> pDb (dbRows (S3JniDb_set_aside jm p s) q) = pDb (dbRows s q)"
    unfolding res by (simp add: pd2)
  show "\<And>q k. q \<noteq> p \<Longrightarrow> hooks (dbRows (S3JniDb_set_aside jm p s) q) k = hooks (dbRows s q) k"
    unfolding res by (simp add: hk2)
  show "envRows (S3JniDb_set_aside jm p s) = envRows s"
    unfolding res by (simp add: s'_def F C U Z)
  show "nativePointer (S3JniDb_set_aside jm p s) = nativePointer s"
    unfolding res by (simp add: s'_def F C U Z)
  show "outputValue (S3JniDb_set_aside jm p s) = outputValue s"
    unfolding res by (simp add: s'_def F C U Z)
qed


lemma db_link_props:
  assumes "rv \<noteq> 0" "perDb_aUsed s \<noteq> rv"
  shows "perDb_aUsed (db_link rv db w s) = rv"
    and "perDb_aFree (db_link rv db w s) = perDb_aFree s"
    and "db_nx (db_link rv db w s) y = (if y = rv then perDb_aUsed s else db_nx s y)"
    and "db_pv (db_link rv db w s) y = (if y = perDb_aUsed s \<and> y \<noteq> 0 then rv else db_pv s y)"
    and "pDb (dbRows (db_link rv db w s) y) = (if y = rv then db else pDb (dbRows s y))"
    and "jDb (dbRows (db_link rv db w s) y) = (if y = rv then w else jDb (dbRows s y))"
    and "hooks (dbRows (db_link rv db w s) y) = hooks (dbRows s y)"
    and "events (db_link rv db w s) = events s @ (if w \<noteq> 0 then [NewGlobalRef w] else [])"
    and "envRows (db_link rv db w s) = envRows s"
    and "nativePointer (db_link rv db w s) = nativePointer s"
    and "outputValue (db_link rv db w s) = outputValue s"
  using assms
  by (simp_all add: db_link_def Let_def db_nx_def db_pv_def split_beta)

lemma perDb_inv_link:
  assumes u: "dll (db_nx s) (db_pv s) (perDb_aUsed s) us"
    and f: "dll (db_nx s) (db_pv s) (perDb_aFree s) fs"
    and d: "distinct (us @ fs)"
    and dh: "distinct (handles s us)"
    and nd: "db = 0 \<or> db \<notin> set (handles s us)"
    and r0: "r \<noteq> 0" and rn: "r \<notin> set (us @ fs)" and pv0: "db_pv s r = 0"
  shows "perDb_inv (db_link r db w s) (r # us) fs"
proof -
  let ?s = "db_link r db w s"
  have hr: "perDb_aUsed s \<noteq> r"
  proof (cases us)
    case Nil
    with u r0 show ?thesis by simp
  next
    case (Cons a as)
    with u have "perDb_aUsed s = a" by (simp add: dll_Cons)
    with rn Cons show ?thesis by auto
  qed
  note P = db_link_props [OF r0 hr, of db w]
  have hu: "perDb_aUsed s \<noteq> 0 \<Longrightarrow> perDb_aUsed s \<in> set us"
    using u by (cases us) (auto simp: dll_Cons)
  have used: "dll (db_nx ?s) (db_pv ?s) (perDb_aUsed ?s) (r # us)"
    unfolding P(1)
  proof (rule dll_push_gen [OF u])
    show "distinct us" using d by simp
    show "r \<notin> set us" using rn by simp
    show "r \<noteq> 0" by (rule r0)
    show "db_nx ?s r = perDb_aUsed s" by (simp add: P)
    show "db_pv ?s r = 0" using hr pv0 by (simp add: P)
    show "perDb_aUsed s \<noteq> 0 \<Longrightarrow> db_pv ?s (perDb_aUsed s) = r"
      by (simp add: P)
    show "\<And>y. y \<in> set us \<Longrightarrow> db_nx ?s y = db_nx s y"
      using rn by (auto simp: P)
    show "\<And>y. y \<in> set us \<Longrightarrow> y \<noteq> perDb_aUsed s \<Longrightarrow> db_pv ?s y = db_pv s y"
      by (auto simp: P)
  qed
  have free: "dll (db_nx ?s) (db_pv ?s) (perDb_aFree ?s) fs"
    unfolding P(2)
  proof (rule dll_frame [OF f])
    fix y assume y: "y \<in> set fs"
    then have "y \<noteq> r" using rn by auto
    moreover have "y \<noteq> perDb_aUsed s \<or> y = 0"
      using y d hu by (cases "perDb_aUsed s = 0") auto
    ultimately show "db_nx ?s y = db_nx s y \<and> db_pv ?s y = db_pv s y"
      by (auto simp: P)
  qed
  have hs: "handles ?s us = handles s us"
    by (rule handles_cong) (use rn in \<open>auto simp: P\<close>)
  have "distinct (handles ?s (r # us))"
    unfolding handles_Cons hs using dh nd by (auto simp: P)
  with used free d rn show ?thesis
    unfolding perDb_inv_def by simp
qed


lemma alloc_inv:
  assumes inv: "perDb_inv s us fs"
    and nd: "db = 0 \<or> db \<notin> set (handles s us)"
    and fresh: "fs = [] \<Longrightarrow> m \<noteq> 0 \<and> m \<notin> set us"
    and r: "r = (if fs = [] then m else hd fs)"
  shows "\<exists>s'. S3JniDb_alloc m db w s = Inr (r, s')
           \<and> perDb_inv s' (r # us) (tl fs)
           \<and> pDb (dbRows s' r) = db \<and> jDb (dbRows s' r) = w
           \<and> hooks (dbRows s' r)
               = (if fs = [] then (\<lambda>k. S3JniHook_zero) else hooks (dbRows s r))
           \<and> (\<forall>q. q \<noteq> r \<longrightarrow> pDb (dbRows s' q) = pDb (dbRows s q)
                             \<and> jDb (dbRows s' q) = jDb (dbRows s q)
                             \<and> hooks (dbRows s' q) = hooks (dbRows s q))
           \<and> events s' = events s @ (if w \<noteq> 0 then [NewGlobalRef w] else [])
           \<and> envRows s' = envRows s \<and> nativePointer s' = nativePointer s
           \<and> outputValue s' = outputValue s"
proof -
  from inv have u: "dll (db_nx s) (db_pv s) (perDb_aUsed s) us"
    and f: "dll (db_nx s) (db_pv s) (perDb_aFree s) fs"
    and d: "distinct (us @ fs)"
    and dh: "distinct (handles s us)"
    by (simp_all add: perDb_inv_def)
  show ?thesis
  proof (cases fs)
    case Nil
    define s3 where "s3 = upd_metrics (\<lambda>c. c\<lparr>nPdbAlloc := nPdbAlloc c + 1\<rparr>)
        (upd_db m (\<lambda>r. S3JniDb_zero)
           (upd_metrics (\<lambda>c. c\<lparr>nMutexPerDb := nMutexPerDb c + 1\<rparr>) s))"
    have m: "m \<noteq> 0" "m \<notin> set (us @ fs)" using fresh Nil by auto
    have rm: "r = m" using r Nil by simp
    have fr0: "perDb_aFree s = 0" using f Nil by simp
    have res: "S3JniDb_alloc m db w s = Inr (m, db_link m db w s3)"
      using fr0 m(1) by (simp add: S3JniDb_alloc_def Let_def s3jni_malloc_def s3_def)
    have Z: "perDb_aUsed s3 = perDb_aUsed s" "perDb_aFree s3 = perDb_aFree s"
      "\<And>y. db_nx s3 y = (if y = m then 0 else db_nx s y)"
      "\<And>y. db_pv s3 y = (if y = m then 0 else db_pv s y)"
      "\<And>y. pDb (dbRows s3 y) = (if y = m then 0 else pDb (dbRows s y))"
      "\<And>y. jDb (dbRows s3 y) = (if y = m then 0 else jDb (dbRows s y))"
      "\<And>y. hooks (dbRows s3 y) = (if y = m then (\<lambda>k. S3JniHook_zero) else hooks (dbRows s y))"
      "events s3 = events s" "envRows s3 = envRows s" "nativePointer s3 = nativePointer s"
      "outputValue s3 = outputValue s"
      by (simp_all add: s3_def db_nx_def db_pv_def S3JniDb_zero_def)
    have u3: "dll (db_nx s3) (db_pv s3) (perDb_aUsed s3) us"
      unfolding Z(1) by (rule dll_frame [OF u]) (use m in \<open>auto simp: Z\<close>)
    have f3: "dll (db_nx s3) (db_pv s3) (perDb_aFree s3) fs"
      unfolding Z(2) by (rule dll_frame [OF f]) (use m in \<open>auto simp: Z\<close>)
    have hs: "handles s3 us = handles s us"
      by (rule handles_cong) (use m in \<open>auto simp: Z\<close>)
    have i: "perDb_inv (db_link m db w s3) (m # us) fs"
      by (rule perDb_inv_link [OF u3 f3 d _ _ m(1) m(2)]) (use dh nd in \<open>simp_all add: hs Z\<close>)
    have hr: "perDb_aUsed s3 \<noteq> m"
      using u m by (cases us) (auto simp: dll_Cons Z)
    note P = db_link_props [OF m(1) hr, of db w]
    show ?thesis
      unfolding rm
      by (intro exI [of _ "db_link m db w s3"]) (use res i Nil in \<open>simp add: P Z\<close>)
  next
    case (Cons a fs')
    have a: "perDb_aFree s = a" "a \<noteq> 0" "db_pv s a = 0"
      using f Cons by (simp_all add: dll_Cons)
    have ra: "r = a" using r Cons by simp
    define s3 where "s3 =
      upd_metrics (\<lambda>c. c\<lparr>nPdbRecycled := nPdbRecycled c + 1\<rparr>)
      (let s0 = upd_metrics (\<lambda>c. c\<lparr>nMutexPerDb := nMutexPerDb c + 1\<rparr>) s;
           s1 = s0\<lparr>perDb_aFree := pNext (dbRows s0 a)\<rparr>
       in if pNext (dbRows s1 a) \<noteq> 0
          then upd_db a (\<lambda>r. r\<lparr>pNext := 0\<rparr>)
                 (upd_db (pNext (dbRows s1 a)) (\<lambda>r. r\<lparr>pPrev := 0\<rparr>) s1)
          else s1)"
    have res: "S3JniDb_alloc m db w s = Inr (a, db_link a db w s3)"
      using a by (simp add: S3JniDb_alloc_def Let_def s3_def)
    have an: "a \<notin> set us" "a \<notin> set fs'" "distinct (a # fs')" using d Cons by auto
    have nxa: "db_nx s a = 0 \<or> db_nx s a \<in> set fs'"
      using f Cons by (cases fs') (auto simp: dll_Cons)
    have nxa': "db_nx s a \<noteq> a" using nxa a an by auto
    have Z: "perDb_aUsed s3 = perDb_aUsed s" "perDb_aFree s3 = db_nx s a"
      "\<And>y. db_nx s3 y = (if y = a then 0 else db_nx s y)"
      "\<And>y. db_pv s3 y = (if y = db_nx s a \<and> y \<noteq> 0 then 0 else db_pv s y)"
      "\<And>y. pDb (dbRows s3 y) = pDb (dbRows s y)"
      "\<And>y. jDb (dbRows s3 y) = jDb (dbRows s y)"
      "\<And>y. hooks (dbRows s3 y) = hooks (dbRows s y)"
      "events s3 = events s" "envRows s3 = envRows s" "nativePointer s3 = nativePointer s"
      "outputValue s3 = outputValue s"
      using nxa' by (auto simp add: s3_def Let_def db_nx_def db_pv_def)
    have u3: "dll (db_nx s3) (db_pv s3) (perDb_aUsed s3) us"
      unfolding Z(1)
    proof (rule dll_frame [OF u])
      fix y assume y: "y \<in> set us"
      then have "y \<noteq> db_nx s a \<or> y = 0" using nxa d Cons by auto
      moreover have "y \<noteq> a" using y an by auto
      ultimately show "db_nx s3 y = db_nx s y \<and> db_pv s3 y = db_pv s y"
        by (auto simp: Z)
    qed
    have fl3: "dll (db_nx s3) (db_pv s3) (perDb_aFree s3) fs'"
      unfolding Z(2)
      by (rule dll_pop_gen [OF f [unfolded Cons] an(3)]) (use an in \<open>auto simp add: Z\<close>)
    have hs: "handles s3 us = handles s us"
      by (rule handles_cong) (simp add: Z)
    have pv3: "db_pv s3 a = 0" using a by (simp add: Z)
    have d': "distinct (us @ fs')" using d Cons by simp
    have an': "a \<notin> set (us @ fs')" using an by simp
    have i: "perDb_inv (db_link a db w s3) (a # us) fs'"
      by (rule perDb_inv_link [OF u3 fl3 d' _ _ a(2) an' pv3]) (use dh nd in \<open>simp_all add: hs\<close>)
    have hr: "perDb_aUsed s3 \<noteq> a"
      using u an a(2) by (cases us) (auto simp: dll_Cons Z)
    note P = db_link_props [OF a(2) hr, of db w]
    show ?thesis
      unfolding ra
      by (intro exI [of _ "db_link a db w s3"]) (use res i Cons in \<open>simp add: P Z\<close>)
  qed
qed

lemma upd_nph_fields [simp]:
  "nph (upd_nph r f s) = (nph s)(r := f (nph s r))"
  "dbRows (upd_nph r f s) = dbRows s"
  "envCache_aHead (upd_nph r f s) = envCache_aHead s"
  "envCache_aFree (upd_nph r f s) = envCache_aFree s"
  "envRows (upd_nph r f s) = envRows s"
  "perDb_aUsed (upd_nph r f s) = perDb_aUsed s"
  "perDb_aFree (upd_nph r f s) = perDb_aFree s"
  "autoExt_pExt (upd_nph r f s) = autoExt_pExt s"
  "autoExt_nExt (upd_nph r f s) = autoExt_nExt s"
  "autoExt_nAlloc (upd_nph r f s) = autoExt_nAlloc s"
  "once (upd_nph r f s) = once s"
  "nativePointer (upd_nph r f s) = nativePointer s"
  "outputValue (upd_nph r f s) = outputValue s"
  "pending (upd_nph r f s) = pending s"
  "events (upd_nph r f s) = events s"
  "metrics (upd_nph r f s) = metrics s"
  by (simp_all add: upd_nph_def)

lemma nph_fields [simp]:
  "nph (upd_metrics f s) = nph s"
  "nph (upd_env p g s) = nph s"
  "nph (upd_db p h s) = nph s"
  "nph (emit ev s) = nph s"
  "nph (delete_global_ref v s) = nph s"
  "nph (snd (new_global_ref v s)) = nph s"
  by (simp_all add: upd_metrics_def upd_env_def upd_db_def emit_def delete_global_ref_def
      new_global_ref_def)

lemma jvm_nonzero [simp]: "jvm_field r \<noteq> 0" "jvm_class r \<noteq> 0" "jvm_ctor r \<noteq> 0"
  by (cases r; simp add: jvm_field_def jvm_class_def jvm_ctor_def)+

lemma jvm_positive [simp]: "0 < jvm_field r" "0 < jvm_class r" "0 < jvm_ctor r"
  by (cases r; simp add: jvm_field_def jvm_class_def jvm_ctor_def)+

lemma nph_cache_warm:
  "nph_pRef (nph s r) \<Longrightarrow> S3JniGlobal_nph_cache r s = s"
  by (simp add: S3JniGlobal_nph_cache_def)

lemma getField_warm:
  "nph_warm r s \<Longrightarrow> NativePointerHolder_getField r s = (fidValue (nph s r), s)"
  by (simp add: NativePointerHolder_getField_def nph_warm_def nph_cache_warm Let_def)

lemma NativePointerHolder_get_warm:
  "nph_warm r s \<Longrightarrow>
   NativePointerHolder_get j r s = (if j \<noteq> 0 then nativePointer s j else 0, s)"
  by (simp add: NativePointerHolder_get_def getField_warm)

lemma NativePointerHolder_set_warm:
  "nph_warm r s \<Longrightarrow>
   NativePointerHolder_set j p r s = s\<lparr>nativePointer := (nativePointer s)(j := p)\<rparr>"
  by (simp add: NativePointerHolder_set_def getField_warm)

lemma nph_cache_props:
  "nph_pRef (nph (S3JniGlobal_nph_cache r s) r)"
  "fidValue (nph (S3JniGlobal_nph_cache r s) r) = fidValue (nph s r)"
  "dbRows (S3JniGlobal_nph_cache r s) = dbRows s"
  "envRows (S3JniGlobal_nph_cache r s) = envRows s"
  "perDb_aUsed (S3JniGlobal_nph_cache r s) = perDb_aUsed s"
  "perDb_aFree (S3JniGlobal_nph_cache r s) = perDb_aFree s"
  "envCache_aHead (S3JniGlobal_nph_cache r s) = envCache_aHead s"
  "envCache_aFree (S3JniGlobal_nph_cache r s) = envCache_aFree s"
  "nativePointer (S3JniGlobal_nph_cache r s) = nativePointer s"
  "outputValue (S3JniGlobal_nph_cache r s) = outputValue s"
  "pending (S3JniGlobal_nph_cache r s) = pending s"
  "autoExt_pExt (S3JniGlobal_nph_cache r s) = autoExt_pExt s"
  "autoExt_nExt (S3JniGlobal_nph_cache r s) = autoExt_nExt s"
  "autoExt_nAlloc (S3JniGlobal_nph_cache r s) = autoExt_nAlloc s"
  "events (S3JniGlobal_nph_cache r s)
     = events s @ (if nph_pRef (nph s r) then [] else [NewGlobalRef (jvm_class r)])"
  by (simp_all add: S3JniGlobal_nph_cache_def Let_def split_beta)

lemma getField_props:
  "nph_warm r (snd (NativePointerHolder_getField r s))"
  "dbRows (snd (NativePointerHolder_getField r s)) = dbRows s"
  "envRows (snd (NativePointerHolder_getField r s)) = envRows s"
  "perDb_aUsed (snd (NativePointerHolder_getField r s)) = perDb_aUsed s"
  "perDb_aFree (snd (NativePointerHolder_getField r s)) = perDb_aFree s"
  "envCache_aHead (snd (NativePointerHolder_getField r s)) = envCache_aHead s"
  "envCache_aFree (snd (NativePointerHolder_getField r s)) = envCache_aFree s"
  "nativePointer (snd (NativePointerHolder_getField r s)) = nativePointer s"
  "outputValue (snd (NativePointerHolder_getField r s)) = outputValue s"
  "pending (snd (NativePointerHolder_getField r s)) = pending s"
  "autoExt_pExt (snd (NativePointerHolder_getField r s)) = autoExt_pExt s"
  "autoExt_nExt (snd (NativePointerHolder_getField r s)) = autoExt_nExt s"
  "autoExt_nAlloc (snd (NativePointerHolder_getField r s)) = autoExt_nAlloc s"
  "events (snd (NativePointerHolder_getField r s))
     = events s @ (if nph_pRef (nph s r) then [] else [NewGlobalRef (jvm_class r)])"
  by (simp_all add: NativePointerHolder_getField_def Let_def nph_cache_props nph_warm_def)

lemma NativePointerHolder_get_props:
  "fst (NativePointerHolder_get j r s) = (if j \<noteq> 0 then nativePointer s j else 0)"
  "dbRows (snd (NativePointerHolder_get j r s)) = dbRows s"
  "envRows (snd (NativePointerHolder_get j r s)) = envRows s"
  "perDb_aUsed (snd (NativePointerHolder_get j r s)) = perDb_aUsed s"
  "perDb_aFree (snd (NativePointerHolder_get j r s)) = perDb_aFree s"
  "nativePointer (snd (NativePointerHolder_get j r s)) = nativePointer s"
  "outputValue (snd (NativePointerHolder_get j r s)) = outputValue s"
  "pending (snd (NativePointerHolder_get j r s)) = pending s"
  "events (snd (NativePointerHolder_get j r s))
     = events s @ (if j = 0 \<or> nph_pRef (nph s r) then [] else [NewGlobalRef (jvm_class r)])"
  by (simp_all add: NativePointerHolder_get_def split_beta getField_props)

lemma NativePointerHolder_set_props:
  "nph_warm r (NativePointerHolder_set j p r s)"
  "nativePointer (NativePointerHolder_set j p r s) = (nativePointer s)(j := p)"
  "dbRows (NativePointerHolder_set j p r s) = dbRows s"
  "envRows (NativePointerHolder_set j p r s) = envRows s"
  "perDb_aUsed (NativePointerHolder_set j p r s) = perDb_aUsed s"
  "perDb_aFree (NativePointerHolder_set j p r s) = perDb_aFree s"
  "outputValue (NativePointerHolder_set j p r s) = outputValue s"
  "pending (NativePointerHolder_set j p r s) = pending s"
  "autoExt_pExt (NativePointerHolder_set j p r s) = autoExt_pExt s"
  "autoExt_nExt (NativePointerHolder_set j p r s) = autoExt_nExt s"
  "events (NativePointerHolder_set j p r s)
     = events s @ (if nph_pRef (nph s r) then [] else [NewGlobalRef (jvm_class r)])"
  using getField_props [of r s]
  by (simp_all add: NativePointerHolder_set_def split_beta nph_warm_def)

lemma nph_warm_one_db: "nph_warm r one_db_state"
  by (simp add: nph_warm_def one_db_state_def S3JniGlobal_init_def)

lemma for_db_one_db:
  "S3JniDb_for_db 20 0 one_db_state
   = Some (10, upd_metrics (\<lambda>c. c\<lparr>nMutexPerDb := nMutexPerDb c + 1\<rparr>) one_db_state)"
proof -
  define s0 where "s0 = upd_metrics (\<lambda>c. c\<lparr>nMutexPerDb := nMutexPerDb c + 1\<rparr>) one_db_state"
  have w: "nph_warm Nph_sqlite3 s0"
    using nph_warm_one_db [of Nph_sqlite3] by (simp add: s0_def nph_warm_def)
  have g: "NativePointerHolder_get 20 Nph_sqlite3 s0 = (50, s0)"
    unfolding NativePointerHolder_get_warm [OF w]
    by (simp add: s0_def one_db_state_def S3JniGlobal_init_def)
  have f: "db_find (dbRows s0) 50 (perDb_aUsed s0) = Some 10"
    by (subst db_find.simps) (simp add: s0_def one_db_state_def S3JniGlobal_init_def)
  show ?thesis
    unfolding S3JniDb_for_db_def s0_def [symmetric] using g f by (simp add: Let_def)
qed

text \<open>
  The wrapper \<open>21\<close> has no native pointer (that of a closed connection): the loop of
  \<^verbatim>\<open>S3JniDb_for_db\<close> is not entered and the head of the used-list is the result.
\<close>

lemma for_db_stale:
  "S3JniDb_for_db 21 0 one_db_state
   = Some (10, upd_metrics (\<lambda>c. c\<lparr>nMutexPerDb := nMutexPerDb c + 1\<rparr>) one_db_state)"
proof -
  define s0 where "s0 = upd_metrics (\<lambda>c. c\<lparr>nMutexPerDb := nMutexPerDb c + 1\<rparr>) one_db_state"
  have w: "nph_warm Nph_sqlite3 s0"
    using nph_warm_one_db [of Nph_sqlite3] by (simp add: s0_def nph_warm_def)
  have g: "NativePointerHolder_get 21 Nph_sqlite3 s0 = (0, s0)"
    unfolding NativePointerHolder_get_warm [OF w]
    by (simp add: s0_def one_db_state_def S3JniGlobal_init_def)
  have f: "db_find (dbRows s0) 0 (perDb_aUsed s0) = Some 10"
    by (simp add: db_find_null s0_def one_db_state_def S3JniGlobal_init_def)
  show ?thesis
    unfolding S3JniDb_for_db_def s0_def [symmetric] using g f by (simp add: Let_def)
qed

text \<open>
  Claim C6.  On the example connection, whose tracer is the object \<open>33\<close>, whose
  progress handler is \<open>34\<close> and whose busy handler is \<open>30\<close>: registering the busy
  handler \<open>30\<close> again does nothing, the binding has a same-object test.  The bindings
  of \<^verbatim>\<open>sqlite3_trace_v2\<close> and \<^verbatim>\<open>sqlite3_progress_handler\<close> have none: registering
  the tracer \<open>33\<close> again takes one more global reference and overwrites the stored
  one without releasing it, and registering the progress handler \<open>34\<close> again releases
  the stored reference before taking a new one; both install the proxy with the engine
  once more.
\<close>

theorem same_object_registration:
  "(case busy_handler all_methods 0 20 30 one_db_state of
      Some (rc, s1) \<Rightarrow> (rc, events s1) | None \<Rightarrow> (1, []))
     = (0, [])
   \<and> (case trace_v2 all_methods 0 20 1 33 one_db_state of
      Some (Inr (rc, s1)) \<Rightarrow> (rc, events s1) | _ \<Rightarrow> (1, []))
     = (0, [NewGlobalRef 33, Native_trace_v2 50 1 10])
   \<and> (case progress_handler all_methods 20 100 34 one_db_state of
      Some (Inr s1) \<Rightarrow> events s1 | _ \<Rightarrow> [])
     = [DeleteGlobalRef 34, NewGlobalRef 34, Native_progress_handler 50 100 10]"
proof -
  have a: "(case busy_handler all_methods 0 20 30 one_db_state of
      Some (rc, s1) \<Rightarrow> (rc, events s1) | None \<Rightarrow> (1, [])) = (0, [])"
    unfolding busy_handler_def with_db_found [OF for_db_one_db]
    by (simp add: one_db_state_def S3JniGlobal_init_def upd_metrics_def)
  have b: "(case trace_v2 all_methods 0 20 1 33 one_db_state of
      Some (Inr (rc, s1)) \<Rightarrow> (rc, events s1) | _ \<Rightarrow> (1, []))
     = (0, [NewGlobalRef 33, Native_trace_v2 50 1 10])"
    unfolding trace_v2_def with_db_found [OF for_db_one_db]
    by (simp add: one_db_state_def S3JniGlobal_init_def upd_metrics_def Let_def
        GetMethodID_def all_methods_def set_midCallback_def set_jObj_def upd_db_def
        new_global_ref_def emit_def)
  have c: "(case progress_handler all_methods 20 100 34 one_db_state of
      Some (Inr s1) \<Rightarrow> events s1 | _ \<Rightarrow> [])
     = [DeleteGlobalRef 34, NewGlobalRef 34, Native_progress_handler 50 100 10]"
    unfolding progress_handler_def with_db_found [OF for_db_one_db]
    by (simp add: one_db_state_def S3JniGlobal_init_def upd_metrics_def Let_def
        GetMethodID_def all_methods_def set_midCallback_def set_jObj_def upd_db_def
        new_global_ref_def delete_global_ref_def emit_def)
  from a b c show ?thesis by blast
qed


text \<open>
  Claim C9.  On the example state the wrapper \<open>21\<close> has no native pointer, as the
  wrapper of a closed connection has, and no record; the only record is that of the
  wrapper \<open>20\<close>, with the busy handler \<open>30\<close>.  \<^verbatim>\<open>S3JniDb_for_db\<close> does not enter its
  loop for a null pointer and returns the head of the used-list, so
  \<^verbatim>\<open>sqlite3_busy_timeout\<close>'s binding, called with the wrapper \<open>21\<close>, does not return
  \<^verbatim>\<open>SQLITE_MISUSE\<close>: it destroys and releases the busy handler of the other connection,
  sets the timeout of that connection and returns the engine's result.
\<close>

theorem busy_timeout_stale_wrapper:
  "nativePointer one_db_state 21 = 0
   \<and> jDb (dbRows one_db_state 10) = 20
   \<and> hooks (dbRows one_db_state 10) busyHandler = \<lparr>jObj = 30, midCallback = 1\<rparr>
   \<and> (case busy_timeout all_methods 0 21 1000 one_db_state of
         Some (rc, s1) \<Rightarrow> (rc, events s1, hooks (dbRows s1 10) busyHandler)
       | None \<Rightarrow> (SQLITE_MISUSE, [], S3JniHook_zero))
       = (0, [Call_xDestroy 30, DeleteGlobalRef 30, Native_busy_timeout 50 1000], S3JniHook_zero)"
proof -
  have a: "nativePointer one_db_state 21 = 0" "jDb (dbRows one_db_state 10) = 20"
    "hooks (dbRows one_db_state 10) busyHandler = \<lparr>jObj = 30, midCallback = 1\<rparr>"
    by (simp_all add: one_db_state_def S3JniGlobal_init_def)
  have b: "(case busy_timeout all_methods 0 21 1000 one_db_state of
         Some (rc, s1) \<Rightarrow> (rc, events s1, hooks (dbRows s1 10) busyHandler)
       | None \<Rightarrow> (SQLITE_MISUSE, [], S3JniHook_zero))
       = (0, [Call_xDestroy 30, DeleteGlobalRef 30, Native_busy_timeout 50 1000], S3JniHook_zero)"
    unfolding busy_timeout_def with_db_found [OF for_db_stale]
    by (simp add: Let_def S3JniHook_unref_effect all_methods_def one_db_state_def
        S3JniGlobal_init_def upd_metrics_def emit_def)
  from a b show ?thesis by blast
qed

lemma db_find_inv:
  assumes "perDb_inv s us fs" and "db \<noteq> 0"
  shows "db_find (dbRows s) db (perDb_aUsed s)
           = Some (first_with (\<lambda>r. pDb (dbRows s r) = db) us)"
proof -
  from assms have "dseg (\<lambda>p. pNext (dbRows s p)) (db_pv s) 0 (perDb_aUsed s) us 0"
    by (simp add: perDb_inv_def dll_def db_nx_eq)
  then show ?thesis using assms(2) by (rule db_find_dseg)
qed

lemma handles_member:
  "q \<in> set us \<Longrightarrow> pDb (dbRows s q) \<noteq> 0 \<Longrightarrow> pDb (dbRows s q) \<in> set (handles s us)"
  by (auto simp: handles_def)

lemma handles_unique:
  "distinct (handles s us) \<Longrightarrow> p \<in> set us \<Longrightarrow> q \<in> set us \<Longrightarrow>
   pDb (dbRows s p) = pDb (dbRows s q) \<Longrightarrow> pDb (dbRows s p) \<noteq> 0 \<Longrightarrow> p = q"
proof (induction us)
  case Nil
  then show ?case by simp
next
  case (Cons a us)
  have d: "distinct (handles s us)" using Cons.prems(1) by (simp add: handles_Cons)
  show ?case
  proof (cases "p = a")
    case pa: True
    show ?thesis
    proof (cases "q = a")
      case True
      with pa show ?thesis by simp
    next
      case False
      then have qu: "q \<in> set us" using Cons.prems(3) by simp
      have "pDb (dbRows s q) \<in> set (handles s us)"
        using handles_member [OF qu] Cons.prems(4,5) by simp
      then show ?thesis using Cons.prems(1,4,5) pa by (simp add: handles_Cons)
    qed
  next
    case pna: False
    then have pu: "p \<in> set us" using Cons.prems(2) by simp
    show ?thesis
    proof (cases "q = a")
      case True
      have "pDb (dbRows s p) \<in> set (handles s us)"
        using handles_member [OF pu] Cons.prems(5) by simp
      then show ?thesis using Cons.prems(1,4,5) True by (simp add: handles_Cons)
    next
      case False
      then have qu: "q \<in> set us" using Cons.prems(3) by simp
      show ?thesis by (rule Cons.IH [OF d pu qu Cons.prems(4,5)])
    qed
  qed
qed

text \<open>
  The lookup for a wrapper whose native pointer is that of a record of the used-list:
  it returns, the result is that record, and only the counter of the mutex changes.
\<close>

lemma for_db_found:
  assumes inv: "perDb_inv s us fs" and warm: "nph_warm Nph_sqlite3 s"
    and j: "jDbObj \<noteq> 0" and h: "nativePointer s jDbObj \<noteq> 0"
    and ps: "ps \<in> set us" and pd: "pDb (dbRows s ps) = nativePointer s jDbObj"
  shows "S3JniDb_for_db jDbObj 0 s
         = Some (ps, upd_metrics (\<lambda>c. c\<lparr>nMutexPerDb := nMutexPerDb c + 1\<rparr>) s)"
    and "ps \<noteq> 0"
proof -
  define s0 where "s0 = upd_metrics (\<lambda>c. c\<lparr>nMutexPerDb := nMutexPerDb c + 1\<rparr>) s"
  let ?h = "nativePointer s jDbObj"
  let ?P = "\<lambda>q. pDb (dbRows s q) = ?h"
  have i0: "perDb_inv s0 us fs" using inv by (simp add: s0_def)
  have w: "nph_warm Nph_sqlite3 s0" using warm by (simp add: s0_def nph_warm_def)
  have g: "NativePointerHolder_get jDbObj Nph_sqlite3 s0 = (?h, s0)"
    unfolding NativePointerHolder_get_warm [OF w] using j by (simp add: s0_def)
  have z: "0 \<notin> set us" using inv by (auto simp: perDb_inv_def dest: dll_nonzero)
  show p0: "ps \<noteq> 0" using z ps by metis
  have dh: "distinct (handles s us)" using inv by (simp add: perDb_inv_def)
  have f0: "first_with ?P us \<noteq> 0"
    using first_with_none [of us ?P ps] z ps pd by blast
  then have fin: "first_with ?P us \<in> set us" "?P (first_with ?P us)"
    using first_with_in [of ?P us] by auto
  have fr: "first_with ?P us = ps"
    by (rule handles_unique [OF dh fin(1) ps]) (use fin(2) pd h in simp_all)
  have fnd: "db_find (dbRows s0) ?h (perDb_aUsed s0) = Some ps"
    using db_find_inv [OF i0 h] fr by (simp add: s0_def)
  show "S3JniDb_for_db jDbObj 0 s = Some (ps, s0)"
    unfolding S3JniDb_for_db_def s0_def [symmetric] using j g fnd by (simp add: Let_def)
qed

lemma commit_rollback_previous:
  assumes f: "S3JniDb_for_db jDbObj 0 s
              = Some (ps, upd_metrics (\<lambda>c. c\<lparr>nMutexPerDb := nMutexPerDb c + 1\<rparr>) s)"
    and ps: "ps \<noteq> 0"
    and np: "pending s = None"
    and k: "k = (if isCommit then commit else rollback)"
    and m: "m = jm jHook (if isCommit then ''xCommitHook'' else ''xRollbackHook'')
                  (if isCommit then ''()I'' else ''()V'')"
  shows "\<exists>s1. s3jni_commit_rollback_hook jm isCommit jDbObj jHook s
                 = Some (Inr (jObj (hooks (dbRows s ps) k), s1))
           \<and> (if jHook = 0 then hooks (dbRows s1 ps) k = S3JniHook_zero
               else if jHook = jObj (hooks (dbRows s ps) k)
                 then s1 = upd_metrics (\<lambda>c. c\<lparr>nMutexPerDb := nMutexPerDb c + 1\<rparr>) s
               else if m \<noteq> 0 then hooks (dbRows s1 ps) k = \<lparr>jObj = jHook, midCallback = m\<rparr>
               else hooks (dbRows s1 ps) k = hooks (dbRows s ps) k)"
  unfolding s3jni_commit_rollback_hook_def with_db_found [OF f] using ps np
  by (simp add: Let_def k m upd_metrics_def GetMethodID_def clear_hook_def
      delete_global_ref_def emit_def upd_db_def set_midCallback_def set_jObj_def
      new_global_ref_def s3jni_db_error_def ExceptionClear_def split: prod.splits)

lemma updatepre_previous:
  assumes f: "S3JniDb_for_db jDbObj 0 s
              = Some (ps, upd_metrics (\<lambda>c. c\<lparr>nMutexPerDb := nMutexPerDb c + 1\<rparr>) s)"
    and ps: "ps \<noteq> 0"
    and np: "pending s = None"
    and k: "k = (if isPre then preUpdate else update)"
    and m: "m = (if isPre
                 then jm jHook ''xPreUpdate''
                        ''(Lorg/sqlite/jni/sqlite3;ILjava/lang/String;Ljava/lang/String;JJ)V''
                 else jm jHook ''xUpdateHook'' ''(ILjava/lang/String;Ljava/lang/String;J)V'')"
  shows "\<exists>s1. s3jni_updatepre_hook jm isPre jDbObj jHook s
                 = Some (jObj (hooks (dbRows s ps) k), s1)
           \<and> (if jHook = 0 then hooks (dbRows s1 ps) k = S3JniHook_zero
               else if jHook = jObj (hooks (dbRows s ps) k)
                 then s1 = upd_metrics (\<lambda>c. c\<lparr>nMutexPerDb := nMutexPerDb c + 1\<rparr>) s
               else if m \<noteq> 0 then hooks (dbRows s1 ps) k = \<lparr>jObj = jHook, midCallback = m\<rparr>
               else hooks (dbRows s1 ps) k = hooks (dbRows s ps) k)"
  unfolding s3jni_updatepre_hook_def with_db_found [OF f] using ps np
  by (simp add: Let_def k m upd_metrics_def GetMethodID_def clear_hook_def
      delete_global_ref_def emit_def upd_db_def set_midCallback_def set_jObj_def
      new_global_ref_def s3jni_db_error_def ExceptionClear_def split: prod.splits)

lemma perDb_inv_one_db: "perDb_inv one_db_state [10] []"
  by (simp add: perDb_inv_def dll_def db_nx_def db_pv_def handles_def one_db_state_def
      S3JniGlobal_init_def S3JniDb_zero_def)

lemma pending_one_db: "pending one_db_state = None"
  by (simp add: one_db_state_def S3JniGlobal_init_def)

text \<open>
  Claim C10.  Take a state in which the registry is well formed, the class cache holds
  the wrapper class (as it does once a wrapper has been given its pointer) and no
  exception is pending, and a wrapper whose native pointer is the handle of the record
  \<open>ps\<close> of the used-list.  Then \<^verbatim>\<open>s3jni_commit_rollback_hook\<close> (behind
  \<^verbatim>\<open>sqlite3_commit_hook\<close> and \<^verbatim>\<open>sqlite3_rollback_hook\<close>) and
  \<^verbatim>\<open>s3jni_updatepre_hook\<close> (behind \<^verbatim>\<open>sqlite3_update_hook\<close> and
  \<^verbatim>\<open>sqlite3_preupdate_hook\<close>) return, and what they return is the object that the
  slot of that record held before the call, null for an empty slot.  Passing null
  leaves the slot zeroed; passing the object that is installed leaves the state as it
  was, the count of entries into the registry's mutex apart; passing another object
  installs it with its method handle, or leaves the slot as it was when its class lacks
  the callback method.
\<close>

theorem hook_returns_previous:
  assumes inv: "perDb_inv s us fs" and warm: "nph_warm Nph_sqlite3 s"
    and j: "jDbObj \<noteq> 0" and h: "nativePointer s jDbObj \<noteq> 0"
    and ps: "ps \<in> set us" and pd: "pDb (dbRows s ps) = nativePointer s jDbObj"
    and np: "pending s = None"
    and kc: "kc = (if isCommit then commit else rollback)"
    and mc: "mc = jm jHook (if isCommit then ''xCommitHook'' else ''xRollbackHook'')
                  (if isCommit then ''()I'' else ''()V'')"
    and ku: "ku = (if isPre then preUpdate else update)"
    and mu: "mu = (if isPre
                 then jm jHook ''xPreUpdate''
                        ''(Lorg/sqlite/jni/sqlite3;ILjava/lang/String;Ljava/lang/String;JJ)V''
                 else jm jHook ''xUpdateHook'' ''(ILjava/lang/String;Ljava/lang/String;J)V'')"
  shows "(\<exists>s1. s3jni_commit_rollback_hook jm isCommit jDbObj jHook s
                 = Some (Inr (jObj (hooks (dbRows s ps) kc), s1))
           \<and> (if jHook = 0 then hooks (dbRows s1 ps) kc = S3JniHook_zero
               else if jHook = jObj (hooks (dbRows s ps) kc)
                 then s1 = upd_metrics (\<lambda>c. c\<lparr>nMutexPerDb := nMutexPerDb c + 1\<rparr>) s
               else if mc \<noteq> 0 then hooks (dbRows s1 ps) kc = \<lparr>jObj = jHook, midCallback = mc\<rparr>
               else hooks (dbRows s1 ps) kc = hooks (dbRows s ps) kc))
       \<and> (\<exists>s1. s3jni_updatepre_hook jm isPre jDbObj jHook s
                 = Some (jObj (hooks (dbRows s ps) ku), s1)
           \<and> (if jHook = 0 then hooks (dbRows s1 ps) ku = S3JniHook_zero
               else if jHook = jObj (hooks (dbRows s ps) ku)
                 then s1 = upd_metrics (\<lambda>c. c\<lparr>nMutexPerDb := nMutexPerDb c + 1\<rparr>) s
               else if mu \<noteq> 0 then hooks (dbRows s1 ps) ku = \<lparr>jObj = jHook, midCallback = mu\<rparr>
               else hooks (dbRows s1 ps) ku = hooks (dbRows s ps) ku))"
proof -
  note f = for_db_found [OF inv warm j h ps pd]
  show ?thesis
    using commit_rollback_previous [where jm = jm and jHook = jHook and isCommit = isCommit,
        OF f(1) f(2) np kc mc]
      updatepre_previous [where jm = jm and jHook = jHook and isPre = isPre,
        OF f(1) f(2) np ku mu]
    by (rule conjI)
qed

theorem hook_returns_previous_witness:
  "perDb_inv one_db_state [10] [] \<and> nph_warm Nph_sqlite3 one_db_state
   \<and> nativePointer one_db_state 20 \<noteq> 0
   \<and> pDb (dbRows one_db_state 10) = nativePointer one_db_state 20
   \<and> pending one_db_state = None
   \<and> (\<exists>s1. s3jni_commit_rollback_hook all_methods True 20 31 one_db_state = Some (Inr (31, s1))
          \<and> s1 = upd_metrics (\<lambda>c. c\<lparr>nMutexPerDb := nMutexPerDb c + 1\<rparr>) one_db_state)
   \<and> (\<exists>s1. s3jni_updatepre_hook all_methods True 20 40 one_db_state = Some (0, s1)
          \<and> hooks (dbRows s1 10) preUpdate = \<lparr>jObj = 40, midCallback = 9\<rparr>)"
proof -
  have j: "(20::nat) \<noteq> 0" by simp
  have h: "nativePointer one_db_state 20 \<noteq> 0"
    and pd: "pDb (dbRows one_db_state 10) = nativePointer one_db_state 20"
    by (simp_all add: one_db_state_def S3JniGlobal_init_def)
  have pin: "10 \<in> set [10::nat]" by simp
  have kc: "commit = (if True then commit else rollback)" by simp
  have ku: "preUpdate = (if True then preUpdate else update)" by simp
  have mc: "9 = all_methods 31 (if True then ''xCommitHook'' else ''xRollbackHook'')
                  (if True then ''()I'' else ''()V'')"
    by (simp add: all_methods_def)
  have mu: "9 = (if True
                 then all_methods 40 ''xPreUpdate''
                        ''(Lorg/sqlite/jni/sqlite3;ILjava/lang/String;Ljava/lang/String;JJ)V''
                 else all_methods 40 ''xUpdateHook'' ''(ILjava/lang/String;Ljava/lang/String;J)V'')"
    by (simp add: all_methods_def)
  have o1: "jObj (hooks (dbRows one_db_state 10) commit) = 31"
    and o2: "jObj (hooks (dbRows one_db_state 10) preUpdate) = 0"
    by (simp_all add: one_db_state_def S3JniHook_zero_def S3JniDb_zero_def)
  have a: "\<exists>s1. s3jni_commit_rollback_hook all_methods True 20 31 one_db_state = Some (Inr (31, s1))
          \<and> s1 = upd_metrics (\<lambda>c. c\<lparr>nMutexPerDb := nMutexPerDb c + 1\<rparr>) one_db_state"
    using hook_returns_previous [where jm = all_methods and jHook = 31 and isCommit = True
        and isPre = True and mu = 9,
        OF perDb_inv_one_db nph_warm_one_db j h pin pd pending_one_db kc mc ku]
    by (simp add: o1 all_methods_def)
  have b: "\<exists>s1. s3jni_updatepre_hook all_methods True 20 40 one_db_state = Some (0, s1)
          \<and> hooks (dbRows s1 10) preUpdate = \<lparr>jObj = 40, midCallback = 9\<rparr>"
    using hook_returns_previous [where jm = all_methods and jHook = 40 and isCommit = True
        and isPre = True and mc = 9,
        OF perDb_inv_one_db nph_warm_one_db j h pin pd pending_one_db kc _ ku mu]
    by (simp add: o1 o2 all_methods_def)
  show ?thesis
    using perDb_inv_one_db nph_warm_one_db [of Nph_sqlite3] h pd pending_one_db a b by blast
qed

lemma create_function_unknown:
  assumes enc: "encodingTypeIsValid eTextRep"
    and unk: "jm f ''xFunc'' zFSI = 0 \<and> (jm f ''xStep'' zFSI = 0 \<or> jm f ''xFinal'' zFV = 0)"
  shows "fst (create_function jm True zName rcNative jDbObj nArg eTextRep f s) = SQLITE_MISUSE
         \<and> \<not> registers_function s
                (snd (create_function jm True zName rcNative jDbObj nArg eTextRep f s))"
proof -
  define s0 where "s0 = snd (NativePointerHolder_get jDbObj Nph_sqlite3 s)"
  define db where "db = fst (NativePointerHolder_get jDbObj Nph_sqlite3 s)"
  have g: "NativePointerHolder_get jDbObj Nph_sqlite3 s = (db, s0)"
    by (simp add: s0_def db_def)
  have e0: "events s0 = events s @ (if jDbObj = 0 \<or> nph_pRef (nph s Nph_sqlite3) then []
                                     else [NewGlobalRef (jvm_class Nph_sqlite3)])"
    by (simp add: s0_def NativePointerHolder_get_props)
  obtain u s1 where
    al: "S3JniUdf_alloc jm True f s0 = (Some u, s1)" and
    ty: "udf_type u =
           (if jm f ''xFunc'' zFSI \<noteq> 0 then UDF_SCALAR
            else if jm f ''xStep'' zFSI \<noteq> 0 \<and> jm f ''xFinal'' zFV \<noteq> 0 then
              (if jm f ''xValue'' zFV \<noteq> 0 then UDF_WINDOW else UDF_AGGREGATE)
            else UDF_UNKNOWN_TYPE)" and
    ev: "events s1 = events s0 @ (if f \<noteq> 0 then [NewGlobalRef f] else [])"
    using S3JniUdf_alloc_type [of jm f s0] by blast
  have t: "udf_type u = UDF_UNKNOWN_TYPE"
    using ty unk by auto
  show ?thesis
    using enc al t ev e0
    by (simp add: create_function_def g Let_def split_beta s3jni_db_error_def
        S3JniUdf_free_def delete_global_ref_def s3jni_call_xDestroy_def GetMethodID_def
        ExceptionClear_def registers_function_def events_emit)
qed

lemma create_function_format:
  assumes enc: "\<not> encodingTypeIsValid eTextRep"
  shows "fst (create_function jm mem zName rcNative jDbObj nArg eTextRep f s) = SQLITE_FORMAT
         \<and> \<not> registers_function s
                (snd (create_function jm mem zName rcNative jDbObj nArg eTextRep f s))
         \<and> events (snd (create_function jm mem zName rcNative jDbObj nArg eTextRep f s))
             = events (snd (NativePointerHolder_get jDbObj Nph_sqlite3 s))
               @ (if fst (NativePointerHolder_get jDbObj Nph_sqlite3 s) \<noteq> 0
                  then [Native_db_error (fst (NativePointerHolder_get jDbObj Nph_sqlite3 s))
                          SQLITE_FORMAT (Some ''Invalid function encoding option.'')]
                  else [])"
  using enc
  by (simp add: create_function_def split_beta s3jni_db_error_def registers_function_def
      events_emit NativePointerHolder_get_props)

lemma create_function_nomem:
  assumes enc: "encodingTypeIsValid eTextRep"
  shows "fst (create_function jm False zName rcNative jDbObj nArg eTextRep f s) = SQLITE_NOMEM
         \<and> \<not> registers_function s
                (snd (create_function jm False zName rcNative jDbObj nArg eTextRep f s))"
  using enc
  by (simp add: create_function_def split_beta S3JniUdf_alloc_def registers_function_def
      NativePointerHolder_get_props)

text \<open>
  Claim C4, as amended.  A functor with \<^verbatim>\<open>xFunc\<close> is classified scalar; one without
  it but with \<^verbatim>\<open>xStep\<close> and \<^verbatim>\<open>xFinal\<close> is an aggregate, a window function when it
  has \<^verbatim>\<open>xValue\<close> too; every other functor is of unknown type.  When the encoding
  argument is one of the four text encodings and the descriptor could be allocated,
  registering a functor of unknown type returns \<^verbatim>\<open>SQLITE_MISUSE\<close> and makes no
  registration call to the engine.  An encoding argument that is not one of the four
  is rejected with \<^verbatim>\<open>SQLITE_FORMAT\<close> whatever the functor and the allocator: after
  the connection pointer is fetched, the error report to the connection is the only
  thing that happens, so the functor is not classified and nothing is registered.  With
  a valid encoding, a descriptor that could not be allocated gives \<^verbatim>\<open>SQLITE_NOMEM\<close>
  and no registration.
\<close>

theorem udf_classification_and_misuse:
  "(case S3JniUdf_alloc jm True f s of
      (None, s1) \<Rightarrow> False
    | (Some u, s1) \<Rightarrow>
        udf_type u =
          (if jm f ''xFunc'' zFSI \<noteq> 0 then UDF_SCALAR
           else if jm f ''xStep'' zFSI \<noteq> 0 \<and> jm f ''xFinal'' zFV \<noteq> 0 then
             (if jm f ''xValue'' zFV \<noteq> 0 then UDF_WINDOW else UDF_AGGREGATE)
           else UDF_UNKNOWN_TYPE))
   \<and> (encodingTypeIsValid eTextRep
        \<and> jm f ''xFunc'' zFSI = 0 \<and> (jm f ''xStep'' zFSI = 0 \<or> jm f ''xFinal'' zFV = 0) \<longrightarrow>
        fst (create_function jm True zName rcNative jDbObj nArg eTextRep f s) = SQLITE_MISUSE
        \<and> \<not> registers_function s
               (snd (create_function jm True zName rcNative jDbObj nArg eTextRep f s)))
   \<and> (\<not> encodingTypeIsValid eTextRep \<longrightarrow>
        fst (create_function jm mem zName rcNative jDbObj nArg eTextRep f s) = SQLITE_FORMAT
        \<and> \<not> registers_function s
               (snd (create_function jm mem zName rcNative jDbObj nArg eTextRep f s))
        \<and> events (snd (create_function jm mem zName rcNative jDbObj nArg eTextRep f s))
            = events (snd (NativePointerHolder_get jDbObj Nph_sqlite3 s))
              @ (if fst (NativePointerHolder_get jDbObj Nph_sqlite3 s) \<noteq> 0
                 then [Native_db_error (fst (NativePointerHolder_get jDbObj Nph_sqlite3 s))
                         SQLITE_FORMAT (Some ''Invalid function encoding option.'')]
                 else []))
   \<and> (encodingTypeIsValid eTextRep \<longrightarrow>
        fst (create_function jm False zName rcNative jDbObj nArg eTextRep f s) = SQLITE_NOMEM
        \<and> \<not> registers_function s
               (snd (create_function jm False zName rcNative jDbObj nArg eTextRep f s)))"
proof -
  obtain u s1 where
    al: "S3JniUdf_alloc jm True f s = (Some u, s1)" and
    ty: "udf_type u =
           (if jm f ''xFunc'' zFSI \<noteq> 0 then UDF_SCALAR
            else if jm f ''xStep'' zFSI \<noteq> 0 \<and> jm f ''xFinal'' zFV \<noteq> 0 then
              (if jm f ''xValue'' zFV \<noteq> 0 then UDF_WINDOW else UDF_AGGREGATE)
            else UDF_UNKNOWN_TYPE)"
    using S3JniUdf_alloc_type [of jm f s] by blast
  have first: "(case S3JniUdf_alloc jm True f s of
      (None, s1) \<Rightarrow> False
    | (Some u, s1) \<Rightarrow>
        udf_type u =
          (if jm f ''xFunc'' zFSI \<noteq> 0 then UDF_SCALAR
           else if jm f ''xStep'' zFSI \<noteq> 0 \<and> jm f ''xFinal'' zFV \<noteq> 0 then
             (if jm f ''xValue'' zFV \<noteq> 0 then UDF_WINDOW else UDF_AGGREGATE)
           else UDF_UNKNOWN_TYPE))"
    using al ty by simp
  from first
    create_function_unknown [of eTextRep jm f zName rcNative jDbObj nArg s]
    create_function_format [of eTextRep jm mem zName rcNative jDbObj nArg f s]
    create_function_nomem [of eTextRep jm zName rcNative jDbObj nArg f s]
  show ?thesis by blast
qed

theorem udf_classification_and_misuse_witness:
  "encodingTypeIsValid SQLITE_UTF8 \<and> \<not> encodingTypeIsValid 0
   \<and> fst (create_function no_methods True (Some ''f'') 0 20 1 SQLITE_UTF8 5 one_db_state)
       = SQLITE_MISUSE
   \<and> \<not> registers_function one_db_state
         (snd (create_function no_methods True (Some ''f'') 0 20 1 SQLITE_UTF8 5 one_db_state))
   \<and> fst (create_function no_methods False (Some ''f'') 0 20 1 SQLITE_UTF8 5 one_db_state)
       = SQLITE_NOMEM
   \<and> fst (create_function all_methods False (Some ''f'') 0 20 1 0 5 one_db_state)
       = SQLITE_FORMAT
   \<and> events (snd (create_function all_methods False (Some ''f'') 0 20 1 0 5 one_db_state))
       = [Native_db_error 50 SQLITE_FORMAT (Some ''Invalid function encoding option.'')]"
proof -
  have enc: "encodingTypeIsValid SQLITE_UTF8"
    by (simp add: encodingTypeIsValid_def)
  have nenc: "\<not> encodingTypeIsValid 0"
    by (simp add: encodingTypeIsValid_def SQLITE_UTF8_def SQLITE_UTF16_def SQLITE_UTF16LE_def
        SQLITE_UTF16BE_def)
  have g: "NativePointerHolder_get 20 Nph_sqlite3 one_db_state = (50, one_db_state)"
    unfolding NativePointerHolder_get_warm [OF nph_warm_one_db]
    by (simp add: one_db_state_def S3JniGlobal_init_def)
  have e: "events one_db_state = []"
    by (simp add: one_db_state_def S3JniGlobal_init_def)
  have a: "fst (create_function no_methods True (Some ''f'') 0 20 1 SQLITE_UTF8 5 one_db_state)
       = SQLITE_MISUSE
   \<and> \<not> registers_function one_db_state
         (snd (create_function no_methods True (Some ''f'') 0 20 1 SQLITE_UTF8 5 one_db_state))
   \<and> fst (create_function no_methods False (Some ''f'') 0 20 1 SQLITE_UTF8 5 one_db_state)
       = SQLITE_NOMEM"
    using enc
      udf_classification_and_misuse [of no_methods 5 one_db_state SQLITE_UTF8 "Some ''f''" 0 20 1]
    by (simp add: no_methods_def)
  have b: "fst (create_function all_methods False (Some ''f'') 0 20 1 0 5 one_db_state)
       = SQLITE_FORMAT
   \<and> events (snd (create_function all_methods False (Some ''f'') 0 20 1 0 5 one_db_state))
       = [Native_db_error 50 SQLITE_FORMAT (Some ''Invalid function encoding option.'')]"
    using nenc
      udf_classification_and_misuse [of all_methods 5 one_db_state 0 "Some ''f''" 0 20 1 False]
    by (simp add: g e)
  from enc nenc a b show ?thesis by blast
qed

text \<open>
  The claim as stated fails when the encoding argument is not a text encoding: the
  functor is then never classified and the result is \<^verbatim>\<open>SQLITE_FORMAT\<close>.
\<close>

theorem udf_misuse_counterexample:
  "fst (create_function no_methods True (Some ''f'') 0 20 1 0 5 one_db_state) = SQLITE_FORMAT
   \<and> SQLITE_FORMAT \<noteq> SQLITE_MISUSE"
  using create_function_format [of 0 no_methods True "Some ''f''" 0 20 1 5 one_db_state]
  by (simp add: encodingTypeIsValid_def SQLITE_FORMAT_def SQLITE_MISUSE_def
      SQLITE_UTF8_def SQLITE_UTF16_def SQLITE_UTF16LE_def SQLITE_UTF16BE_def)

lemma perDb_inv_cong:
  assumes "perDb_inv s us fs"
    and "dbRows s' = dbRows s" "perDb_aUsed s' = perDb_aUsed s" "perDb_aFree s' = perDb_aFree s"
  shows "perDb_inv s' us fs"
  using assms by (simp add: perDb_inv_def db_nx_eq db_pv_eq handles_def)

lemma for_db_inv:
  assumes inv: "perDb_inv s us fs"
    and h: "h = (if db = 0 then (if j \<noteq> 0 then nativePointer s j else 0) else db)"
    and r: "r = (if j = 0 \<and> db = 0 then 0 else if h = 0 then perDb_aUsed s
                 else first_with (\<lambda>q. pDb (dbRows s q) = h) us)"
  shows "\<exists>s'. S3JniDb_for_db j db s = Some (r, s')
           \<and> perDb_inv s' us fs \<and> dbRows s' = dbRows s
           \<and> perDb_aUsed s' = perDb_aUsed s \<and> perDb_aFree s' = perDb_aFree s
           \<and> (r = 0 \<or> r \<in> set us)
           \<and> (h \<noteq> 0 \<and> r \<noteq> 0 \<longrightarrow> pDb (dbRows s r) = h)
           \<and> (h \<noteq> 0 \<and> r = 0 \<longrightarrow> h \<notin> set (handles s us))"
proof (cases "j = 0 \<and> db = 0")
  case True
  then have "h = 0" using h by simp
  with True show ?thesis using inv r by (simp add: S3JniDb_for_db_def)
next
  case False
  define s0 where "s0 = upd_metrics (\<lambda>c. c\<lparr>nMutexPerDb := nMutexPerDb c + 1\<rparr>) s"
  define g where "g = (if db = 0 then NativePointerHolder_get j Nph_sqlite3 s0 else (db, s0))"
  define s1 where "s1 = snd g"
  have gh: "fst g = h"
    using h by (simp add: g_def NativePointerHolder_get_props s0_def)
  have g': "g = (h, s1)" using gh by (simp add: s1_def prod_eq_iff)
  have F: "dbRows s1 = dbRows s" "perDb_aUsed s1 = perDb_aUsed s" "perDb_aFree s1 = perDb_aFree s"
    by (simp_all add: s1_def g_def NativePointerHolder_get_props s0_def)
  have i1: "perDb_inv s1 us fs" by (rule perDb_inv_cong [OF inv F])
  have hu: "perDb_aUsed s = 0 \<or> perDb_aUsed s \<in> set us"
    using inv by (cases us) (auto simp: perDb_inv_def dll_Cons)
  have unf: "S3JniDb_for_db j db s =
      (case db_find (dbRows s1) h (perDb_aUsed s1) of None \<Rightarrow> None | Some p \<Rightarrow> Some (p, s1))"
    using False g'
    by (simp add: S3JniDb_for_db_def Let_def s0_def [symmetric] g_def [symmetric])
  show ?thesis
  proof (cases "h = 0")
    case True
    have "S3JniDb_for_db j db s = Some (perDb_aUsed s, s1)"
      unfolding unf using True by (simp add: db_find_null F)
    moreover have "r = perDb_aUsed s" using r False True by (auto split: if_splits)
    ultimately show ?thesis
      using True i1 hu F by simp
  next
    case hz: False
    let ?P = "\<lambda>q. pDb (dbRows s q) = h"
    have fnd: "db_find (dbRows s1) h (perDb_aUsed s1) = Some (first_with ?P us)"
      using db_find_inv [OF i1 hz] by (simp add: F)
    have res: "S3JniDb_for_db j db s = Some (first_with ?P us, s1)"
      unfolding unf using fnd by simp
    have rr: "r = first_with ?P us" using r False hz by simp
    have a: "r \<noteq> 0 \<Longrightarrow> r \<in> set us \<and> pDb (dbRows s r) = h"
      unfolding rr using first_with_in [of ?P us] by auto
    have z: "0 \<notin> set us" using inv by (auto simp: perDb_inv_def dest: dll_nonzero)
    have b: "r = 0 \<Longrightarrow> h \<notin> set (handles s us)"
    proof
      assume r0: "r = 0" and "h \<in> set (handles s us)"
      then obtain q where q: "q \<in> set us" "pDb (dbRows s q) = h"
        by (auto simp: handles_def)
      from first_with_none [of us ?P q] z q r0 rr show False by auto
    qed
    show ?thesis
      unfolding rr [symmetric] res [unfolded rr [symmetric]]
      using i1 a b hz F by auto
  qed
qed

lemma perDb_inv_bind:
  assumes inv: "perDb_inv s us fs" and p: "p \<in> set us"
    and x: "X \<notin> set (handles s us)"
  shows "perDb_inv (upd_db p (\<lambda>r. r\<lparr>pDb := X\<rparr>) s) us fs"
proof -
  let ?s = "upd_db p (\<lambda>r. r\<lparr>pDb := X\<rparr>) s"
  from inv have u: "dll (db_nx s) (db_pv s) (perDb_aUsed s) us"
    and f: "dll (db_nx s) (db_pv s) (perDb_aFree s) fs"
    and d: "distinct (us @ fs)"
    and dh: "distinct (handles s us)"
    by (simp_all add: perDb_inv_def)
  have L: "db_nx ?s = db_nx s" "db_pv ?s = db_pv s"
    by (simp_all add: db_nx_eq db_pv_eq fun_eq_iff)
  from p obtain as bs where us: "us = as @ p # bs" by (meson split_list)
  have pn: "p \<notin> set as" "p \<notin> set bs" using d us by auto
  have ha: "handles ?s as = handles s as" by (rule handles_cong) (use pn in auto)
  have hb: "handles ?s bs = handles s bs" by (rule handles_cong) (use pn in auto)
  have "distinct (handles ?s us)"
    using dh x unfolding us handles_append handles_Cons ha hb
    by (auto split: if_splits)
  then show ?thesis
    unfolding perDb_inv_def L using u f d by simp
qed

lemma perDb_inv_init: "perDb_inv S3JniGlobal_init [] []"
  by (simp add: perDb_inv_def handles_def S3JniGlobal_init_def)

lemma perDb_inv_meaning:
  assumes inv: "perDb_inv s us fs"
  shows "set us \<inter> set fs = {}" and "distinct us" and "distinct fs"
    and "C \<noteq> 0 \<Longrightarrow> length (filter (\<lambda>p. pDb (dbRows s p) = C) us) \<le> 1"
proof -
  from inv have d: "distinct (us @ fs)" and dh: "distinct (handles s us)"
    by (simp_all add: perDb_inv_def)
  show "set us \<inter> set fs = {}" "distinct us" "distinct fs" using d by auto
  assume c: "C \<noteq> 0"
  have du: "distinct us" using d by simp
  define F where "F = filter (\<lambda>p. pDb (dbRows s p) = C) us"
  have df: "distinct F" using du by (simp add: F_def)
  have sub: "\<And>x. x \<in> set F \<Longrightarrow> x \<in> set us \<and> pDb (dbRows s x) = C"
    by (simp add: F_def)
  have "length F \<le> 1"
  proof (rule ccontr)
    assume "\<not> length F \<le> 1"
    then have l: "2 \<le> length F" by simp
    have l0: "0 < length F" and l1: "1 < length F" using l by linarith+
    have i0: "F ! 0 \<in> set F" by (rule nth_mem [OF l0])
    have i1: "F ! 1 \<in> set F" by (rule nth_mem [OF l1])
    have ne: "F ! 0 \<noteq> F ! 1"
      using nth_eq_iff_index_eq [OF df l0 l1] by simp
    from handles_unique [OF dh conjunct1 [OF sub [OF i0]] conjunct1 [OF sub [OF i1]]]
      conjunct2 [OF sub [OF i0]] conjunct2 [OF sub [OF i1]] c ne
    show False by simp
  qed
  then show "length (filter (\<lambda>p. pDb (dbRows s p) = C) us) \<le> 1"
    by (simp add: F_def)
qed

lemma set_aside_then_alloc:
  assumes inv: "perDb_inv s us fs" and p: "p \<in> set us"
    and nd: "db = 0 \<or> db \<notin> set (handles s (remove1 p us))"
  shows "\<exists>s'. S3JniDb_alloc m db w (S3JniDb_set_aside jm p s) = Inr (p, s')
           \<and> perDb_inv s' (p # remove1 p us) fs
           \<and> pDb (dbRows s' p) = db \<and> jDb (dbRows s' p) = w
           \<and> hooks (dbRows s' p) = (\<lambda>k. S3JniHook_zero)"
proof -
  let ?t = "S3JniDb_set_aside jm p s"
  note A = set_aside_inv [OF inv p, where jm = jm]
  have d: "distinct us" using inv by (simp add: perDb_inv_def)
  have pn: "p \<notin> set (remove1 p us)" using d by simp
  have hs: "handles ?t (remove1 p us) = handles s (remove1 p us)"
  proof (rule handles_cong)
    fix q assume "q \<in> set (remove1 p us)"
    then have "q \<noteq> p" using pn by auto
    then show "pDb (dbRows ?t q) = pDb (dbRows s q)" by (rule A(3))
  qed
  have nd': "db = 0 \<or> db \<notin> set (handles ?t (remove1 p us))" using nd hs by simp
  have fr: "p # fs = [] \<Longrightarrow> m \<noteq> 0 \<and> m \<notin> set (remove1 p us)" by simp
  have r: "p = (if p # fs = [] then m else hd (p # fs))" by simp
  from alloc_inv [OF A(1) nd' fr r, where w = w]
  obtain s' where a: "S3JniDb_alloc m db w ?t = Inr (p, s')"
    and b: "perDb_inv s' (p # remove1 p us) (tl (p # fs))"
    and c: "pDb (dbRows s' p) = db" "jDb (dbRows s' p) = w"
    and h: "hooks (dbRows s' p)
               = (if p # fs = [] then (\<lambda>k. S3JniHook_zero) else hooks (dbRows ?t p))"
    by blast
  have hz: "hooks (dbRows ?t p) = (\<lambda>k. S3JniHook_zero)"
    by (simp add: A(2) S3JniDb_zero_def)
  show ?thesis
    using a b c h hz by simp
qed

text \<open>
  Claim C1.  The invariant of the registry says that the used-list and the free-list
  are well-formed lists without a common record, and that no native handle is stored
  in two records of the used-list.  It holds after static initialisation, and in every
  state in which it holds: no record is on both lists and at most one record of the
  used-list carries a given handle; \<^verbatim>\<open>S3JniDb_alloc\<close> for a handle that is null (as
  at its one call site) or not yet in the used-list returns, with the head of the
  free-list or else the new block pushed on the used-list and holding the handle and
  the wrapper passed; \<^verbatim>\<open>S3JniDb_for_db\<close> returns, with null or a record of the
  used-list, and no list changed; storing a handle that no record carries into a record
  of the used-list, as the open does, keeps the invariant; \<^verbatim>\<open>S3JniDb_set_aside\<close> of
  a record of the used-list moves it to the head of the free-list with every field but
  the link zeroed; and the next \<^verbatim>\<open>S3JniDb_alloc\<close> returns that very record with the
  handle and the wrapper of the new call and no hook.  Each operation leaves the
  invariant in force.
\<close>

theorem registry_invariant:
  assumes inv: "perDb_inv s us fs"
  shows "perDb_inv S3JniGlobal_init [] []
     \<and> set us \<inter> set fs = {}
     \<and> (C \<noteq> 0 \<longrightarrow> length (filter (\<lambda>q. pDb (dbRows s q) = C) us) \<le> 1)
     \<and> ((db = 0 \<or> db \<notin> set (handles s us)) \<and> (fs = [] \<longrightarrow> m \<noteq> 0 \<and> m \<notin> set us) \<longrightarrow>
          (\<exists>s'. S3JniDb_alloc m db w s = Inr (if fs = [] then m else hd fs, s')
             \<and> perDb_inv s' ((if fs = [] then m else hd fs) # us) (tl fs)
             \<and> pDb (dbRows s' (if fs = [] then m else hd fs)) = db
             \<and> jDb (dbRows s' (if fs = [] then m else hd fs)) = w))
     \<and> (\<exists>r s'. S3JniDb_for_db j h s = Some (r, s') \<and> perDb_inv s' us fs
             \<and> (r = 0 \<or> r \<in> set us))
     \<and> (p \<in> set us \<and> X \<notin> set (handles s us) \<longrightarrow>
          perDb_inv (upd_db p (\<lambda>r. r\<lparr>pDb := X\<rparr>) s) us fs)
     \<and> (p \<in> set us \<longrightarrow>
          perDb_inv (S3JniDb_set_aside jm p s) (remove1 p us) (p # fs)
          \<and> p \<notin> set (remove1 p us)
          \<and> dbRows (S3JniDb_set_aside jm p s) p = S3JniDb_zero\<lparr>pNext := perDb_aFree s\<rparr>)
     \<and> (p \<in> set us \<and> (dbr = 0 \<or> dbr \<notin> set (handles s (remove1 p us))) \<longrightarrow>
          (\<exists>s'. S3JniDb_alloc mr dbr wr (S3JniDb_set_aside jm p s) = Inr (p, s')
             \<and> perDb_inv s' (p # remove1 p us) fs
             \<and> pDb (dbRows s' p) = dbr \<and> jDb (dbRows s' p) = wr
             \<and> hooks (dbRows s' p) = (\<lambda>k. S3JniHook_zero)))"
proof -
  note M = perDb_inv_meaning [OF inv]
  have c1: "C \<noteq> 0 \<longrightarrow> length (filter (\<lambda>q. pDb (dbRows s q) = C) us) \<le> 1"
    using M(4) by blast
  have c2: "(db = 0 \<or> db \<notin> set (handles s us)) \<and> (fs = [] \<longrightarrow> m \<noteq> 0 \<and> m \<notin> set us) \<longrightarrow>
          (\<exists>s'. S3JniDb_alloc m db w s = Inr (if fs = [] then m else hd fs, s')
             \<and> perDb_inv s' ((if fs = [] then m else hd fs) # us) (tl fs)
             \<and> pDb (dbRows s' (if fs = [] then m else hd fs)) = db
             \<and> jDb (dbRows s' (if fs = [] then m else hd fs)) = w)"
  proof
    assume a: "(db = 0 \<or> db \<notin> set (handles s us)) \<and> (fs = [] \<longrightarrow> m \<noteq> 0 \<and> m \<notin> set us)"
    have fr: "fs = [] \<Longrightarrow> m \<noteq> 0 \<and> m \<notin> set us" using a by blast
    from alloc_inv [OF inv conjunct1 [OF a] fr refl, where w = w]
    show "\<exists>s'. S3JniDb_alloc m db w s = Inr (if fs = [] then m else hd fs, s')
             \<and> perDb_inv s' ((if fs = [] then m else hd fs) # us) (tl fs)
             \<and> pDb (dbRows s' (if fs = [] then m else hd fs)) = db
             \<and> jDb (dbRows s' (if fs = [] then m else hd fs)) = w"
      by blast
  qed
  have c3: "\<exists>r s'. S3JniDb_for_db j h s = Some (r, s') \<and> perDb_inv s' us fs
             \<and> (r = 0 \<or> r \<in> set us)"
    using for_db_inv [OF inv refl refl, where j = j and db = h] by blast
  have c4: "p \<in> set us \<and> X \<notin> set (handles s us) \<longrightarrow>
          perDb_inv (upd_db p (\<lambda>r. r\<lparr>pDb := X\<rparr>) s) us fs"
    using perDb_inv_bind [OF inv] by blast
  have c5: "p \<in> set us \<longrightarrow>
          perDb_inv (S3JniDb_set_aside jm p s) (remove1 p us) (p # fs)
          \<and> p \<notin> set (remove1 p us)
          \<and> dbRows (S3JniDb_set_aside jm p s) p = S3JniDb_zero\<lparr>pNext := perDb_aFree s\<rparr>"
    using set_aside_inv(1,2) [OF inv, where p = p and jm = jm] M(2) by simp
  have c6: "p \<in> set us \<and> (dbr = 0 \<or> dbr \<notin> set (handles s (remove1 p us))) \<longrightarrow>
          (\<exists>s'. S3JniDb_alloc mr dbr wr (S3JniDb_set_aside jm p s) = Inr (p, s')
             \<and> perDb_inv s' (p # remove1 p us) fs
             \<and> pDb (dbRows s' p) = dbr \<and> jDb (dbRows s' p) = wr
             \<and> hooks (dbRows s' p) = (\<lambda>k. S3JniHook_zero))"
    using set_aside_then_alloc [OF inv, where p = p and db = dbr and m = mr and w = wr and jm = jm] by blast
  from perDb_inv_init M(1) c1 c2 c3 c4 c5 c6 show ?thesis by blast
qed

theorem registry_invariant_witness:
  "perDb_inv one_db_state [10] []
   \<and> length (filter (\<lambda>q. pDb (dbRows one_db_state q) = 50) [10]) \<le> 1
   \<and> (\<exists>s'. S3JniDb_alloc 11 0 21 one_db_state = Inr (11, s')
          \<and> perDb_inv s' [11, 10] [] \<and> pDb (dbRows s' 11) = 0 \<and> jDb (dbRows s' 11) = 21)
   \<and> (\<exists>r s'. S3JniDb_for_db 20 0 one_db_state = Some (r, s') \<and> perDb_inv s' [10] []
          \<and> (r = 0 \<or> r \<in> set [10]))
   \<and> perDb_inv (S3JniDb_set_aside all_methods 10 one_db_state) [] [10]
   \<and> (\<exists>s'. S3JniDb_alloc 0 0 22 (S3JniDb_set_aside all_methods 10 one_db_state) = Inr (10, s')
          \<and> perDb_inv s' [10] []
          \<and> pDb (dbRows s' 10) = 0 \<and> jDb (dbRows s' 10) = 22
          \<and> hooks (dbRows s' 10) = (\<lambda>k. S3JniHook_zero))"
  using perDb_inv_one_db
    registry_invariant [OF perDb_inv_one_db, where C = 50 and db = 0 and m = 11 and w = 21
      and j = 20 and h = 0 and p = 10 and X = 60 and jm = all_methods and dbr = 0 and mr = 0
      and wr = 22]
  by (simp add: handles_def)

lemma env_cache_hit_state:
  assumes inv: "envCache_inv s us fs" and r: "r \<in> set us" and e: "env (envRows s r) = e"
  shows "S3JniGlobal_env_cache m e s
         = Some (Inr (r, upd_metrics (\<lambda>c. c\<lparr>envCacheHits := envCacheHits c + 1\<rparr>)
                           (upd_metrics (\<lambda>c. c\<lparr>nMutexEnv := nMutexEnv c + 1\<rparr>) s)))"
proof -
  let ?P = "\<lambda>q. env (envRows s q) = e"
  have z: "0 \<notin> set us"
    using inv by (auto simp: envCache_inv_def dest: dll_nonzero)
  have f0: "first_with ?P us \<noteq> 0"
    using first_with_none [of us ?P r] z r e by blast
  then have fin: "first_with ?P us \<in> set us" "?P (first_with ?P us)"
    using first_with_in [of ?P us] by auto
  have dm: "distinct (map (\<lambda>p. env (envRows s p)) us)"
    using inv by (simp add: envCache_inv_def)
  have fr: "first_with ?P us = r"
    using distinct_map_unique [OF dm fin(1) r] fin(2) e by simp
  show ?thesis
    using env_find_inv [OF inv, of e] fr f0
    by (simp add: S3JniGlobal_env_cache_def Let_def)
qed

lemma autoExt_inv_nonzero:
  assumes "autoExt_inv s" and "k < autoExt_nExt s"
  shows "ax_jObj (autoExt_pExt s ! k) \<noteq> 0"
proof -
  from assms(1) have n: "autoExt_nExt s \<le> length (autoExt_pExt s)"
    and z: "0 \<notin> set (map ax_jObj (active s))"
    by (simp_all add: autoExt_inv_def)
  have len: "length (active s) = autoExt_nExt s" using n by (simp add: active_def)
  have "map ax_jObj (active s) ! k \<in> set (map ax_jObj (active s))"
    by (rule nth_mem) (use len assms(2) in simp)
  moreover have "map ax_jObj (active s) ! k = ax_jObj (autoExt_pExt s ! k)"
    using len assms(2) by (simp add: active_def)
  ultimately show ?thesis using z by metis
qed

text \<open>
  The proxy on the state the pre-open stage leaves: the thread's row \<open>jc\<close> names the
  record \<open>ps\<close> as the one being opened.
\<close>

lemma run_java_auto_extensions_bound:
  assumes ei: "envCache_inv s eus efs" and jc: "jc \<in> set eus" and je: "env (envRows s jc) = e"
    and po: "pdbOpening (envRows s jc) = ps" and p0: "ps \<noteq> 0"
    and w: "jDb (dbRows s ps) = w"
    and warm: "nph_warm Nph_sqlite3 s"
    and n0: "0 < autoExt_nExt s"
    and s4: "s4 = (upd_db ps (\<lambda>r. r\<lparr>pDb := X\<rparr>)
                    (upd_env jc (\<lambda>r. r\<lparr>pdbOpening := 0\<rparr>)
                       (upd_metrics (\<lambda>c. c\<lparr>envCacheHits := envCacheHits c + 1\<rparr>)
                          (upd_metrics (\<lambda>c. c\<lparr>nMutexEnv := nMutexEnv c + 1\<rparr>) s))))
                 \<lparr>nativePointer := (nativePointer s)(w := X)\<rparr>"
  shows "s3jni_run_java_auto_extensions m e cb X s = Some (Inr (ext_loop cb w 0 s4))"
proof -
  define s1 where "s1 = upd_metrics (\<lambda>c. c\<lparr>envCacheHits := envCacheHits c + 1\<rparr>)
                          (upd_metrics (\<lambda>c. c\<lparr>nMutexEnv := nMutexEnv c + 1\<rparr>) s)"
  have h: "S3JniGlobal_env_cache m e s = Some (Inr (jc, s1))"
    unfolding s1_def by (rule env_cache_hit_state [OF ei jc je])
  define s3 where "s3 = upd_db ps (\<lambda>r. r\<lparr>pDb := X\<rparr>) (upd_env jc (\<lambda>r. r\<lparr>pdbOpening := 0\<rparr>) s1)"
  have w3: "nph_warm Nph_sqlite3 s3" using warm by (simp add: s3_def s1_def nph_warm_def)
  have j3: "jDb (dbRows s3 ps) = w" using w by (simp add: s3_def s1_def)
  have n3: "nativePointer s3 = nativePointer s" by (simp add: s3_def s1_def)
  have set: "NativePointerHolder_set w X Nph_sqlite3 s3 = s4"
    using NativePointerHolder_set_warm [OF w3, of w X] n3
    by (simp add: s4 s3_def s1_def)
  have j4: "jDb (dbRows s4 ps) = w" using w by (simp add: s4)
  have po1: "pdbOpening (envRows s1 jc) = ps" using po by (simp add: s1_def)
  have j1: "jDb (dbRows s1 ps) = w" using w by (simp add: s1_def)
  show ?thesis
    using n0 p0
    by (simp add: s3jni_run_java_auto_extensions_def h po1 Let_def s3_def [symmetric] j1 j3 set j4)
qed







lemma env_cache_link_frame:
  "dbRows (snd (env_cache_link row e s)) = dbRows s"
  "perDb_aUsed (snd (env_cache_link row e s)) = perDb_aUsed s"
  "perDb_aFree (snd (env_cache_link row e s)) = perDb_aFree s"
  "nph (snd (env_cache_link row e s)) = nph s"
  "nativePointer (snd (env_cache_link row e s)) = nativePointer s"
  "outputValue (snd (env_cache_link row e s)) = outputValue s"
  "events (snd (env_cache_link row e s)) = events s"
  "autoExt_pExt (snd (env_cache_link row e s)) = autoExt_pExt s"
  "autoExt_nExt (snd (env_cache_link row e s)) = autoExt_nExt s"
  "autoExt_nAlloc (snd (env_cache_link row e s)) = autoExt_nAlloc s"
  "pending (snd (env_cache_link row e s)) = pending s"
  by (simp_all add: env_cache_link_def Let_def)

lemma env_cache_frame:
  assumes "S3JniGlobal_env_cache m e s = Some (Inr (r, s'))"
  shows "dbRows s' = dbRows s \<and> perDb_aUsed s' = perDb_aUsed s \<and> perDb_aFree s' = perDb_aFree s
         \<and> nph s' = nph s \<and> nativePointer s' = nativePointer s \<and> outputValue s' = outputValue s
         \<and> events s' = events s \<and> autoExt_pExt s' = autoExt_pExt s
         \<and> autoExt_nExt s' = autoExt_nExt s \<and> autoExt_nAlloc s' = autoExt_nAlloc s
         \<and> pending s' = pending s"
proof -
  define s0 where "s0 = upd_metrics (\<lambda>c. c\<lparr>nMutexEnv := nMutexEnv c + 1\<rparr>) s"
  obtain row where f: "env_find (envRows s0) e (envCache_aHead s0) = Some row"
    using assms by (auto simp: S3JniGlobal_env_cache_def Let_def s0_def split: option.splits)
  show ?thesis
  proof (cases "row \<noteq> 0")
    case True
    then have "s' = upd_metrics (\<lambda>c. c\<lparr>envCacheHits := envCacheHits c + 1\<rparr>) s0"
      using assms f by (simp add: S3JniGlobal_env_cache_def Let_def s0_def [symmetric])
    then show ?thesis by (simp add: s0_def)
  next
    case False
    define s1 where "s1 = upd_metrics (\<lambda>c. c\<lparr>envCacheMisses := envCacheMisses c + 1\<rparr>) s0"
    show ?thesis
    proof (cases "envCache_aFree s1 \<noteq> 0")
      case True
      define s3 where "s3 =
        (let s2 = s1\<lparr>envCache_aFree := row_pNext (envRows s1 (envCache_aFree s1))\<rparr>
         in if row_pNext (envRows s2 (envCache_aFree s1)) \<noteq> 0
            then upd_env (row_pNext (envRows s2 (envCache_aFree s1))) (\<lambda>r. r\<lparr>row_pPrev := 0\<rparr>) s2
            else s2)"
      have "(r, s') = env_cache_link (envCache_aFree s1) e s3"
        using assms f False True
        by (simp add: S3JniGlobal_env_cache_def Let_def s0_def [symmetric] s1_def [symmetric]
            s3_def)
      then have "s' = snd (env_cache_link (envCache_aFree s1) e s3)"
        by (metis snd_conv)
      then show ?thesis
        by (simp add: env_cache_link_frame s3_def Let_def s1_def s0_def)
    next
      case nf: False
      define s2 where "s2 = upd_metrics (\<lambda>c. c\<lparr>envCacheAllocs := envCacheAllocs c + 1\<rparr>) s1"
      have "m \<noteq> 0 \<and> (r, s') = env_cache_link m e s2"
        using assms f False nf
        by (simp add: S3JniGlobal_env_cache_def Let_def s0_def [symmetric] s1_def [symmetric]
            s2_def s3jni_malloc_def split: if_splits)
      then have "s' = snd (env_cache_link m e s2)"
        by (metis snd_conv)
      then show ?thesis
        by (simp add: env_cache_link_frame s2_def s1_def s0_def)
    qed
  qed
qed

lemma envCache_inv_cong:
  assumes "envCache_inv s us fs"
    and "envRows s' = envRows s" "envCache_aHead s' = envCache_aHead s"
    "envCache_aFree s' = envCache_aFree s"
  shows "envCache_inv s' us fs"
  using assms by (simp add: envCache_inv_def env_nx_eq env_pv_eq)

lemma autoExt_inv_cong:
  assumes "autoExt_inv s"
    and "autoExt_pExt s' = autoExt_pExt s" "autoExt_nExt s' = autoExt_nExt s"
    "autoExt_nAlloc s' = autoExt_nAlloc s"
  shows "autoExt_inv s'"
  using assms by (simp add: autoExt_inv_def active_def)

lemma envCache_inv_pdbOpening:
  "envCache_inv (upd_env jc (\<lambda>r. r\<lparr>pdbOpening := v\<rparr>) s) us fs = envCache_inv s us fs"
proof -
  have "env_nx (upd_env jc (\<lambda>r. r\<lparr>pdbOpening := v\<rparr>) s) = env_nx s"
    "env_pv (upd_env jc (\<lambda>r. r\<lparr>pdbOpening := v\<rparr>) s) = env_pv s"
    "(\<lambda>p. env (envRows (upd_env jc (\<lambda>r. r\<lparr>pdbOpening := v\<rparr>) s) p)) = (\<lambda>p. env (envRows s p))"
    by (simp_all add: env_nx_eq env_pv_eq fun_eq_iff)
  then show ?thesis by (simp add: envCache_inv_def)
qed

lemma new_object_props:
  assumes "newObj \<noteq> 0"
  shows "\<exists>s'. new_NativePointerHolder_object newObj r pNative s = Inr (newObj, s')
           \<and> nph_warm r s'
           \<and> nativePointer s' = (nativePointer s)(newObj := pNative)
           \<and> dbRows s' = dbRows s \<and> perDb_aUsed s' = perDb_aUsed s
           \<and> perDb_aFree s' = perDb_aFree s
           \<and> envRows s' = envRows s \<and> envCache_aHead s' = envCache_aHead s
           \<and> envCache_aFree s' = envCache_aFree s
           \<and> autoExt_pExt s' = autoExt_pExt s \<and> autoExt_nExt s' = autoExt_nExt s
           \<and> autoExt_nAlloc s' = autoExt_nAlloc s
           \<and> outputValue s' = outputValue s \<and> pending s' = pending s"
proof -
  define s2 where "s2 =
     (let s1 = S3JniGlobal_nph_cache r s
      in if midCtor (nph s1 r) = 0
         then upd_nph r (\<lambda>n. n\<lparr>midCtor := jvm_ctor r\<rparr>)
                (upd_metrics (\<lambda>c. c\<lparr>nMutexEnv2 := nMutexEnv2 c + 1\<rparr>) s1)
         else s1)"
  have res: "new_NativePointerHolder_object newObj r pNative s
             = Inr (newObj, NativePointerHolder_set newObj pNative r s2)"
    using assms by (simp add: new_NativePointerHolder_object_def Let_def s2_def)
  have F: "dbRows s2 = dbRows s" "perDb_aUsed s2 = perDb_aUsed s" "perDb_aFree s2 = perDb_aFree s"
    "envRows s2 = envRows s" "envCache_aHead s2 = envCache_aHead s"
    "envCache_aFree s2 = envCache_aFree s" "autoExt_pExt s2 = autoExt_pExt s"
    "autoExt_nExt s2 = autoExt_nExt s" "autoExt_nAlloc s2 = autoExt_nAlloc s"
    "outputValue s2 = outputValue s" "pending s2 = pending s" "nativePointer s2 = nativePointer s"
    by (simp_all add: s2_def Let_def nph_cache_props)
  note G = getField_props [of r s2]
  have S: "NativePointerHolder_set newObj pNative r s2
           = (snd (NativePointerHolder_getField r s2))
               \<lparr>nativePointer := (nativePointer s2)(newObj := pNative)\<rparr>"
    by (simp add: NativePointerHolder_set_def split_beta G)
  show ?thesis
    unfolding res
    by (intro exI [of _ "NativePointerHolder_set newObj pNative r s2"])
       (simp add: NativePointerHolder_set_props F, simp add: S G F)
qed

lemma db_link_frame:
  "envRows (db_link rv db w s) = envRows s"
  "envCache_aHead (db_link rv db w s) = envCache_aHead s"
  "envCache_aFree (db_link rv db w s) = envCache_aFree s"
  "nph (db_link rv db w s) = nph s"
  "autoExt_pExt (db_link rv db w s) = autoExt_pExt s"
  "autoExt_nExt (db_link rv db w s) = autoExt_nExt s"
  "autoExt_nAlloc (db_link rv db w s) = autoExt_nAlloc s"
  "pending (db_link rv db w s) = pending s"
  by (simp_all add: db_link_def Let_def split_beta)

lemma alloc_frame:
  assumes "S3JniDb_alloc m db w s = Inr (r, s')" and "r \<noteq> 0"
  shows "envRows s' = envRows s \<and> envCache_aHead s' = envCache_aHead s
         \<and> envCache_aFree s' = envCache_aFree s \<and> nph s' = nph s
         \<and> autoExt_pExt s' = autoExt_pExt s \<and> autoExt_nExt s' = autoExt_nExt s
         \<and> autoExt_nAlloc s' = autoExt_nAlloc s \<and> pending s' = pending s"
  using assms
  by (auto simp add: S3JniDb_alloc_def Let_def s3jni_malloc_def db_link_frame
      split: if_splits sum.splits prod.splits)

text \<open>The pre-open stage when nothing fails.\<close>

lemma open_pre_ok:
  assumes ei: "envCache_inv s eus efs" and pi: "perDb_inv s us fs" and ai: "autoExt_inv s"
    and me: "mEnv \<noteq> 0" "mEnv \<notin> set (eus @ efs)"
    and md: "fs = [] \<Longrightarrow> mDb \<noteq> 0 \<and> mDb \<notin> set us"
    and no: "newObj \<noteq> 0" and nm: "strName \<noteq> 0 \<Longrightarrow> zConv \<noteq> None"
    and ps: "ps = (if fs = [] then mDb else hd fs)"
  shows "\<exists>jc zName s1 eus' efs'.
           s3jni_open_pre mEnv e strName zConv newObj mDb s = Some (Inr (0, jc, zName, ps, s1))
           \<and> jc \<noteq> 0 \<and> ps \<noteq> 0 \<and> ps \<notin> set us
           \<and> envCache_inv s1 eus' efs' \<and> jc \<in> set eus' \<and> env (envRows s1 jc) = e
           \<and> pdbOpening (envRows s1 jc) = ps
           \<and> perDb_inv s1 (ps # us) (tl fs)
           \<and> pDb (dbRows s1 ps) = 0 \<and> jDb (dbRows s1 ps) = newObj
           \<and> handles s1 us = handles s us
           \<and> nph_warm Nph_sqlite3 s1 \<and> autoExt_inv s1
           \<and> autoExt_nExt s1 = autoExt_nExt s
           \<and> outputValue s1 = outputValue s"
proof -
  from env_cache_first [OF ei me, of e] obtain jc sA eus' efs' where
    a: "S3JniGlobal_env_cache mEnv e s = Some (Inr (jc, sA))"
    and ia: "envCache_inv sA eus' efs'" and jin: "jc \<in> set eus'"
    and je: "env (envRows sA jc) = e"
    by blast
  have j0: "jc \<noteq> 0"
    using ia jin by (auto simp: envCache_inv_def dest: dll_nonzero)
  note FA = env_cache_frame [OF a]
  have pa: "perDb_inv sA us fs" by (rule perDb_inv_cong [OF pi]) (simp_all add: FA)
  from new_object_props [OF no, of Nph_sqlite3 0 sA] obtain sB where
    b: "new_NativePointerHolder_object newObj Nph_sqlite3 0 sA = Inr (newObj, sB)"
    and FB: "nph_warm Nph_sqlite3 sB" "dbRows sB = dbRows sA" "perDb_aUsed sB = perDb_aUsed sA"
      "perDb_aFree sB = perDb_aFree sA" "envRows sB = envRows sA"
      "envCache_aHead sB = envCache_aHead sA" "envCache_aFree sB = envCache_aFree sA"
      "autoExt_pExt sB = autoExt_pExt sA" "autoExt_nExt sB = autoExt_nExt sA"
      "autoExt_nAlloc sB = autoExt_nAlloc sA" "outputValue sB = outputValue sA"
    by blast
  have pb: "perDb_inv sB us fs" by (rule perDb_inv_cong [OF pa]) (simp_all add: FB)
  have ib: "envCache_inv sB eus' efs'" by (rule envCache_inv_cong [OF ia]) (simp_all add: FB)
  have nd: "(0::nat) = 0 \<or> 0 \<notin> set (handles sB us)" by simp
  from alloc_inv [OF pb nd md ps, of newObj] obtain sC where
    c: "S3JniDb_alloc mDb 0 newObj sB = Inr (ps, sC)"
    and pc: "perDb_inv sC (ps # us) (tl fs)"
    and FC: "pDb (dbRows sC ps) = 0" "jDb (dbRows sC ps) = newObj"
      "\<forall>q. q \<noteq> ps \<longrightarrow> pDb (dbRows sC q) = pDb (dbRows sB q)
                             \<and> jDb (dbRows sC q) = jDb (dbRows sB q)
                             \<and> hooks (dbRows sC q) = hooks (dbRows sB q)"
      "outputValue sC = outputValue sB"
    by blast
  have p0: "ps \<noteq> 0" and pn: "ps \<notin> set us"
    using pc by (auto simp: perDb_inv_def dest: dll_nonzero)
  note AC = alloc_frame [OF c p0]
  have ic: "envCache_inv sC eus' efs'" by (rule envCache_inv_cong [OF ib]) (simp_all add: AC)
  define s1 where "s1 = upd_env jc (\<lambda>r. r\<lparr>pdbOpening := ps\<rparr>) sC"
  have i1: "envCache_inv s1 eus' efs'" using ic by (simp add: s1_def envCache_inv_pdbOpening)
  have p1: "perDb_inv s1 (ps # us) (tl fs)"
    by (rule perDb_inv_cong [OF pc]) (simp_all add: s1_def)
  have hs: "handles s1 us = handles s us"
    by (rule handles_cong) (use pn FC(3) in \<open>auto simp: s1_def FB FA\<close>)
  have w1: "nph_warm Nph_sqlite3 s1"
    using FB(1) by (simp add: nph_warm_def s1_def AC)
  have a1: "autoExt_inv s1"
    by (rule autoExt_inv_cong [OF ai]) (simp_all add: s1_def AC FB FA)
  have z: "strName \<noteq> 0 \<and> (if strName \<noteq> 0 then zConv else None) = None \<longleftrightarrow> False"
    using nm by auto
  have res: "s3jni_open_pre mEnv e strName zConv newObj mDb s
             = Some (Inr (0, jc, if strName \<noteq> 0 then zConv else None, ps, s1))"
    unfolding s3jni_open_pre_def a using j0 no p0 z
    by (simp add: Let_def b c s1_def)
  show ?thesis
    unfolding res
    by (rule exI [of _ jc], rule exI [of _ "if strName \<noteq> 0 then zConv else None"],
        rule exI [of _ s1], rule exI [of _ eus'], rule exI [of _ efs'])
       (use j0 p0 pn i1 jin je p1 FC hs w1 a1 in \<open>simp add: s1_def AC FB FA\<close>)
qed

text \<open>What setting a record aside and running the extensions leave alone.\<close>

lemma S3JniHook_unref_env:
  "envCache_aHead (S3JniHook_unref jm p k dx s) = envCache_aHead s"
  "envCache_aFree (S3JniHook_unref jm p k dx s) = envCache_aFree s"
  by (simp_all add: S3JniHook_unref_effect)

lemma set_aside_env:
  "envCache_aHead (S3JniDb_set_aside jm p s) = envCache_aHead s"
  "envCache_aFree (S3JniDb_set_aside jm p s) = envCache_aFree s"
proof -
  have c: "\<And>t. envCache_aHead (db_clear jm p t) = envCache_aHead t"
          "\<And>t. envCache_aFree (db_clear jm p t) = envCache_aFree t"
    by (simp_all add: db_clear_def Let_def S3JniHook_unref_env delete_global_ref_def emit_def)
  have u: "\<And>t. envCache_aHead (db_unlink p t) = envCache_aHead t"
          "\<And>t. envCache_aFree (db_unlink p t) = envCache_aFree t"
    by (simp_all add: db_unlink_def Let_def upd_db_def)
  have f: "\<And>t. envCache_aHead (db_set_free p t) = envCache_aHead t"
          "\<And>t. envCache_aFree (db_set_free p t) = envCache_aFree t"
    by (simp_all add: db_set_free_def Let_def upd_db_def)
  show "envCache_aHead (S3JniDb_set_aside jm p s) = envCache_aHead s"
    by (simp add: S3JniDb_set_aside_def c u f upd_metrics_def)
  show "envCache_aFree (S3JniDb_set_aside jm p s) = envCache_aFree s"
    by (simp add: S3JniDb_set_aside_def c u f upd_metrics_def)
qed

lemma ext_loop_frame:
  "perDb_aUsed (snd (snd (ext_loop cb w i s))) = perDb_aUsed s
   \<and> perDb_aFree (snd (snd (ext_loop cb w i s))) = perDb_aFree s
   \<and> envCache_aHead (snd (snd (ext_loop cb w i s))) = envCache_aHead s
   \<and> envCache_aFree (snd (snd (ext_loop cb w i s))) = envCache_aFree s
   \<and> outputValue (snd (snd (ext_loop cb w i s))) = outputValue s"
proof (induction cb w i s rule: ext_loop.induct)
  case (1 cb w i s)
  show ?case
    apply (subst (1 2 3 4 5) ext_loop.simps)
    using "1.IH"
    apply (auto simp add: Let_def emit_def ExceptionClear_def upd_metrics_def split: option.splits)
    done
qed

lemma OutputPointer_set_props:
  "outputValue (OutputPointer_set_sqlite3 jOut v s) jOut = v"
  "dbRows (OutputPointer_set_sqlite3 jOut v s) = dbRows s"
  "envRows (OutputPointer_set_sqlite3 jOut v s) = envRows s"
  "perDb_aUsed (OutputPointer_set_sqlite3 jOut v s) = perDb_aUsed s"
  "perDb_aFree (OutputPointer_set_sqlite3 jOut v s) = perDb_aFree s"
  "envCache_aHead (OutputPointer_set_sqlite3 jOut v s) = envCache_aHead s"
  "envCache_aFree (OutputPointer_set_sqlite3 jOut v s) = envCache_aFree s"
  "nativePointer (OutputPointer_set_sqlite3 jOut v s) = nativePointer s"
proof -
  have e: "setupOutputPointer r t = NativePointerHolder_getField r t" for r t
    by (simp add: setupOutputPointer_def NativePointerHolder_getField_def)
  have o: "OutputPointer_set_sqlite3 jOut v s
           = (snd (NativePointerHolder_getField Nph_OutputPointer_sqlite3 s))
               \<lparr>outputValue := (outputValue (snd (NativePointerHolder_getField
                                    Nph_OutputPointer_sqlite3 s)))(jOut := v)\<rparr>"
    by (simp add: OutputPointer_set_sqlite3_def e split_beta)
  show "outputValue (OutputPointer_set_sqlite3 jOut v s) jOut = v"
    "dbRows (OutputPointer_set_sqlite3 jOut v s) = dbRows s"
    "envRows (OutputPointer_set_sqlite3 jOut v s) = envRows s"
    "perDb_aUsed (OutputPointer_set_sqlite3 jOut v s) = perDb_aUsed s"
    "perDb_aFree (OutputPointer_set_sqlite3 jOut v s) = perDb_aFree s"
    "envCache_aHead (OutputPointer_set_sqlite3 jOut v s) = envCache_aHead s"
    "envCache_aFree (OutputPointer_set_sqlite3 jOut v s) = envCache_aFree s"
    "nativePointer (OutputPointer_set_sqlite3 jOut v s) = nativePointer s"
    unfolding o by (simp_all add: getField_props)
qed

text \<open>The engine's open on a state in which the record \<open>ps\<close> is being opened.\<close>

lemma native_open_props:
  assumes ei: "envCache_inv s eus efs" and jc: "jc \<in> set eus" and je: "env (envRows s jc) = e"
    and po: "pdbOpening (envRows s jc) = ps" and p0: "ps \<noteq> 0"
    and pi: "perDb_inv s (ps # us) fs" and pz: "pDb (dbRows s ps) = 0"
    and warm: "nph_warm Nph_sqlite3 s" and ai: "autoExt_inv s"
    and fresh: "eng_db eng \<notin> set (handles s us)"
    and rcx: "rcx = (if autoExt_nExt s = 0 then 0
                     else case dropWhile (\<lambda>k. call_threw (cb k) = None \<and> call_rv (cb k) = 0)
                                 [0..<autoExt_nExt s] of
                            [] \<Rightarrow> 0
                          | k # ks \<Rightarrow> if call_threw (cb k) \<noteq> None \<and> call_rv (cb k) = 0
                                      then SQLITE_ERROR else call_rv (cb k))"
    and arg: "arg = (if eng_db eng \<noteq> 0 \<and> eng_runs_ext eng then Some rcx else None)"
  shows "\<exists>s2. native_open eng m e cb s
                = Some (Inr (eng_rc eng arg,
                             if eng_db eng \<noteq> 0 \<and> eng_keeps eng arg then eng_db eng else 0, s2))
           \<and> perDb_inv s2 (ps # us) fs \<and> envCache_inv s2 eus efs
           \<and> env (envRows s2 jc) = e
           \<and> handles s2 us = handles s us \<and> outputValue s2 = outputValue s"
proof (cases "eng_db eng \<noteq> 0 \<and> eng_runs_ext eng")
  case False
  then have "native_open eng m e cb s
             = Some (Inr (eng_rc eng arg,
                          if eng_db eng \<noteq> 0 \<and> eng_keeps eng arg then eng_db eng else 0, s))"
    by (auto simp add: native_open_def arg)
  then show ?thesis using pi ei je by blast
next
  case True
  then have a: "arg = Some rcx" by (simp add: arg)
  show ?thesis
  proof (cases "autoExt_nExt s = 0")
    case z: True
    have "native_open eng m e cb s
          = Some (Inr (eng_rc eng arg,
                       if eng_db eng \<noteq> 0 \<and> eng_keeps eng arg then eng_db eng else 0, s))"
      using True z by (simp add: native_open_def s3jni_run_java_auto_extensions_def a rcx)
    then show ?thesis using pi ei je by blast
  next
    case nz: False
    define X where "X = eng_db eng"
    define w where "w = jDb (dbRows s ps)"
    define s4 where "s4 = (upd_db ps (\<lambda>r. r\<lparr>pDb := X\<rparr>)
                    (upd_env jc (\<lambda>r. r\<lparr>pdbOpening := 0\<rparr>)
                       (upd_metrics (\<lambda>c. c\<lparr>envCacheHits := envCacheHits c + 1\<rparr>)
                          (upd_metrics (\<lambda>c. c\<lparr>nMutexEnv := nMutexEnv c + 1\<rparr>) s))))
                 \<lparr>nativePointer := (nativePointer s)(w := X)\<rparr>"
    have n0: "0 < autoExt_nExt s" using nz by simp
    have run: "s3jni_run_java_auto_extensions m e cb X s = Some (Inr (ext_loop cb w 0 s4))"
      by (rule run_java_auto_extensions_bound [OF ei jc je po p0 w_def [symmetric] warm n0 s4_def])
    define s2 where "s2 = snd (snd (ext_loop cb w 0 s4))"
    have A4: "autoExt_pExt s4 = autoExt_pExt s" "autoExt_nExt s4 = autoExt_nExt s"
      by (simp_all add: s4_def)
    have nzz: "\<forall>k<autoExt_nExt s4. ax_jObj (autoExt_pExt s4 ! k) \<noteq> 0"
      using autoExt_inv_nonzero [OF ai] by (simp add: A4)
    note R = ext_loop_run [OF nzz, of cb w 0]
    note F = ext_loop_frame [of cb w 0 s4]
    have rc: "fst (ext_loop cb w 0 s4) = rcx"
      using R nz by (simp add: A4 rcx)
    have el: "ext_loop cb w 0 s4 = (rcx, fst (snd (ext_loop cb w 0 s4)), s2)"
      using rc by (simp add: s2_def prod_eq_iff)
    have res: "native_open eng m e cb s
          = Some (Inr (eng_rc eng arg,
                       if eng_db eng \<noteq> 0 \<and> eng_keeps eng arg then eng_db eng else 0, s2))"
      using True unfolding native_open_def X_def [symmetric] run
      by (subst el) (simp add: a X_def)
    have xin: "X \<notin> set (handles s (ps # us))"
      using fresh pz by (simp add: handles_Cons X_def)
    have pb: "perDb_inv (upd_db ps (\<lambda>r. r\<lparr>pDb := X\<rparr>) s) (ps # us) fs"
      by (rule perDb_inv_bind [OF pi _ xin]) simp
    have p4: "perDb_inv s4 (ps # us) fs"
      by (rule perDb_inv_cong [OF pb]) (simp_all add: s4_def upd_db_def upd_env_def upd_metrics_def)
    have p2: "perDb_inv s2 (ps # us) fs"
      by (rule perDb_inv_cong [OF p4]) (use R F in \<open>simp_all add: s2_def\<close>)
    have e0: "envCache_inv (upd_env jc (\<lambda>r. r\<lparr>pdbOpening := 0\<rparr>) s) eus efs"
      using ei by (simp add: envCache_inv_pdbOpening)
    have e4: "envCache_inv s4 eus efs"
      by (rule envCache_inv_cong [OF e0]) (simp_all add: s4_def upd_db_def upd_env_def upd_metrics_def)
    have e2: "envCache_inv s2 eus efs"
      by (rule envCache_inv_cong [OF e4]) (use R F in \<open>simp_all add: s2_def\<close>)
    have pn: "ps \<notin> set us" using pi by (auto simp: perDb_inv_def)
    have d2: "dbRows s2 = dbRows s4" using R by (simp add: s2_def)
    have hs: "handles s2 us = handles s us"
      by (rule handles_cong) (use pn in \<open>auto simp: d2 s4_def\<close>)
    have je2: "env (envRows s2 jc) = e"
      using R je by (simp add: s2_def s4_def)
    have ov: "outputValue s2 = outputValue s"
      using F by (simp add: s2_def s4_def)
    show ?thesis using res p2 e2 hs je2 ov by blast
  qed
qed

text \<open>The post-open stage when there is no handle.\<close>

lemma open_post_unwind:
  assumes ei: "envCache_inv s eus efs" and jc: "jc \<in> set eus" and je: "env (envRows s jc) = e"
    and pi: "perDb_inv s (ps # us) fs"
  shows "\<exists>s'. s3jni_open_post jm jc ps 0 jOut rc s = Inr (rc, s')
           \<and> perDb_inv s' us (ps # fs)
           \<and> pDb (dbRows s' ps) = 0 \<and> jDb (dbRows s' ps) = 0
           \<and> hooks (dbRows s' ps) = (\<lambda>k. S3JniHook_zero)
           \<and> handles s' us = handles s us
           \<and> outputValue s' jOut = 0
           \<and> envCache_inv s' eus efs \<and> env (envRows s' jc) = e
           \<and> pdbOpening (envRows s' jc) = 0"
proof -
  have j0: "jc \<noteq> 0" using ei jc by (auto simp: envCache_inv_def dest: dll_nonzero)
  define s1 where "s1 = upd_env jc (\<lambda>r. r\<lparr>pdbOpening := 0\<rparr>) s"
  define s2 where "s2 = S3JniDb_set_aside jm ps s1"
  define s' where "s' = OutputPointer_set_sqlite3 jOut 0 s2"
  have res: "s3jni_open_post jm jc ps 0 jOut rc s = Inr (rc, s')"
    using j0 by (simp add: s3jni_open_post_def Let_def s'_def s2_def s1_def)
  have p1: "perDb_inv s1 (ps # us) fs"
    by (rule perDb_inv_cong [OF pi]) (simp_all add: s1_def)
  have pin: "ps \<in> set (ps # us)" by simp
  note S = set_aside_inv [OF p1 pin, where jm = jm, folded s2_def]
  note E = set_aside_env [of jm ps s1, folded s2_def]
  note O = OutputPointer_set_props [of jOut 0 s2, folded s'_def]
  have pn: "ps \<notin> set us" using pi by (auto simp: perDb_inv_def)
  have p2: "perDb_inv s2 us (ps # fs)" using S(1) by simp
  have p': "perDb_inv s' us (ps # fs)"
    by (rule perDb_inv_cong [OF p2]) (simp_all add: O)
  have r': "dbRows s' ps = S3JniDb_zero\<lparr>pNext := perDb_aFree s1\<rparr>"
    using S(2) by (simp add: O)
  have hs: "handles s' us = handles s us"
  proof (rule handles_cong)
    fix q assume "q \<in> set us"
    then have "q \<noteq> ps" using pn by auto
    then show "pDb (dbRows s' q) = pDb (dbRows s q)"
      using S(3) [of q] by (simp add: O s1_def)
  qed
  have e1: "envCache_inv s1 eus efs" using ei by (simp add: s1_def envCache_inv_pdbOpening)
  have e': "envCache_inv s' eus efs"
    by (rule envCache_inv_cong [OF e1]) (simp_all add: O E S)
  have er: "envRows s' = envRows s1" by (simp add: O S)
  have v: "env (envRows s' jc) = e" "pdbOpening (envRows s' jc) = 0"
    using je by (simp_all add: er s1_def)
  show ?thesis
    using res p' hs O(1) e' v by (simp add: r' S3JniDb_zero_def)
qed

end
